(* ===== verification/Prelude.thy ===== *)
theory Prelude
  imports Complex_Main "HOL-Library.Word" "HOL-Library.Sublist"
begin

text \<open>
  Shared vocabulary of the development: the Python exceptions the modelled code can
  raise, the types that name bytes, code points and Python strings, and the generic
  list lemmas the component theories share.  The reference function \<open>chunks_of\<close>
  cuts a list into consecutive pieces of a fixed length; it is the specification of the
  two \<open>for i in range(0, n, k): xs[i:i+k]\<close> loops of the sources (block splitting in
  \<open>legal_verification.py\<close> and batching in \<open>test_mongodb_complete.py\<close>).
\<close>

named_theorems py_simps "evaluation rules of the modelled Python built-ins"
named_theorems chunk_simps "rules about cutting a list into fixed-size pieces"

section \<open>Types of the model\<close>

text \<open>A byte of a \<open>bytes\<close> object or of an \<open>mmap\<close> is an unsigned 8-bit word.\<close>

type_synonym byte = "8 word"

text \<open>
  A Python \<open>str\<close> is a sequence of code points; the interpreter keeps every code point
  below \<open>0x110000\<close> (see \<open>py_str_ok\<close>).
\<close>

type_synonym codepoint = nat
type_synonym pystr = "codepoint list"

definition py_str_ok :: "pystr \<Rightarrow> bool" where
  "py_str_ok s \<longleftrightarrow> list_all (\<lambda>c. c < 0x110000) s"

text \<open>The exceptions that the modelled code raises.\<close>

datatype py_error =
    ZeroDivisionError
  | ValueError
  | UnicodeEncodeError
  | NameError
  | KeyError
  | JSONDecodeError
  | TypeError
  | FileNotFoundError

text \<open>Python's true division \<open>/\<close> on numbers, with its \<open>ZeroDivisionError\<close>.\<close>

definition py_div :: "rat \<Rightarrow> rat \<Rightarrow> py_error + rat" where
  "py_div x y = (if y = 0 then Inl ZeroDivisionError else Inr (x / y))"

section \<open>Cutting a list into pieces of a fixed length\<close>

function chunks_of :: "nat \<Rightarrow> 'a list \<Rightarrow> 'a list list" where
  "chunks_of k xs = (if xs = [] \<or> k = 0 then [] else take k xs # chunks_of k (drop k xs))"
  by pat_completeness auto
termination
  by (relation "measure (\<lambda>(k, xs). length xs)") auto

declare chunks_of.simps [simp del]

lemma chunks_of_Nil [simp, chunk_simps]: "chunks_of k [] = []"
  by (simp add: chunks_of.simps)

lemma chunks_of_0 [simp, chunk_simps]: "chunks_of 0 xs = []"
  by (simp add: chunks_of.simps)

lemma chunks_of_nonempty_list [chunk_simps]:
  "xs \<noteq> [] \<Longrightarrow> 0 < k \<Longrightarrow> chunks_of k xs = take k xs # chunks_of k (drop k xs)"
  by (simp add: chunks_of.simps)

lemma chunks_of_eq_Nil_iff [chunk_simps]: "0 < k \<Longrightarrow> (chunks_of k xs = []) = (xs = [])"
  by (simp add: chunks_of.simps)

lemma concat_chunks_of [chunk_simps]: "0 < k \<Longrightarrow> concat (chunks_of k xs) = xs"
  by (induction k xs rule: chunks_of.induct) (simp add: chunks_of.simps)

lemma chunks_of_piece_bounds [chunk_simps]:
  "ys \<in> set (chunks_of k xs) \<Longrightarrow> ys \<noteq> [] \<and> length ys \<le> k"
proof (induction k xs rule: chunks_of.induct)
  case (1 k xs)
  then show ?case
    by (cases "xs = [] \<or> k = 0") (auto simp: chunks_of.simps [of k xs])
qed

lemma ceil_div_one:
  fixes n k :: nat
  assumes "0 < n" and "n \<le> k"
  shows "(n + k - 1) div k = 1"
proof -
  from assms have "k * 1 \<le> n + k - 1" and "n + k - 1 < k + k"
    by linarith+
  then have "k * 1 \<le> n + k - 1" and "n + k - 1 < k * Suc 1"
    by (simp_all only: mult_1_right mult_Suc_right)
  then show ?thesis
    by (rule div_nat_eqI)
qed

lemma length_chunks_of [chunk_simps]:
  "0 < k \<Longrightarrow> length (chunks_of k xs) = (length xs + k - 1) div k"
proof (induction k xs rule: chunks_of.induct)
  case (1 k xs)
  show ?case
  proof (cases "xs = []")
    case True
    with "1.prems" show ?thesis by simp
  next
    case False
    then have eq: "chunks_of k xs = take k xs # chunks_of k (drop k xs)"
      using "1.prems" by (rule chunks_of_nonempty_list)
    show ?thesis
    proof (cases "length xs \<le> k")
      case True
      then have "drop k xs = []"
        by simp
      with eq have len1: "length (chunks_of k xs) = 1"
        by simp
      from False have "0 < length xs"
        by simp
      then have "(length xs + k - 1) div k = 1"
        using True by (rule ceil_div_one)
      with len1 show ?thesis
        by (simp only:)
    next
      case long: False
      with "1" False have IH: "length (chunks_of k (drop k xs)) = (length xs - k + k - 1) div k"
        by simp
      from long have split: "length xs + k - 1 = (length xs - k + k - 1) + k"
        by simp
      have "length (chunks_of k xs) = Suc (length (chunks_of k (drop k xs)))"
        using eq by simp
      also have "\<dots> = Suc ((length xs - k + k - 1) div k)"
        by (simp only: IH)
      also have "\<dots> = ((length xs - k + k - 1) + k) div k"
        using "1.prems" by (subst div_add_self2) simp_all
      also have "\<dots> = (length xs + k - 1) div k"
        by (simp only: split)
      finally show ?thesis .
    qed
  qed
qed

lemma chunks_of_full [chunk_simps]:
  "Suc i < length (chunks_of k xs) \<Longrightarrow> length (chunks_of k xs ! i) = k"
proof (induction k xs arbitrary: i rule: chunks_of.induct)
  case (1 k xs)
  show ?case
  proof (cases "xs = [] \<or> k = 0")
    case True
    with "1.prems" show ?thesis by (simp add: chunks_of.simps [of k xs])
  next
    case False
    then have eq: "chunks_of k xs = take k xs # chunks_of k (drop k xs)"
      by (simp add: chunks_of.simps [of k xs])
    show ?thesis
    proof (cases i)
      case 0
      from "1.prems" eq have "drop k xs \<noteq> []"
        by (auto simp: 0)
      with eq show ?thesis by (simp add: 0)
    next
      case (Suc j)
      with "1.prems" eq have "Suc j < length (chunks_of k (drop k xs))"
        by simp
      with "1.IH" False eq Suc show ?thesis by simp
    qed
  qed
qed

lemma set_chunks_of_subset [chunk_simps]: "p \<in> set (chunks_of k xs) \<Longrightarrow> set p \<subseteq> set xs"
proof (cases "0 < k")
  case True
  assume "p \<in> set (chunks_of k xs)"
  then have "set p \<subseteq> set (concat (chunks_of k xs))"
    by auto
  with True show ?thesis
    by (simp add: concat_chunks_of)
next
  case False
  assume "p \<in> set (chunks_of k xs)"
  with False show ?thesis
    by simp
qed

lemma chunks_replicate_prefix [chunk_simps]:
  "chunks_of (Suc n) (replicate n x @ a # rest) = (replicate n x @ [a]) # chunks_of (Suc n) rest"
  by (simp add: chunks_of_nonempty_list take_append drop_append)

lemma chunks_of_map [chunk_simps]: "chunks_of k (map f xs) = map (map f) (chunks_of k xs)"
  by (induction k xs rule: chunks_of.induct) (simp add: chunks_of.simps take_map drop_map)

lemma chunks_of_Suc_0 [chunk_simps]: "chunks_of (Suc 0) xs = map (\<lambda>x. [x]) xs"
  by (induction xs) (simp_all add: chunks_of.simps)

section \<open>Generic list lemmas\<close>

lemma foldl_append_filter_map:
  "foldl (\<lambda>acc i. let y = g i in if P y then acc @ [y] else acc) acc0 is
   = acc0 @ filter P (map g is)"
  by (induction "is" arbitrary: acc0) (simp_all add: Let_def)

lemma sum_list_length_concat: "sum_list (map length xss) = length (concat xss)"
  by (simp add: length_concat)

end
