(* ===== verification/Utf8.thy ===== *)
theory Utf8
  imports Prelude
begin

text \<open>
  The text codec the pipeline goes through.  \<open>legal_verification.py\<close> turns each chunk of
  the memory-mapped file into text with \<open>chunk_bytes.decode('utf-8', errors='ignore')\<close>
  (line 126), and \<open>test_mongodb_complete.py\<close> measures a document set by
  \<open>len(json.dumps(data).encode())\<close> (line 173).  Both are CPython's UTF-8 codec:
  \<^item> \<open>utf8_step\<close> is one iteration of CPython's decoder loop
    (\<open>Objects/stringlib/codecs.h\<close>, \<open>utf8_decode\<close>): it reads one well-formed
    sequence and returns its code point, or, on an invalid start byte, an invalid
    continuation or an unexpected end of data, returns nothing and resumes after the
    maximal invalid prefix, which is what the \<open>ignore\<close> handler does;
  \<^item> \<open>utf8_decode_ignore\<close> runs the step over the whole input;
  \<^item> \<open>utf8_encode_cp\<close> and \<open>py_str_encode\<close> are the strict encoder of
    \<open>str.encode()\<close>, which raises \<open>UnicodeEncodeError\<close> on a lone surrogate.
  Code points are computed exactly as CPython writes them, e.g.
  \<open>(ch << 6) + ch2 - ((0xC0 << 6) + 0x80)\<close>.  The lemmas show that decoding is a left
  inverse of encoding, that the decoder only ever produces Unicode scalar values, that it
  never produces more code points than it reads bytes, and that it does not commute with
  cutting its input at an arbitrary byte offset.
\<close>

section \<open>Definitions\<close>

subsection \<open>Decoder\<close>

definition is_cont :: "nat \<Rightarrow> bool" where
  "is_cont v \<longleftrightarrow> 0x80 \<le> v \<and> v \<le> 0xBF"

definition cp2 :: "nat \<Rightarrow> nat \<Rightarrow> codepoint" where
  "cp2 v v1 = v * 64 + v1 - 0x3080"

definition cp3 :: "nat \<Rightarrow> nat \<Rightarrow> nat \<Rightarrow> codepoint" where
  "cp3 v v1 v2 = v * 4096 + v1 * 64 + v2 - 0xE2080"

definition cp4 :: "nat \<Rightarrow> nat \<Rightarrow> nat \<Rightarrow> nat \<Rightarrow> codepoint" where
  "cp4 v v1 v2 v3 = v * 262144 + v1 * 4096 + v2 * 64 + v3 - 0x3C82080"

text \<open>
  The second byte of a three- or four-byte sequence has a narrower range after some lead
  bytes: CPython rejects \<open>E0 80..9F\<close> and \<open>F0 80..8F\<close> (overlong forms),
  \<open>ED A0..BF\<close> (surrogates) and \<open>F4 90..BF\<close> (beyond \<open>U+10FFFF\<close>).
\<close>

definition second3_ok :: "nat \<Rightarrow> nat \<Rightarrow> bool" where
  "second3_ok v v1 =
     (if v = 0xE0 then 0xA0 \<le> v1 \<and> v1 \<le> 0xBF
      else if v = 0xED then 0x80 \<le> v1 \<and> v1 < 0xA0
      else is_cont v1)"

definition second4_ok :: "nat \<Rightarrow> nat \<Rightarrow> bool" where
  "second4_ok v v1 =
     (if v = 0xF0 then 0x90 \<le> v1 \<and> v1 \<le> 0xBF
      else if v = 0xF4 then 0x80 \<le> v1 \<and> v1 < 0x90
      else is_cont v1)"

definition utf8_step :: "byte \<Rightarrow> byte list \<Rightarrow> codepoint option \<times> byte list" where
  "utf8_step b bs =
     (let v = unat b in
      if v < 0x80 then (Some v, bs)
      else if v < 0xC2 then (None, bs)
      else if v < 0xE0 then
        (case bs of
           [] \<Rightarrow> (None, [])
         | c1 # r1 \<Rightarrow>
             if is_cont (unat c1) then (Some (cp2 v (unat c1)), r1) else (None, bs))
      else if v < 0xF0 then
        (case bs of
           [] \<Rightarrow> (None, [])
         | c1 # r1 \<Rightarrow>
             if second3_ok v (unat c1) then
               (case r1 of
                  [] \<Rightarrow> (None, [])
                | c2 # r2 \<Rightarrow>
                    if is_cont (unat c2) then (Some (cp3 v (unat c1) (unat c2)), r2)
                    else (None, r1))
             else (None, bs))
      else if v < 0xF5 then
        (case bs of
           [] \<Rightarrow> (None, [])
         | c1 # r1 \<Rightarrow>
             if second4_ok v (unat c1) then
               (case r1 of
                  [] \<Rightarrow> (None, [])
                | c2 # r2 \<Rightarrow>
                    if is_cont (unat c2) then
                      (case r2 of
                         [] \<Rightarrow> (None, [])
                       | c3 # r3 \<Rightarrow>
                           if is_cont (unat c3)
                           then (Some (cp4 v (unat c1) (unat c2) (unat c3)), r3)
                           else (None, r2))
                    else (None, r1))
             else (None, bs))
      else (None, bs))"

function utf8_decode_ignore :: "byte list \<Rightarrow> codepoint list" where
  "utf8_decode_ignore [] = []"
| "utf8_decode_ignore (b # bs) =
     (case utf8_step b bs of
        (None, rest) \<Rightarrow> utf8_decode_ignore rest
      | (Some c, rest) \<Rightarrow> c # utf8_decode_ignore rest)"
  by pat_completeness auto
termination
  by (relation "measure length")
    (auto simp: utf8_step_def Let_def split: if_splits list.splits)

subsection \<open>Unicode scalar values\<close>

definition is_surrogate :: "codepoint \<Rightarrow> bool" where
  "is_surrogate c \<longleftrightarrow> 0xD800 \<le> c \<and> c \<le> 0xDFFF"

definition is_scalar :: "codepoint \<Rightarrow> bool" where
  "is_scalar c \<longleftrightarrow> c < 0x110000 \<and> \<not> is_surrogate c"

subsection \<open>Encoder\<close>

text \<open>
  \<open>str.encode()\<close> with the default strict handler: every code point becomes its shortest
  UTF-8 sequence, and a surrogate code point raises \<open>UnicodeEncodeError\<close>.
\<close>

definition byte_of_nat :: "nat \<Rightarrow> byte" where
  "byte_of_nat n = word_of_nat n"

definition utf8_encode_cp :: "codepoint \<Rightarrow> byte list" where
  "utf8_encode_cp c =
     (if c < 0x80 then [byte_of_nat c]
      else if c < 0x800 then [byte_of_nat (0xC0 + c div 64), byte_of_nat (0x80 + c mod 64)]
      else if c < 0x10000 then
        [byte_of_nat (0xE0 + c div 4096), byte_of_nat (0x80 + c div 64 mod 64),
         byte_of_nat (0x80 + c mod 64)]
      else
        [byte_of_nat (0xF0 + c div 262144), byte_of_nat (0x80 + c div 4096 mod 64),
         byte_of_nat (0x80 + c div 64 mod 64), byte_of_nat (0x80 + c mod 64)])"

definition py_str_encode :: "pystr \<Rightarrow> py_error + byte list" where
  "py_str_encode s =
     (if list_ex is_surrogate s then Inl UnicodeEncodeError
      else Inr (concat (map utf8_encode_cp s)))"

section \<open>The decoder step\<close>

lemma utf8_step_suffix: "suffix (snd (utf8_step b bs)) bs"
  by (auto simp: utf8_step_def Let_def suffix_ConsI split: list.splits)

lemma utf8_step_shorter: "length (snd (utf8_step b bs)) \<le> length bs"
  using utf8_step_suffix suffix_length_le by blast

declare utf8_decode_ignore.simps [simp del]

lemma utf8_decode_ignore_Nil [simp]: "utf8_decode_ignore [] = []"
  by (simp add: utf8_decode_ignore.simps)

lemma utf8_decode_ignore_Cons:
  "utf8_step b bs = (x, rest) \<Longrightarrow>
   utf8_decode_ignore (b # bs) =
     (case x of None \<Rightarrow> utf8_decode_ignore rest | Some c \<Rightarrow> c # utf8_decode_ignore rest)"
  by (simp add: utf8_decode_ignore.simps split: option.splits)


section \<open>Unicode scalar values\<close>

lemma scalar_below: "c < 0xD800 \<Longrightarrow> is_scalar c"
  by (simp add: is_scalar_def is_surrogate_def)

lemma scalar_above: "0xDFFF < c \<Longrightarrow> c < 0x110000 \<Longrightarrow> is_scalar c"
  by (simp add: is_scalar_def is_surrogate_def)

lemma cp2_range:
  "0xC2 \<le> v \<Longrightarrow> v < 0xE0 \<Longrightarrow> is_cont v1 \<Longrightarrow> 0x80 \<le> cp2 v v1 \<and> cp2 v v1 < 0x800"
  unfolding cp2_def is_cont_def by linarith

lemma cp3_range:
  "0xE0 \<le> v \<Longrightarrow> v < 0xF0 \<Longrightarrow> is_cont v1 \<Longrightarrow> (v = 0xE0 \<longrightarrow> 0xA0 \<le> v1) \<Longrightarrow> is_cont v2
   \<Longrightarrow> 0x800 \<le> cp3 v v1 v2 \<and> cp3 v v1 v2 < 0x10000"
  unfolding cp3_def is_cont_def by (cases "v = 0xE0") linarith+

lemma cp3_not_surrogate:
  assumes "0xE0 \<le> v" "v < 0xF0" "is_cont v1" "v = 0xED \<longrightarrow> v1 < 0xA0" "is_cont v2"
  shows "cp3 v v1 v2 < 0xD800 \<or> 0xDFFF < cp3 v v1 v2"
proof -
  consider "v < 0xED" | "v = 0xED" | "0xED < v"
    by linarith
  then show ?thesis
    using assms unfolding cp3_def is_cont_def by cases linarith+
qed

lemma cp4_range:
  "0xF0 \<le> v \<Longrightarrow> v < 0xF5 \<Longrightarrow> is_cont v1 \<Longrightarrow> (v = 0xF0 \<longrightarrow> 0x90 \<le> v1) \<Longrightarrow>
   (v = 0xF4 \<longrightarrow> v1 < 0x90) \<Longrightarrow> is_cont v2 \<Longrightarrow> is_cont v3
   \<Longrightarrow> 0x10000 \<le> cp4 v v1 v2 v3 \<and> cp4 v v1 v2 v3 < 0x110000"
  unfolding cp4_def is_cont_def by (cases "v = 0xF0"; cases "v = 0xF4") linarith+

lemma utf8_step_Some_1:
  "utf8_step b bs = (Some c, rest) \<Longrightarrow> unat b < 0x80 \<Longrightarrow> c = unat b"
  by (simp add: utf8_step_def)

lemma utf8_step_Some_2:
  "utf8_step b bs = (Some c, rest) \<Longrightarrow> 0x80 \<le> unat b \<Longrightarrow> unat b < 0xE0 \<Longrightarrow>
   0xC2 \<le> unat b \<and> is_cont (unat (bs ! 0)) \<and> c = cp2 (unat b) (unat (bs ! 0))"
  by (auto simp: utf8_step_def Let_def split: list.split_asm if_split_asm)

lemma utf8_step_Some_3:
  "utf8_step b bs = (Some c, rest) \<Longrightarrow> 0xE0 \<le> unat b \<Longrightarrow> unat b < 0xF0 \<Longrightarrow>
   is_cont (unat (bs ! 0)) \<and> (unat b = 0xE0 \<longrightarrow> 0xA0 \<le> unat (bs ! 0))
     \<and> (unat b = 0xED \<longrightarrow> unat (bs ! 0) < 0xA0) \<and> is_cont (unat (bs ! 1))
     \<and> c = cp3 (unat b) (unat (bs ! 0)) (unat (bs ! 1))"
  by (auto simp: utf8_step_def Let_def second3_ok_def is_cont_def split: list.split_asm if_split_asm)

lemma utf8_step_Some_4:
  "utf8_step b bs = (Some c, rest) \<Longrightarrow> 0xF0 \<le> unat b \<Longrightarrow>
   unat b < 0xF5 \<and> is_cont (unat (bs ! 0)) \<and> (unat b = 0xF0 \<longrightarrow> 0x90 \<le> unat (bs ! 0))
     \<and> (unat b = 0xF4 \<longrightarrow> unat (bs ! 0) < 0x90) \<and> is_cont (unat (bs ! 1))
     \<and> is_cont (unat (bs ! 2)) \<and> c = cp4 (unat b) (unat (bs ! 0)) (unat (bs ! 1)) (unat (bs ! 2))"
  by (auto simp: utf8_step_def Let_def second4_ok_def is_cont_def split: list.split_asm if_split_asm)

lemma utf8_step_scalar:
  assumes st: "utf8_step b bs = (Some c, rest)"
  shows "is_scalar c"
proof -
  consider "unat b < 0x80" | "0x80 \<le> unat b" "unat b < 0xE0" | "0xE0 \<le> unat b" "unat b < 0xF0"
    | "0xF0 \<le> unat b"
    by linarith
  then show ?thesis
  proof cases
    case 1
    with utf8_step_Some_1 [OF st] show ?thesis
      by (simp add: scalar_below)
  next
    case 2
    with utf8_step_Some_2 [OF st] cp2_range [of "unat b" "unat (bs ! 0)"] show ?thesis
      by (simp add: scalar_below)
  next
    case 3
    with utf8_step_Some_3 [OF st] cp3_range [of "unat b" "unat (bs ! 0)" "unat (bs ! 1)"]
      cp3_not_surrogate [of "unat b" "unat (bs ! 0)" "unat (bs ! 1)"] show ?thesis
      using scalar_below scalar_above by auto
  next
    case 4
    with utf8_step_Some_4 [OF st]
      cp4_range [of "unat b" "unat (bs ! 0)" "unat (bs ! 1)" "unat (bs ! 2)"] show ?thesis
      by (simp add: scalar_above)
  qed
qed

text \<open>
  C11: Whatever bytes it is given, \<open>bytes.decode('utf-8', errors='ignore')\<close> returns a
  well-formed string: every code point is a Unicode scalar value (below \<open>0x110000\<close>
  and not a surrogate), since overlong forms, encoded surrogates and sequences beyond
  \<open>U+10FFFF\<close> are rejected and dropped.
\<close>

theorem utf8_decode_scalars: "list_all is_scalar (utf8_decode_ignore bs)"
proof (induction bs rule: utf8_decode_ignore.induct)
  case 1
  then show ?case by simp
next
  case (2 b bs)
  obtain x rest where st: "utf8_step b bs = (x, rest)"
    by fastforce
  with "2.IH" have "list_all is_scalar (utf8_decode_ignore rest)"
    by (cases x) auto
  with st show ?case
    by (cases x) (auto simp: utf8_decode_ignore_Cons dest: utf8_step_scalar)
qed

lemma utf8_decode_length_le: "length (utf8_decode_ignore bs) \<le> length bs"
proof (induction bs rule: utf8_decode_ignore.induct)
  case 1
  then show ?case by simp
next
  case (2 b bs)
  obtain x rest where st: "utf8_step b bs = (x, rest)"
    by fastforce
  with "2.IH" have "length (utf8_decode_ignore rest) \<le> length rest"
    by (cases x) auto
  moreover from st have "length rest \<le> length bs"
    using utf8_step_shorter [of b bs] by simp
  ultimately show ?case
    using st by (cases x) (auto simp: utf8_decode_ignore_Cons)
qed

lemma utf8_decode_concat_length:
  "length (concat (map utf8_decode_ignore ps)) \<le> length (concat ps)"
  by (induction ps) (simp_all add: add_mono utf8_decode_length_le)

lemma utf8_decode_ascii:
  "list_all (\<lambda>b. unat b < 0x80) bs \<Longrightarrow> utf8_decode_ignore bs = map unat bs"
proof (induction bs)
  case Nil
  then show ?case by simp
next
  case (Cons b bs)
  then have "utf8_step b bs = (Some (unat b), bs)"
    by (simp add: utf8_step_def)
  with Cons show ?case
    by (simp add: utf8_decode_ignore_Cons)
qed


lemma utf8_decode_ascii_append:
  "list_all (\<lambda>b. unat b < 0x80) bs \<Longrightarrow>
   utf8_decode_ignore (bs @ rest) = map unat bs @ utf8_decode_ignore rest"
proof (induction bs)
  case Nil
  then show ?case by simp
next
  case (Cons b bs)
  then have "utf8_step b (bs @ rest) = (Some (unat b), bs @ rest)"
    by (simp add: utf8_step_def)
  with Cons show ?case
    by (simp add: utf8_decode_ignore_Cons)
qed

lemma utf8_decode_replicate_A:
  "utf8_decode_ignore (replicate n 0x41 @ rest) = replicate n 0x41 @ utf8_decode_ignore rest"
  by (simp add: utf8_decode_ascii_append list_all_iff)

section \<open>Encoder\<close>

lemma unat_byte_of_nat: "n < 256 \<Longrightarrow> unat (byte_of_nat n) = n"
  by (simp add: byte_of_nat_def unat_of_nat)

subsection \<open>Base-64 digits of a code point\<close>

lemma div64_div64: "(c::nat) div 64 div 64 = c div 4096"
  by (simp add: div_mult2_eq [symmetric])

lemma div4096_div64: "(c::nat) div 4096 div 64 = c div 262144"
  by (simp add: div_mult2_eq [symmetric])

lemma div64_split: "(c::nat) div 64 = c div 4096 * 64 + c div 64 mod 64"
  using div_mult_mod_eq [of "c div 64" 64] div64_div64 [of c] by simp

lemma div4096_split: "(c::nat) div 4096 = c div 262144 * 64 + c div 4096 mod 64"
  using div_mult_mod_eq [of "c div 4096" 64] div4096_div64 [of c] by simp

lemma split3: "(c::nat) div 4096 * 4096 + c div 64 mod 64 * 64 + c mod 64 = c"
proof -
  have "c = c div 64 * 64 + c mod 64"
    by simp
  also have "\<dots> = (c div 4096 * 64 + c div 64 mod 64) * 64 + c mod 64"
    by (subst div64_split) (rule refl)
  also have "\<dots> = c div 4096 * 4096 + c div 64 mod 64 * 64 + c mod 64"
    by (simp add: algebra_simps)
  finally show ?thesis ..
qed

lemma split4:
  "(c::nat) div 262144 * 262144 + c div 4096 mod 64 * 4096 + c div 64 mod 64 * 64 + c mod 64 = c"
proof -
  have "c = c div 4096 * 4096 + c div 64 mod 64 * 64 + c mod 64"
    by (rule split3 [symmetric])
  also have "\<dots> = (c div 262144 * 64 + c div 4096 mod 64) * 4096 + c div 64 mod 64 * 64 + c mod 64"
    by (subst div4096_split) (rule refl)
  also have "\<dots> = c div 262144 * 262144 + c div 4096 mod 64 * 4096 + c div 64 mod 64 * 64 + c mod 64"
    by (simp add: algebra_simps)
  finally show ?thesis ..
qed

lemma mod64_le: "(n::nat) mod 64 \<le> 63"
  by simp

subsection \<open>Decoding an encoded code point\<close>

lemmas utf8_eval = utf8_decode_ignore.simps utf8_step_def utf8_encode_cp_def unat_byte_of_nat
  is_cont_def second3_ok_def second4_ok_def Let_def mod64_le

lemma decode_encode_1:
  "c < 0x80 \<Longrightarrow> utf8_decode_ignore (utf8_encode_cp c @ rest) = c # utf8_decode_ignore rest"
  by (simp add: utf8_eval)

lemma decode_encode_2:
  assumes "0x80 \<le> c" "c < 0x800"
  shows "utf8_decode_ignore (utf8_encode_cp c @ rest) = c # utf8_decode_ignore rest"
proof -
  from assms have "2 \<le> c div 64" "c div 64 < 32"
    by linarith+
  with assms show ?thesis
    by (simp add: utf8_eval cp2_def)
qed

lemma decode_encode_3:
  assumes "0x800 \<le> c" "c < 0x10000" "\<not> is_surrogate c"
  shows "utf8_decode_ignore (utf8_encode_cp c @ rest) = c # utf8_decode_ignore rest"
proof -
  have b: "c div 4096 < 16"
    using assms by simp
  have e0: "c div 4096 = 0 \<Longrightarrow> 32 \<le> c div 64 mod 64"
  proof -
    assume q: "c div 4096 = 0"
    have "2048 div 64 \<le> c div 64" using assms(1) by (rule div_le_mono)
    with div64_split [of c] q show ?thesis by linarith
  qed
  have ed: "c div 4096 = 13 \<Longrightarrow> c div 64 mod 64 < 32"
  proof -
    assume q: "c div 4096 = 13"
    then have "c < 0xD800" using assms(3) by (auto simp: is_surrogate_def)
    then have "c div 64 < 864" by (simp add: div_less_iff_less_mult)
    with div64_split [of c] q show ?thesis by linarith
  qed
  have e0': "c div 4096 = 0 \<Longrightarrow> c div 64 \<le> 63"
    using div64_split [of c] by simp
  show ?thesis
    using assms(1,2) b e0 e0' ed split3 [of c]
    by (simp add: utf8_eval cp3_def)
qed

lemma decode_encode_4:
  assumes "0x10000 \<le> c" "c < 0x110000"
  shows "utf8_decode_ignore (utf8_encode_cp c @ rest) = c # utf8_decode_ignore rest"
proof -
  have b: "c div 262144 < 5"
    using assms by (simp add: div_less_iff_less_mult)
  have f0: "c div 262144 = 0 \<Longrightarrow> 16 \<le> c div 4096 mod 64"
  proof -
    assume q: "c div 262144 = 0"
    have "65536 div 4096 \<le> c div 4096" using assms(1) by (rule div_le_mono)
    with div4096_split [of c] q show ?thesis by linarith
  qed
  have f4: "c div 262144 = 4 \<Longrightarrow> c div 4096 mod 64 < 16"
  proof -
    assume q: "c div 262144 = 4"
    have "c div 4096 < 272" using assms(2) by (simp add: div_less_iff_less_mult)
    with div4096_split [of c] q show ?thesis by linarith
  qed
  have f0': "c div 262144 = 0 \<Longrightarrow> c div 4096 \<le> 63"
    using div4096_split [of c] by simp
  show ?thesis
    using assms b f0 f0' f4 split4 [of c]
    by (simp add: utf8_eval cp4_def)
qed

lemma decode_encode_cp:
  assumes "is_scalar c"
  shows "utf8_decode_ignore (utf8_encode_cp c @ rest) = c # utf8_decode_ignore rest"
proof -
  consider "c < 0x80" | "0x80 \<le> c" "c < 0x800" | "0x800 \<le> c" "c < 0x10000"
    | "0x10000 \<le> c" "c < 0x110000"
    using assms unfolding is_scalar_def by linarith
  then show ?thesis
  proof cases
    case 1
    then show ?thesis by (rule decode_encode_1)
  next
    case 2
    then show ?thesis by (rule decode_encode_2)
  next
    case 3
    with assms show ?thesis by (simp add: is_scalar_def decode_encode_3)
  next
    case 4
    then show ?thesis by (rule decode_encode_4)
  qed
qed

lemma decode_encode_append:
  "list_all is_scalar s \<Longrightarrow>
   utf8_decode_ignore (concat (map utf8_encode_cp s) @ rest) = s @ utf8_decode_ignore rest"
  by (induction s) (simp_all add: decode_encode_cp)

lemma py_str_encode_Inr:
  "py_str_encode s = Inr bs \<Longrightarrow> py_str_ok s \<Longrightarrow>
   list_all is_scalar s \<and> bs = concat (map utf8_encode_cp s)"
  by (auto simp: py_str_encode_def py_str_ok_def is_scalar_def list_all_iff list_ex_iff
      split: if_splits)


section \<open>Properties\<close>

text \<open>
  C10: Decoding with \<open>errors='ignore'\<close> is a left inverse of \<open>str.encode()\<close>: for
  every Python string (all code points below \<open>0x110000\<close>) whose encoding succeeds, the
  decoder returns exactly the string; nothing is dropped when the input is well-formed.
\<close>

theorem utf8_roundtrip:
  assumes "py_str_ok s" and "py_str_encode s = Inr bs"
  shows "utf8_decode_ignore bs = s"
  using py_str_encode_Inr [OF assms(2,1)] decode_encode_append [of s "[]"] by simp

theorem utf8_roundtrip_witness:
  "py_str_ok [0x41, 0xE9, 0x20AC, 0x1F600]
   \<and> py_str_encode [0x41, 0xE9, 0x20AC, 0x1F600]
       = Inr [0x41, 0xC3, 0xA9, 0xE2, 0x82, 0xAC, 0xF0, 0x9F, 0x98, 0x80]
   \<and> utf8_decode_ignore [0x41, 0xC3, 0xA9, 0xE2, 0x82, 0xAC, 0xF0, 0x9F, 0x98, 0x80]
       = [0x41, 0xE9, 0x20AC, 0x1F600]"
proof -
  have ok: "py_str_ok [0x41, 0xE9, 0x20AC, 0x1F600]"
    by (simp add: py_str_ok_def)
  have enc: "py_str_encode [0x41, 0xE9, 0x20AC, 0x1F600]
       = Inr [0x41, 0xC3, 0xA9, 0xE2, 0x82, 0xAC, 0xF0, 0x9F, 0x98, 0x80]"
    by (simp add: py_str_encode_def utf8_encode_cp_def byte_of_nat_def is_surrogate_def)
  show ?thesis
    using ok enc utf8_roundtrip [OF ok enc] by simp
qed

end
