(* ===== verification/PyBuiltins.thy ===== *)
theory PyBuiltins
  imports Prelude
begin

text \<open>
  The Python built-ins that the sources' loops are made of: \<open>range(start, stop, step)\<close>
  (which raises \<open>ValueError\<close> for a zero step) and the slice \<open>xs[i:j]\<close> of a list or
  string (indices clamped into the sequence, negative ones counted from the end, as
  CPython's \<open>PySlice_AdjustIndices\<close> does for step 1).  The main lemma,
  \<open>map_slices_range_from\<close>, says that the idiom
  \<open>for i in range(m, len(xs), k): xs[i:i+k]\<close> visits exactly the pieces
  \<open>chunks_of k (drop m xs)\<close>.
\<close>

section \<open>range and slicing\<close>

function range_from :: "int \<Rightarrow> int \<Rightarrow> int \<Rightarrow> int list" where
  "range_from i stop step =
     (if (0 < step \<and> i < stop) \<or> (step < 0 \<and> stop < i)
      then i # range_from (i + step) stop step else [])"
  by pat_completeness auto
termination
  by (relation "measure (\<lambda>(i, stop, step). nat (if 0 < step then stop - i else i - stop))") auto

declare range_from.simps [simp del]

definition py_range :: "int \<Rightarrow> int \<Rightarrow> int \<Rightarrow> py_error + int list" where
  "py_range start stop step =
     (if step = 0 then Inl ValueError else Inr (range_from start stop step))"

definition py_clamp_index :: "int \<Rightarrow> nat \<Rightarrow> nat" where
  "py_clamp_index i n = (if i < 0 then nat (max 0 (int n + i)) else min (nat i) n)"

definition py_slice :: "'a list \<Rightarrow> int \<Rightarrow> int \<Rightarrow> 'a list" where
  "py_slice xs i j =
     (let n = length xs; a = py_clamp_index i n; b = py_clamp_index j n
      in take (b - a) (drop a xs))"

section \<open>Facts about range and slicing\<close>

lemma range_from_neg_step [py_simps]: "step < 0 \<Longrightarrow> i \<le> stop \<Longrightarrow> range_from i stop step = []"
  by (simp add: range_from.simps)

lemma py_slice_nonneg [py_simps]:
  assumes "0 \<le> i" and "0 \<le> j"
  shows "py_slice xs i j = take (nat j - nat i) (drop (nat i) xs)"
proof (cases "nat i \<le> length xs")
  case True
  with assms show ?thesis
    by (simp add: py_slice_def py_clamp_index_def Let_def min_def)
next
  case False
  with assms show ?thesis
    by (simp add: py_slice_def py_clamp_index_def)
qed

section \<open>The range-and-slice loop\<close>

lemma map_slices_range_from:
  assumes "0 < k" and "0 \<le> i"
  shows "map (\<lambda>j. py_slice xs j (j + k)) (range_from i (int (length xs)) k)
         = chunks_of (nat k) (drop (nat i) xs)"
  using assms
proof (induction i "int (length xs)" k rule: range_from.induct)
  case (1 i step)
  show ?case
  proof (cases "i < int (length xs)")
    case True
    then have rng: "range_from i (int (length xs)) step
                    = i # range_from (i + step) (int (length xs)) step"
      using "1.prems" by (simp add: range_from.simps [of i])
    from True "1.prems" have ne: "drop (nat i) xs \<noteq> []"
      by simp
    have IH: "map (\<lambda>j. py_slice xs j (j + step)) (range_from (i + step) (int (length xs)) step)
              = chunks_of (nat step) (drop (nat (i + step)) xs)"
      using "1" True by simp
    have hd: "py_slice xs i (i + step) = take (nat step) (drop (nat i) xs)"
      using "1.prems" by (simp add: py_slice_nonneg nat_add_distrib)
    have "drop (nat (i + step)) xs = drop (nat step) (drop (nat i) xs)"
      using "1.prems" by (simp add: nat_add_distrib add.commute)
    with rng ne hd IH "1.prems" show ?thesis
      by (simp add: chunks_of_nonempty_list)
  next
    case False
    then show ?thesis
      using "1.prems" by (simp add: range_from.simps [of i])
  qed
qed

corollary map_slices_py_range:
  assumes "0 < k"
  shows "py_range 0 (int (length xs)) k
         = Inr (range_from 0 (int (length xs)) k)
       \<and> map (\<lambda>j. py_slice xs j (j + k)) (range_from 0 (int (length xs)) k)
         = chunks_of (nat k) xs"
  using assms map_slices_range_from [of k 0 xs] by (simp add: py_range_def)

end
