(* ===== verification/Blocks.thy ===== *)
theory Blocks
  imports PyBuiltins
begin

text \<open>
  Splitting a decoded chunk into blocks, \<open>legal_verification.py\<close> lines 128--133:
  \<^verbatim>\<open>
    blocks = []
    for i in range(0, len(chunk_text), block_size):
        block = chunk_text[i:i+block_size]
        if block:
            blocks.append(block)
  \<close>
  \<open>split_blocks\<close> is this loop over the \<open>range\<close> and slice models of
  \<open>PyBuiltins\<close>, with the \<open>ValueError\<close> that \<open>range\<close> raises for a zero
  \<open>block_size\<close>.  The lemmas show that for a positive block size the loop computes
  \<open>chunks_of\<close>: the blocks concatenate back to the text, each holds between one and
  \<open>block_size\<close> code points, all but the last hold exactly \<open>block_size\<close>, and the
  \<open>if block:\<close> test never skips anything.
\<close>

definition split_blocks :: "int \<Rightarrow> pystr \<Rightarrow> py_error + pystr list" where
  "split_blocks block_size chunk_text =
     (case py_range 0 (int (length chunk_text)) block_size of
        Inl e \<Rightarrow> Inl e
      | Inr idxs \<Rightarrow>
          Inr (foldl (\<lambda>blocks i. let block = py_slice chunk_text i (i + block_size)
                                in if block \<noteq> [] then blocks @ [block] else blocks)
                 [] idxs))"

lemma split_blocks_eq:
  "split_blocks block_size t =
     (if block_size = 0 then Inl ValueError
      else if block_size < 0 then Inr []
      else Inr (chunks_of (nat block_size) t))"
proof -
  consider "block_size = 0" | "block_size < 0" | "0 < block_size"
    by linarith
  then show ?thesis
  proof cases
    case 1
    then show ?thesis by (simp add: split_blocks_def py_range_def)
  next
    case 2
    then show ?thesis
      by (simp add: split_blocks_def py_range_def range_from_neg_step)
  next
    case 3
    then have "map (\<lambda>i. py_slice t i (i + block_size)) (range_from 0 (int (length t)) block_size)
               = chunks_of (nat block_size) t"
      using map_slices_py_range by blast
    moreover have "filter (\<lambda>b. b \<noteq> []) (chunks_of (nat block_size) t) = chunks_of (nat block_size) t"
      using chunks_of_piece_bounds by (auto simp: filter_id_conv)
    ultimately show ?thesis
      using 3 by (simp add: split_blocks_def py_range_def foldl_append_filter_map)
  qed
qed

lemma split_blocks_pos:
  "0 < block_size \<Longrightarrow> split_blocks block_size t = Inr (chunks_of (nat block_size) t)"
  by (simp add: split_blocks_eq)

lemma split_blocks_Inr_pos:
  "0 < block_size \<Longrightarrow> split_blocks block_size t = Inr blocks \<Longrightarrow>
   blocks = chunks_of (nat block_size) t"
  by (simp add: split_blocks_eq)

lemma split_blocks_empty_iff:
  "0 < block_size \<Longrightarrow> split_blocks block_size t = Inr blocks \<Longrightarrow> (blocks = []) = (t = [])"
  by (auto simp: split_blocks_eq chunks_of_eq_Nil_iff)


section \<open>Properties\<close>

text \<open>
  C12: The block loop raises \<open>ValueError\<close> exactly when \<open>block_size\<close> is zero (from
  \<open>range\<close>), returns no blocks for a negative \<open>block_size\<close>, and otherwise returns
  the consecutive \<open>block_size\<close>-character pieces of the text: the \<open>if block:\<close>
  test never discards a slice.
\<close>

theorem split_blocks_behaviour:
  "split_blocks block_size t =
     (if block_size = 0 then Inl ValueError
      else if block_size < 0 then Inr []
      else Inr (chunks_of (nat block_size) t))"
  by (rule split_blocks_eq)

text \<open>
  C13: For a positive \<open>block_size\<close> the blocks cover the chunk's text end to end with
  no overlap and no gap: concatenated, they give the text back.
\<close>

theorem split_blocks_roundtrip:
  assumes "0 < block_size" and "split_blocks block_size t = Inr blocks"
  shows "concat blocks = t"
  using split_blocks_Inr_pos [OF assms] assms(1) by (simp add: concat_chunks_of)

theorem split_blocks_roundtrip_witness:
  "split_blocks 2 [0x61, 0x62, 0x63] = Inr [[0x61, 0x62], [0x63]] \<and> concat [[0x61, 0x62], [0x63 :: nat]] = [0x61, 0x62, 0x63]"
proof -
  have s: "split_blocks 2 [0x61, 0x62, 0x63] = Inr [[0x61, 0x62], [0x63]]"
    by (simp add: split_blocks_eq chunks_of_nonempty_list numeral_2_eq_2)
  show ?thesis
    using split_blocks_roundtrip [OF _ s] s by simp
qed

text \<open>
  C14: For a positive \<open>block_size\<close> every block holds between one and
  \<open>block_size\<close> characters, every block but the last holds exactly \<open>block_size\<close>,
  and there are \<open>ceil(len(text) / block_size)\<close> of them.
\<close>

theorem split_blocks_sizes:
  assumes "0 < block_size" and "split_blocks block_size t = Inr blocks"
  shows "(\<forall>b \<in> set blocks. 0 < length b \<and> length b \<le> nat block_size)
       \<and> (\<forall>i. Suc i < length blocks \<longrightarrow> length (blocks ! i) = nat block_size)
       \<and> length blocks = (length t + nat block_size - 1) div nat block_size"
proof -
  from assms have b: "blocks = chunks_of (nat block_size) t"
    by (simp add: split_blocks_eq)
  moreover have "\<forall>b \<in> set (chunks_of (nat block_size) t). 0 < length b \<and> length b \<le> nat block_size"
    using chunks_of_piece_bounds by fastforce
  moreover have "\<forall>i. Suc i < length (chunks_of (nat block_size) t)
                    \<longrightarrow> length (chunks_of (nat block_size) t ! i) = nat block_size"
    using chunks_of_full by blast
  moreover have "length (chunks_of (nat block_size) t) = (length t + nat block_size - 1) div nat block_size"
    using assms(1) by (simp add: length_chunks_of)
  ultimately show ?thesis
    by simp
qed

theorem split_blocks_sizes_witness:
  "split_blocks 2 [0x61, 0x62, 0x63] = Inr [[0x61, 0x62], [0x63]]
   \<and> length [[0x61, 0x62], [0x63 :: nat]] = (3 + 2 - 1) div 2"
proof -
  have s: "split_blocks 2 [0x61, 0x62, 0x63] = Inr [[0x61, 0x62], [0x63]]"
    by (simp add: split_blocks_eq chunks_of_nonempty_list numeral_2_eq_2)
  show ?thesis
    using split_blocks_sizes [OF _ s] s by simp
qed

end
