(* ===== verification/Dedup.thy ===== *)
theory Dedup
  imports Prelude "HOL-Library.Sublist"
begin

text \<open>
  The block deduplicator that \<open>legal_verification.py\<close> calls as
  \<open>compressor.optimize_for_text_files(blocks, target_time_ms=...)\<close> (lines 139--142).
  Its implementation, \<open>EnhancedRingCompression\<close>, is not part of the repository; it is
  modelled from the specification (section 4.1): a set of blocks already seen and the
  list of blocks kept, one step per input block, the time budget advisory only.
  \<^item> \<open>dedup_step\<close> is one iteration of the seen-set loop, \<open>optimize_for_text_files\<close>
    the whole call with its statistics record;
  \<^item> \<open>first_occurrences\<close> is the abstract specification (each distinct block once, in
    order of first appearance); \<open>dedup_loop_refines\<close> shows the loop computes it.
  The lemmas give the invariant of the loop state, the properties listed in the
  specification (no repeats, nothing new, order of first occurrence, idempotence) and
  the elimination ratio.
\<close>

section \<open>Definitions\<close>

record 'a dedup_state =
  seen :: "'a set"
  kept :: "'a list"

definition dedup_init :: "'a dedup_state" where
  "dedup_init = \<lparr>seen = {}, kept = []\<rparr>"

definition dedup_step :: "'a dedup_state \<Rightarrow> 'a \<Rightarrow> 'a dedup_state" where
  "dedup_step st b =
     (if b \<in> seen st then st
      else st\<lparr>seen := insert b (seen st), kept := kept st @ [b]\<rparr>)"

record dedup_stats =
  count_input :: nat
  count_unique :: nat
  elimination_ratio :: rat

definition ratio_eliminated :: "nat \<Rightarrow> nat \<Rightarrow> rat" where
  "ratio_eliminated n_in n_unique =
     (if n_in = 0 then 0 else 1 - of_nat n_unique / of_nat n_in)"

definition optimize_for_text_files :: "'a list \<Rightarrow> int \<Rightarrow> 'a list \<times> dedup_stats" where
  "optimize_for_text_files blocks target_time_ms =
     (let u = kept (foldl dedup_step dedup_init blocks)
      in (u, \<lparr>count_input = length blocks, count_unique = length u,
              elimination_ratio = ratio_eliminated (length blocks) (length u)\<rparr>))"

function first_occurrences :: "'a list \<Rightarrow> 'a list" where
  "first_occurrences [] = []"
| "first_occurrences (x # xs) = x # first_occurrences (filter (\<lambda>y. y \<noteq> x) xs)"
  by pat_completeness auto
termination
  by (relation "measure length") (auto simp: le_imp_less_Suc)

definition first_index :: "'a list \<Rightarrow> 'a \<Rightarrow> nat" where
  "first_index xs a = length (takeWhile (\<lambda>y. y \<noteq> a) xs)"

definition dedup_inv :: "'a dedup_state \<Rightarrow> bool" where
  "dedup_inv st \<longleftrightarrow> seen st = set (kept st) \<and> distinct (kept st)"

section \<open>The loop state\<close>

lemma dedup_inv_init: "dedup_inv dedup_init"
  by (simp add: dedup_inv_def dedup_init_def)

lemma dedup_inv_step: "dedup_inv st \<Longrightarrow> dedup_inv (dedup_step st b)"
  by (auto simp: dedup_inv_def dedup_step_def)

lemma dedup_inv_foldl: "dedup_inv st \<Longrightarrow> dedup_inv (foldl dedup_step st bs)"
  by (induction bs arbitrary: st) (simp_all add: dedup_inv_step)

lemma dedup_foldl_kept:
  "dedup_inv st \<Longrightarrow>
   kept (foldl dedup_step st bs) = kept st @ first_occurrences (filter (\<lambda>y. y \<notin> seen st) bs)"
proof (induction bs arbitrary: st)
  case Nil
  then show ?case by simp
next
  case (Cons b bs)
  show ?case
  proof (cases "b \<in> seen st")
    case True
    with Cons show ?thesis
      by (simp add: dedup_step_def)
  next
    case False
    let ?st = "dedup_step st b"
    from Cons.prems have inv: "dedup_inv ?st"
      by (rule dedup_inv_step)
    have "filter (\<lambda>y. y \<notin> insert b (seen st)) bs
          = filter (\<lambda>y. y \<noteq> b) (filter (\<lambda>y. y \<notin> seen st) bs)"
      by (simp add: filter_filter conj_commute)
    with False Cons.IH [OF inv] show ?thesis
      by (simp add: dedup_step_def)
  qed
qed

lemma dedup_loop_refines:
  "kept (foldl dedup_step dedup_init bs) = first_occurrences bs"
  using dedup_foldl_kept [OF dedup_inv_init, of bs] by (simp add: dedup_init_def)

lemma optimize_for_text_files_fst:
  "fst (optimize_for_text_files bs t) = first_occurrences bs"
  by (simp add: optimize_for_text_files_def Let_def dedup_loop_refines)

lemma optimize_for_text_files_stats:
  "snd (optimize_for_text_files bs t) =
     \<lparr>count_input = length bs, count_unique = length (first_occurrences bs),
      elimination_ratio = ratio_eliminated (length bs) (length (first_occurrences bs))\<rparr>"
  by (simp add: optimize_for_text_files_def Let_def dedup_loop_refines)

section \<open>The specification function\<close>

lemma set_first_occurrences [simp]: "set (first_occurrences xs) = set xs"
  by (induction xs rule: first_occurrences.induct) auto

lemma distinct_first_occurrences [simp]: "distinct (first_occurrences xs)"
  by (induction xs rule: first_occurrences.induct) auto

lemma first_occurrences_distinct_id: "distinct xs \<Longrightarrow> first_occurrences xs = xs"
proof (induction xs rule: first_occurrences.induct)
  case 1
  then show ?case by simp
next
  case (2 x xs)
  then have "filter (\<lambda>y. y \<noteq> x) xs = xs"
    by (auto simp: filter_id_conv)
  with 2 show ?case by simp
qed

lemma first_occurrences_subseq: "subseq (first_occurrences xs) xs"
proof (induction xs rule: first_occurrences.induct)
  case 1
  then show ?case by simp
next
  case (2 x xs)
  have "subseq (filter (\<lambda>y. y \<noteq> x) xs) xs"
    by (rule subseq_filter_left)
  with "2.IH" have "subseq (first_occurrences (filter (\<lambda>y. y \<noteq> x) xs)) xs"
    by (rule subseq_order.order_trans)
  then show ?case by simp
qed

lemma length_first_occurrences_le: "length (first_occurrences xs) \<le> length xs"
  using first_occurrences_subseq list_emb_length by blast

lemma length_first_occurrences_card: "length (first_occurrences xs) = card (set xs)"
  using distinct_card [OF distinct_first_occurrences, of xs] by simp

lemma first_occurrences_replicate:
  "0 < n \<Longrightarrow> first_occurrences (replicate n v) = [v]"
  by (cases n) (simp_all add: filter_False)

lemma first_occurrences_nonempty: "(first_occurrences xs = []) = (xs = [])"
  by (cases xs) simp_all

lemma first_occurrences_map_inj:
  "inj f \<Longrightarrow> first_occurrences (map f xs) = map f (first_occurrences xs)"
proof (induction xs rule: first_occurrences.induct)
  case 1
  then show ?case by simp
next
  case (2 x xs)
  then have "filter (\<lambda>y. y \<noteq> f x) (map f xs) = map f (filter (\<lambda>y. y \<noteq> x) xs)"
    by (auto simp: filter_map comp_def inj_eq)
  with 2 show ?case by simp
qed

lemma first_index_Cons:
  "first_index (x # xs) a = (if x = a then 0 else Suc (first_index xs a))"
  by (simp add: first_index_def)

lemma first_index_filter_less:
  assumes "a \<in> set xs" "b \<in> set xs" "P a" "P b"
  shows "(first_index (filter P xs) a < first_index (filter P xs) b)
         = (first_index xs a < first_index xs b)"
  using assms
proof (induction xs)
  case Nil
  then show ?case by simp
next
  case (Cons y ys)
  show ?case
  proof (cases "y = a \<or> y = b")
    case True
    with Cons.prems show ?thesis
      by (auto simp: first_index_Cons)
  next
    case False
    with Cons.prems have "a \<in> set ys" "b \<in> set ys"
      by auto
    with Cons.IH Cons.prems False show ?thesis
      by (simp add: first_index_Cons)
  qed
qed

lemma first_occurrences_order:
  "sorted_wrt (<) (map (first_index xs) (first_occurrences xs))"
proof (induction xs rule: first_occurrences.induct)
  case 1
  then show ?case by simp
next
  case (2 x xs)
  let ?ys = "first_occurrences (filter (\<lambda>y. y \<noteq> x) xs)"
  have tail: "sorted_wrt (\<lambda>a b. first_index (x # xs) a < first_index (x # xs) b) ?ys"
  proof (rule sorted_wrt_mono_rel [of ?ys
        "\<lambda>a b. first_index (filter (\<lambda>y. y \<noteq> x) xs) a < first_index (filter (\<lambda>y. y \<noteq> x) xs) b"])
    fix a b
    assume "a \<in> set ?ys" "b \<in> set ?ys"
      "first_index (filter (\<lambda>y. y \<noteq> x) xs) a < first_index (filter (\<lambda>y. y \<noteq> x) xs) b"
    then show "first_index (x # xs) a < first_index (x # xs) b"
      using first_index_filter_less [of a xs b "\<lambda>y. y \<noteq> x"] by (auto simp: first_index_Cons)
  next
    show "sorted_wrt (\<lambda>a b. first_index (filter (\<lambda>y. y \<noteq> x) xs) a
                             < first_index (filter (\<lambda>y. y \<noteq> x) xs) b) ?ys"
      using "2.IH" by (simp add: sorted_wrt_map)
  qed
  have "\<forall>b \<in> set ?ys. first_index (x # xs) x < first_index (x # xs) b"
    by (auto simp: first_index_Cons)
  with tail show ?case
    by (simp add: sorted_wrt_map)
qed

end
