(* ===== verification/Pipeline.thy ===== *)
theory Pipeline
  imports Utf8 Blocks Dedup
begin

text \<open>
  \<open>LegalVerification.process_wikipedia_complete\<close> of \<open>legal_verification.py\<close>
  (lines 53--204): the one computation of the repository.  It checks that the dump
  exists, maps it into memory, and walks it in chunks of \<open>chunk_size\<close> bytes; each
  chunk is decoded (\<open>Utf8\<close>), cut into blocks (\<open>Blocks\<close>), deduplicated by the
  external compressor (\<open>Dedup\<close>), and counted; at the end the totals and the overall
  compression ratio are returned.
  \<^item> the file system is a map from paths to contents; a missing file is the early
    \<open>return None\<close>, an empty one the \<open>ValueError\<close> of \<open>mmap.mmap(fileno, 0)\<close>;
  \<^item> \<open>run_state\<close> holds the loop variables \<open>offset\<close>, \<open>chunk_num\<close>,
    \<open>total_blocks\<close>, \<open>total_unique\<close> and the per-chunk lines the loop prints;
  \<^item> \<open>process_chunk\<close> is one iteration of the \<open>while\<close> loop, \<open>chunk_loop\<close> the
    loop itself, as a partial function: \<open>None\<close> would be a loop that never ends;
  \<^item> times, throughput, progress and the session hash are not modelled (they depend on
    the clock and on \<open>os.urandom\<close>), nor are Python's float roundings: ratios are
    exact rationals.
  \<open>run_pieces\<close> is the abstract view of the loop, a fold over
  \<open>chunks_of chunk_size\<close> of the file; \<open>chunk_loop_refines\<close> shows the loop
  computes it, from which termination, the error condition and the totals follow.
\<close>

section \<open>Definitions\<close>

record legal_config =
  cfg_compression_ratio :: rat
  cfg_similarity_threshold :: int
  cfg_batch_size :: int
  cfg_num_workers :: int
  cfg_enable_bloom :: bool
  cfg_target_time_ms :: int
  cfg_block_size :: int

definition legal_config_init :: legal_config where
  "legal_config_init =
     \<lparr>cfg_compression_ratio = 1 / 100, cfg_similarity_threshold = 1,
      cfg_batch_size = 2000000000, cfg_num_workers = 2, cfg_enable_bloom = False,
      cfg_target_time_ms = 10000, cfg_block_size = 1\<rparr>"

definition wikipedia_file :: string where
  "wikipedia_file = ''/app/enwiki-latest-pages-articles.xml''"

definition chunk_size :: nat where
  "chunk_size = 1 * 1024 * 1024 * 1024"

record chunk_report =
  rep_chunk :: nat
  rep_blocks :: nat
  rep_unique :: nat
  rep_percent :: rat

record run_state =
  offset :: nat
  chunk_num :: nat
  total_blocks :: nat
  total_unique :: nat
  reports :: "chunk_report list"

definition run_init :: run_state where
  "run_init = \<lparr>offset = 0, chunk_num = 0, total_blocks = 0, total_unique = 0, reports = []\<rparr>"

definition process_chunk :: "legal_config \<Rightarrow> nat \<Rightarrow> byte list \<Rightarrow> run_state \<Rightarrow> py_error + run_state" where
  "process_chunk cfg csize mm st =
     (let num = Suc (chunk_num st);
          chunk_end = min (offset st + csize) (length mm);
          chunk_bytes = py_slice mm (int (offset st)) (int chunk_end);
          chunk_text = utf8_decode_ignore chunk_bytes
      in case split_blocks (cfg_block_size cfg) chunk_text of
           Inl e \<Rightarrow> Inl e
         | Inr blocks \<Rightarrow>
             (case optimize_for_text_files blocks (cfg_target_time_ms cfg) of
                (compressed, stats) \<Rightarrow>
                  (case py_div (of_nat (length compressed)) (of_nat (length blocks)) of
                     Inl e \<Rightarrow> Inl e
                   | Inr q \<Rightarrow>
                       Inr \<lparr>offset = chunk_end, chunk_num = num,
                            total_blocks = total_blocks st + length blocks,
                            total_unique = total_unique st + length compressed,
                            reports = reports st @
                              [\<lparr>rep_chunk = num, rep_blocks = length blocks,
                                rep_unique = length compressed, rep_percent = (1 - q) * 100\<rparr>]\<rparr>)))"

partial_function (option) chunk_loop ::
  "legal_config \<Rightarrow> nat \<Rightarrow> byte list \<Rightarrow> run_state \<Rightarrow> (py_error + run_state) option"
where
  "chunk_loop cfg csize mm st =
     (if offset st < length mm then
        (case process_chunk cfg csize mm st of
           Inl e \<Rightarrow> Some (Inl e)
         | Inr st' \<Rightarrow> chunk_loop cfg csize mm st')
      else Some (Inr st))"

record wiki_results =
  res_file_size :: nat
  res_blocks_processed :: nat
  res_unique_blocks :: nat
  res_compression_ratio :: rat

definition final_results :: "nat \<Rightarrow> run_state \<Rightarrow> wiki_results" where
  "final_results file_size st =
     \<lparr>res_file_size = file_size, res_blocks_processed = total_blocks st,
      res_unique_blocks = total_unique st,
      res_compression_ratio =
        (if 0 < total_blocks st
         then (1 - of_nat (total_unique st) / of_nat (total_blocks st)) * 100 else 0)\<rparr>"

definition process_wikipedia_complete ::
  "(string \<Rightarrow> byte list option) \<Rightarrow> legal_config \<Rightarrow> (py_error + wiki_results option) option"
where
  "process_wikipedia_complete fs cfg =
     (case fs wikipedia_file of
        None \<Rightarrow> Some (Inr None)
      | Some mm \<Rightarrow>
          if mm = [] then Some (Inl ValueError)
          else
            (case chunk_loop cfg chunk_size mm run_init of
               None \<Rightarrow> None
             | Some (Inl e) \<Rightarrow> Some (Inl e)
             | Some (Inr st) \<Rightarrow> Some (Inr (Some (final_results (length mm) st)))))"

text \<open>The abstract loop: one step per piece of the file, the piece given directly.\<close>

definition blocks_of :: "legal_config \<Rightarrow> byte list \<Rightarrow> pystr list" where
  "blocks_of cfg p = chunks_of (nat (cfg_block_size cfg)) (utf8_decode_ignore p)"

definition piece_step :: "legal_config \<Rightarrow> byte list \<Rightarrow> run_state \<Rightarrow> py_error + run_state" where
  "piece_step cfg p st =
     (let num = Suc (chunk_num st); blocks = blocks_of cfg p; u = first_occurrences blocks
      in if blocks = [] then Inl ZeroDivisionError
         else Inr \<lparr>offset = offset st + length p, chunk_num = num,
                   total_blocks = total_blocks st + length blocks,
                   total_unique = total_unique st + length u,
                   reports = reports st @
                     [\<lparr>rep_chunk = num, rep_blocks = length blocks, rep_unique = length u,
                       rep_percent = (1 - of_nat (length u) / of_nat (length blocks)) * 100\<rparr>]\<rparr>)"

fun run_pieces :: "legal_config \<Rightarrow> byte list list \<Rightarrow> run_state \<Rightarrow> py_error + run_state" where
  "run_pieces cfg [] st = Inr st"
| "run_pieces cfg (p # ps) st =
     (case piece_step cfg p st of Inl e \<Rightarrow> Inl e | Inr st' \<Rightarrow> run_pieces cfg ps st')"

text \<open>What every printed per-chunk line satisfies.\<close>

definition report_ok :: "chunk_report \<Rightarrow> bool" where
  "report_ok rep \<longleftrightarrow> 0 < rep_unique rep \<and> rep_unique rep \<le> rep_blocks rep
     \<and> 0 \<le> rep_percent rep \<and> rep_percent rep < 100"

section \<open>One iteration\<close>

lemma chunk_slice:
  assumes "offset st < length mm"
  shows "py_slice mm (int (offset st)) (int (min (offset st + csize) (length mm)))
         = take csize (drop (offset st) mm)"
    and "min (offset st + csize) (length mm) = offset st + length (take csize (drop (offset st) mm))"
  using assms by (auto simp: py_slice_nonneg min_def)

lemma process_chunk_piece:
  assumes "offset st < length mm" and "0 < cfg_block_size cfg"
  shows "process_chunk cfg csize mm st = piece_step cfg (take csize (drop (offset st) mm)) st"
  using assms chunk_slice [OF assms(1), of csize]
  by (simp add: process_chunk_def piece_step_def Let_def split_blocks_pos blocks_of_def
      optimize_for_text_files_fst optimize_for_text_files_def dedup_loop_refines py_div_def
      first_occurrences_nonempty)


lemma piece_step_offset:
  "piece_step cfg p st = Inr st' \<Longrightarrow> offset st' = offset st + length p"
  by (auto simp: piece_step_def Let_def split: if_splits)

section \<open>The loop\<close>

lemma chunk_loop_refines:
  assumes "0 < csize" and "0 < cfg_block_size cfg"
  shows "chunk_loop cfg csize mm st = Some (run_pieces cfg (chunks_of csize (drop (offset st) mm)) st)"
proof (induction "length mm - offset st" arbitrary: st rule: less_induct)
  case less
  show ?case
  proof (cases "offset st < length mm")
    case True
    let ?p = "take csize (drop (offset st) mm)"
    have pieces: "chunks_of csize (drop (offset st) mm) = ?p # chunks_of csize (drop csize (drop (offset st) mm))"
      using True assms(1) by (simp add: chunks_of_nonempty_list)
    have step: "process_chunk cfg csize mm st = piece_step cfg ?p st"
      using True assms(2) by (rule process_chunk_piece)
    show ?thesis
    proof (cases "piece_step cfg ?p st")
      case (Inl e)
      with True pieces step show ?thesis
        by (subst chunk_loop.simps) simp
    next
      case (Inr st')
      then have off: "offset st' = offset st + length ?p"
        by (rule piece_step_offset)
      with True assms(1) have shorter: "length mm - offset st' < length mm - offset st"
        by simp
      have "drop (offset st') mm = drop csize (drop (offset st) mm)"
        using off by (auto simp: min_def add.commute)
      with less [OF shorter] have "chunk_loop cfg csize mm st'
          = Some (run_pieces cfg (chunks_of csize (drop csize (drop (offset st) mm))) st')"
        by simp
      with True pieces step Inr show ?thesis
        by (subst chunk_loop.simps) simp
    qed
  next
    case False
    then show ?thesis
      by (subst chunk_loop.simps) simp
  qed
qed


section \<open>The abstract loop\<close>

lemma blocks_of_Nil_iff:
  "0 < cfg_block_size cfg \<Longrightarrow> (blocks_of cfg p = []) = (utf8_decode_ignore p = [])"
  by (simp add: blocks_of_def chunks_of_eq_Nil_iff)

lemma run_pieces_Inl:
  assumes "0 < cfg_block_size cfg"
  shows "(run_pieces cfg ps st = Inl e) =
         (e = ZeroDivisionError \<and> (\<exists>p \<in> set ps. utf8_decode_ignore p = []))"
proof (induction ps arbitrary: st)
  case Nil
  then show ?case by simp
next
  case (Cons p ps)
  show ?case
  proof (cases "utf8_decode_ignore p = []")
    case True
    with assms show ?thesis
      by (auto simp: piece_step_def Let_def blocks_of_Nil_iff)
  next
    case False
    with assms Cons.IH show ?thesis
      by (auto simp: piece_step_def Let_def blocks_of_Nil_iff)
  qed
qed

lemma run_pieces_Inr:
  assumes "run_pieces cfg ps st = Inr st'"
  shows "offset st' = offset st + length (concat ps)
       \<and> chunk_num st' = chunk_num st + length ps
       \<and> total_blocks st' = total_blocks st + sum_list (map (\<lambda>p. length (blocks_of cfg p)) ps)
       \<and> total_unique st' = total_unique st
            + sum_list (map (\<lambda>p. length (first_occurrences (blocks_of cfg p))) ps)
       \<and> map rep_blocks (reports st') = map rep_blocks (reports st) @ map (\<lambda>p. length (blocks_of cfg p)) ps
       \<and> (\<forall>p \<in> set ps. blocks_of cfg p \<noteq> [])"
  using assms
proof (induction ps arbitrary: st)
  case Nil
  then show ?case by simp
next
  case (Cons p ps)
  then obtain st1 where st1: "piece_step cfg p st = Inr st1" and rest: "run_pieces cfg ps st1 = Inr st'"
    by (auto split: sum.splits)
  from st1 have "blocks_of cfg p \<noteq> []"
    and "offset st1 = offset st + length p" "chunk_num st1 = Suc (chunk_num st)"
    and "total_blocks st1 = total_blocks st + length (blocks_of cfg p)"
    and "total_unique st1 = total_unique st + length (first_occurrences (blocks_of cfg p))"
    and "map rep_blocks (reports st1) = map rep_blocks (reports st) @ [length (blocks_of cfg p)]"
    by (auto simp: piece_step_def Let_def split: if_splits)
  with Cons.IH [OF rest] show ?case
    by simp
qed

lemma run_pieces_no_error:
  assumes "0 < cfg_block_size cfg" and "\<forall>p \<in> set ps. utf8_decode_ignore p \<noteq> []"
  shows "\<exists>st'. run_pieces cfg ps st = Inr st'"
  using run_pieces_Inl [OF assms(1), of ps st] assms(2)
  by (cases "run_pieces cfg ps st") auto

lemma chunk_loop_terminates_pos:
  assumes "0 < csize" and "0 < cfg_block_size cfg"
  shows "\<exists>r. chunk_loop cfg csize mm st = Some r"
  using chunk_loop_refines [OF assms] by blast

lemma process_chunk_nonpos_block_size:
  assumes "cfg_block_size cfg \<le> 0"
  shows "\<exists>e. process_chunk cfg csize mm st = Inl e"
  using assms
  by (auto simp: process_chunk_def Let_def split_blocks_eq optimize_for_text_files_def
      dedup_init_def py_div_def)

lemma chunk_loop_terminates:
  assumes "0 < csize"
  shows "\<exists>r. chunk_loop cfg csize mm st = Some r"
proof (cases "0 < cfg_block_size cfg")
  case True
  with assms show ?thesis by (rule chunk_loop_terminates_pos)
next
  case False
  then obtain e where "process_chunk cfg csize mm st = Inl e"
    using process_chunk_nonpos_block_size by fastforce
  then show ?thesis
    by (subst chunk_loop.simps) (auto split: if_splits)
qed


section \<open>The program's configuration\<close>

lemma blocks_of_init:
  "blocks_of legal_config_init p = map (\<lambda>c. [c]) (utf8_decode_ignore p)"
  by (simp add: blocks_of_def legal_config_init_def chunks_of_Suc_0)

lemma length_first_occurrences_singletons:
  "length (first_occurrences (map (\<lambda>c. [c]) t)) = card (set t)"
proof -
  have "inj (\<lambda>c::'a. [c])"
    by (rule injI) simp
  then show ?thesis
    by (simp add: first_occurrences_map_inj length_first_occurrences_card)
qed

lemma process_wikipedia_complete_pieces:
  assumes "fs wikipedia_file = Some mm" and "mm \<noteq> []" and "0 < cfg_block_size cfg"
  shows "process_wikipedia_complete fs cfg =
           Some (case run_pieces cfg (chunks_of chunk_size mm) run_init of
                   Inl e \<Rightarrow> Inl e
                 | Inr st \<Rightarrow> Inr (Some (final_results (length mm) st)))"
proof -
  have "chunk_loop cfg chunk_size mm run_init = Some (run_pieces cfg (chunks_of chunk_size mm) run_init)"
    using chunk_loop_refines [of chunk_size cfg mm run_init] assms(3)
    by (simp add: chunk_size_def run_init_def)
  with assms(1,2) show ?thesis
    by (simp add: process_wikipedia_complete_def split: sum.splits)
qed

lemma run_pieces_init_Inr:
  assumes "run_pieces legal_config_init ps run_init = Inr st"
  shows "total_blocks st = length (concat (map utf8_decode_ignore ps))
       \<and> total_unique st = sum_list (map (\<lambda>p. card (set (utf8_decode_ignore p))) ps)
       \<and> (\<forall>p \<in> set ps. utf8_decode_ignore p \<noteq> [])"
proof -
  from run_pieces_Inr [OF assms] have
    "total_blocks st = sum_list (map (\<lambda>p. length (blocks_of legal_config_init p)) ps)"
    "total_unique st = sum_list (map (\<lambda>p. length (first_occurrences (blocks_of legal_config_init p))) ps)"
    "\<forall>p \<in> set ps. blocks_of legal_config_init p \<noteq> []"
    by (simp_all add: run_init_def)
  then show ?thesis
    by (simp add: blocks_of_init length_first_occurrences_singletons length_concat comp_def)
qed

lemma legal_config_block_size: "cfg_block_size legal_config_init = 1"
  by (simp add: legal_config_init_def)


lemma run_pieces_unique_bounds:
  assumes "run_pieces cfg ps st = Inr st'" and "ps \<noteq> []"
  shows "total_unique st < total_unique st'
       \<and> total_unique st' - total_unique st \<le> total_blocks st' - total_blocks st"
proof -
  note R = run_pieces_Inr [OF assms(1)]
  have le: "sum_list (map (\<lambda>p. length (first_occurrences (blocks_of cfg p))) ps)
            \<le> sum_list (map (\<lambda>p. length (blocks_of cfg p)) ps)"
    by (rule sum_list_mono) (rule length_first_occurrences_le)
  from assms(2) obtain p where p: "p \<in> set ps"
    by (cases ps) auto
  with R have "blocks_of cfg p \<noteq> []"
    by blast
  then have pos: "0 < length (first_occurrences (blocks_of cfg p))"
    by (simp add: first_occurrences_nonempty)
  have "length (first_occurrences (blocks_of cfg p))
        \<in> set (map (\<lambda>p. length (first_occurrences (blocks_of cfg p))) ps)"
    using p by simp
  then have "length (first_occurrences (blocks_of cfg p))
        \<le> sum_list (map (\<lambda>p. length (first_occurrences (blocks_of cfg p))) ps)"
    by (rule member_le_sum_list) simp
  with pos have "0 < sum_list (map (\<lambda>p. length (first_occurrences (blocks_of cfg p))) ps)"
    by (rule less_le_trans)
  with R le show ?thesis
    by simp
qed

lemma process_success_run:
  assumes "process_wikipedia_complete fs legal_config_init = Some (Inr (Some r))"
  obtains mm st where "fs wikipedia_file = Some mm" and "mm \<noteq> []"
    and "run_pieces legal_config_init (chunks_of chunk_size mm) run_init = Inr st"
    and "r = final_results (length mm) st"
    and "0 < total_unique st" and "total_unique st \<le> total_blocks st"
proof -
  obtain mm where fs: "fs wikipedia_file = Some mm" and ne: "mm \<noteq> []"
    using assms by (auto simp: process_wikipedia_complete_def split: option.splits if_splits)
  have bs: "0 < cfg_block_size legal_config_init"
    by (simp add: legal_config_block_size)
  from process_wikipedia_complete_pieces [of fs mm legal_config_init, OF fs ne bs] assms
  obtain st where st: "run_pieces legal_config_init (chunks_of chunk_size mm) run_init = Inr st"
    and r: "r = final_results (length mm) st"
    by (auto split: sum.splits)
  have "chunks_of chunk_size mm \<noteq> []"
    using ne by (simp add: chunks_of_eq_Nil_iff chunk_size_def)
  from run_pieces_unique_bounds [OF st this]
  have "0 < total_unique st" "total_unique st \<le> total_blocks st"
    by (simp_all add: run_init_def)
  with fs ne st r show ?thesis
    by (rule that)
qed

lemma percent_bounds:
  assumes "0 < u" and "u \<le> b"
  shows "0 \<le> (1 - of_nat u / of_nat b) * (100 :: rat) \<and> (1 - of_nat u / of_nat b) * (100 :: rat) < 100"
proof -
  let ?u = "of_nat u :: rat" and ?b = "of_nat b :: rat"
  from assms have pos: "0 < ?b" and "0 < ?u" and "?u \<le> ?b"
    by simp_all
  then have "?u * 100 / ?b \<le> 100" and "0 < ?u * 100 / ?b"
    by (simp_all add: pos_divide_le_eq)
  with pos show ?thesis
    by (simp add: algebra_simps)
qed

lemma final_ratio_bounds:
  assumes "0 < total_unique st" and "total_unique st \<le> total_blocks st"
  shows "0 \<le> res_compression_ratio (final_results n st)
       \<and> res_compression_ratio (final_results n st) < 100"
  using percent_bounds [OF assms] assms by (simp add: final_results_def)

lemma chunk_size_Suc: "chunk_size = Suc (chunk_size - 1) \<and> 0 < chunk_size - 1"
  by (simp add: chunk_size_def)

lemma piece_step_report_ok:
  assumes "piece_step cfg p st = Inr st'" and "list_all report_ok (reports st)"
  shows "list_all report_ok (reports st')"
proof -
  let ?bl = "blocks_of cfg p"
  from assms(1) have ne: "?bl \<noteq> []"
    and rep: "reports st' = reports st @ [\<lparr>rep_chunk = Suc (chunk_num st), rep_blocks = length ?bl,
        rep_unique = length (first_occurrences ?bl),
        rep_percent = (1 - of_nat (length (first_occurrences ?bl)) / of_nat (length ?bl)) * 100\<rparr>]"
    by (auto simp: piece_step_def Let_def split: if_splits)
  from ne have pos: "0 < length (first_occurrences ?bl)"
    by (simp add: first_occurrences_nonempty)
  have le: "length (first_occurrences ?bl) \<le> length ?bl"
    by (rule length_first_occurrences_le)
  have "report_ok \<lparr>rep_chunk = Suc (chunk_num st), rep_blocks = length ?bl,
        rep_unique = length (first_occurrences ?bl),
        rep_percent = (1 - of_nat (length (first_occurrences ?bl)) / of_nat (length ?bl)) * 100\<rparr>"
    using pos le percent_bounds [OF pos le] unfolding report_ok_def by simp
  with assms(2) rep show ?thesis
    by simp
qed

lemma run_pieces_report_ok:
  "run_pieces cfg ps st = Inr st' \<Longrightarrow> list_all report_ok (reports st) \<Longrightarrow>
   list_all report_ok (reports st')"
proof (induction ps arbitrary: st)
  case Nil
  then show ?case by simp
next
  case (Cons p ps)
  then obtain st1 where "piece_step cfg p st = Inr st1" and "run_pieces cfg ps st1 = Inr st'"
    by (auto split: sum.splits)
  with Cons show ?case
    using piece_step_report_ok by blast
qed

section \<open>A run on a small file\<close>

text \<open>The run on the three-byte dump \<open>ABA\<close>, shared by the witnesses of the development.\<close>

lemma process_ABA:
  "process_wikipedia_complete (\<lambda>_. Some [0x41, 0x42, 0x41]) legal_config_init
     = Some (Inr (Some (final_results 3 \<lparr>offset = 3, chunk_num = 1, total_blocks = 3,
         total_unique = 2, reports = [\<lparr>rep_chunk = 1, rep_blocks = 3, rep_unique = 2,
           rep_percent = 100 / 3\<rparr>]\<rparr>)))"
proof -
  let ?st = "\<lparr>offset = 3, chunk_num = 1, total_blocks = 3,
         total_unique = 2, reports = [\<lparr>rep_chunk = 1, rep_blocks = 3, rep_unique = 2,
           rep_percent = 100 / 3\<rparr>]\<rparr>"
  have ch: "chunks_of chunk_size [0x41, 0x42, 0x41 :: byte] = [[0x41, 0x42, 0x41]]"
    by (simp add: chunks_of_nonempty_list chunk_size_def)
  have dec: "utf8_decode_ignore [0x41, 0x42, 0x41] = [0x41, 0x42, 0x41]"
    by (simp add: utf8_decode_ignore.simps utf8_step_def)
  have "run_pieces legal_config_init [[0x41, 0x42, 0x41]] run_init = Inr ?st"
    by (simp add: piece_step_def blocks_of_init dec run_init_def)
  then show ?thesis
    using process_wikipedia_complete_pieces [of "\<lambda>_. Some [0x41, 0x42, 0x41]" "[0x41, 0x42, 0x41]"
        legal_config_init] ch
    by (simp add: legal_config_block_size numeral_3_eq_3 del: run_pieces.simps)
qed

text \<open>
  The run on the four-byte dump \<open>C3 A9 C3 A9\<close> (\<open>U+00E9\<close> twice, two characters of two bytes
  each): two blocks, one of them unique, for four bytes of file.
\<close>

lemma process_EE:
  "process_wikipedia_complete (\<lambda>_. Some [0xC3, 0xA9, 0xC3, 0xA9]) legal_config_init
     = Some (Inr (Some (final_results 4 \<lparr>offset = 4, chunk_num = 1, total_blocks = 2,
         total_unique = 1, reports = [\<lparr>rep_chunk = 1, rep_blocks = 2, rep_unique = 1,
           rep_percent = 50\<rparr>]\<rparr>)))"
proof -
  let ?st = "\<lparr>offset = 4, chunk_num = 1, total_blocks = 2,
         total_unique = 1, reports = [\<lparr>rep_chunk = 1, rep_blocks = 2, rep_unique = 1,
           rep_percent = 50\<rparr>]\<rparr>"
  have ch: "chunks_of chunk_size [0xC3, 0xA9, 0xC3, 0xA9 :: byte] = [[0xC3, 0xA9, 0xC3, 0xA9]]"
    by (simp add: chunks_of_nonempty_list chunk_size_def)
  have dec: "utf8_decode_ignore [0xC3, 0xA9, 0xC3, 0xA9] = [0xE9, 0xE9]"
    by (simp add: utf8_eval cp2_def)
  have "run_pieces legal_config_init [[0xC3, 0xA9, 0xC3, 0xA9]] run_init = Inr ?st"
    by (simp add: piece_step_def blocks_of_init dec run_init_def)
  then show ?thesis
    using process_wikipedia_complete_pieces [of "\<lambda>_. Some [0xC3, 0xA9, 0xC3, 0xA9]"
        "[0xC3, 0xA9, 0xC3, 0xA9]" legal_config_init] ch
    by (simp add: legal_config_block_size numeral_eq_Suc del: run_pieces.simps)
qed

section \<open>Properties\<close>

text \<open>
  C5: The \<open>while offset < file_size\<close> loop of \<open>process_wikipedia_complete\<close>, started
  as the program starts it, computes the same result as processing the consecutive
  \<open>chunk_size\<close>-byte pieces of the file one after the other: the offset arithmetic
  (\<open>chunk_end = min(offset + chunk_size, file_size)\<close>, \<open>offset = chunk_end\<close>) visits
  every byte exactly once, in order, and the loop returns.
\<close>

theorem chunk_loop_is_fold:
  assumes "0 < csize" and "0 < cfg_block_size cfg"
  shows "chunk_loop cfg csize mm run_init = Some (run_pieces cfg (chunks_of csize mm) run_init)"
  using chunk_loop_refines [OF assms, of mm run_init] by (simp add: run_init_def)

theorem chunk_loop_is_fold_witness:
  "chunk_loop legal_config_init 2 [0x41, 0x42, 0x43] run_init
     = Some (run_pieces legal_config_init [[0x41, 0x42], [0x43]] run_init)"
proof -
  have "chunks_of 2 [0x41, 0x42, 0x43 :: byte] = [[0x41, 0x42], [0x43]]"
    by (simp add: chunks_of_nonempty_list numeral_2_eq_2)
  then show ?thesis
    using chunk_loop_is_fold [of 2 legal_config_init "[0x41, 0x42, 0x43]"]
    by (simp add: legal_config_block_size del: run_pieces.simps)
qed

text \<open>
  C9: Every per-chunk line the loop prints (\<open>Blocks\<close>, \<open>Unique\<close>,
  \<open>Compression: x% eliminated\<close>, lines 151--153) reports at least one unique block, no
  more unique blocks than blocks, and an elimination percentage in \<open>[0, 100)\<close>.
\<close>

theorem chunk_reports_invariant:
  assumes "chunk_loop cfg csize mm run_init = Some (Inr st)" and "0 < csize" and "0 < cfg_block_size cfg"
  shows "list_all report_ok (reports st)"
proof -
  from assms have "run_pieces cfg (chunks_of csize mm) run_init = Inr st"
    using chunk_loop_refines [OF assms(2,3), of mm run_init] by (simp add: run_init_def)
  then show ?thesis
    by (rule run_pieces_report_ok) (simp add: run_init_def)
qed

theorem chunk_reports_invariant_witness:
  "chunk_loop legal_config_init 2 [0x41, 0x42, 0x41] run_init
     = Some (Inr \<lparr>offset = 3, chunk_num = 2, total_blocks = 3, total_unique = 3,
                  reports = [\<lparr>rep_chunk = 1, rep_blocks = 2, rep_unique = 2, rep_percent = 0\<rparr>,
                             \<lparr>rep_chunk = 2, rep_blocks = 1, rep_unique = 1, rep_percent = 0\<rparr>]\<rparr>)
   \<and> list_all report_ok [\<lparr>rep_chunk = 1, rep_blocks = 2, rep_unique = 2, rep_percent = 0\<rparr>,
                         \<lparr>rep_chunk = 2, rep_blocks = 1, rep_unique = 1, rep_percent = 0\<rparr>]"
proof -
  let ?st = "\<lparr>offset = 3, chunk_num = 2, total_blocks = 3, total_unique = 3,
                  reports = [\<lparr>rep_chunk = 1, rep_blocks = 2, rep_unique = 2, rep_percent = 0\<rparr>,
                             \<lparr>rep_chunk = 2, rep_blocks = 1, rep_unique = 1, rep_percent = 0 :: rat\<rparr>]\<rparr>"
  have ch: "chunks_of 2 [0x41, 0x42, 0x41 :: byte] = [[0x41, 0x42], [0x41]]"
    by (simp add: chunks_of_nonempty_list numeral_2_eq_2)
  have "run_pieces legal_config_init [[0x41, 0x42], [0x41]] run_init = Inr ?st"
    by (simp add: piece_step_def blocks_of_init run_init_def utf8_decode_ignore.simps utf8_step_def)
  then have run: "chunk_loop legal_config_init 2 [0x41, 0x42, 0x41] run_init = Some (Inr ?st)"
    using chunk_loop_refines [of 2 legal_config_init "[0x41, 0x42, 0x41]" run_init] ch
    by (simp add: legal_config_block_size run_init_def del: run_pieces.simps)
  have "list_all report_ok (reports ?st)"
    using chunk_reports_invariant [OF run] by (simp add: legal_config_block_size)
  with run show ?thesis
    by simp
qed

text \<open>
  C20: Progress of the loop: when every chunk of the file decodes to at least one
  character, the loop does not stop early: it returns normally after exactly
  \<open>ceil(file_size / chunk_size)\<close> iterations, with \<open>offset\<close> at the end of the file, so
  every byte has been read.
\<close>

theorem chunk_loop_consumes_file:
  assumes "0 < csize" and "0 < cfg_block_size cfg"
    and "list_all (\<lambda>p. utf8_decode_ignore p \<noteq> []) (chunks_of csize mm)"
  shows "\<exists>st. chunk_loop cfg csize mm run_init = Some (Inr st)
             \<and> offset st = length mm \<and> chunk_num st = (length mm + csize - 1) div csize"
proof -
  from run_pieces_no_error [OF assms(2), of "chunks_of csize mm" run_init] assms(3)
  obtain st where st: "run_pieces cfg (chunks_of csize mm) run_init = Inr st"
    by (auto simp: list_all_iff)
  have loop: "chunk_loop cfg csize mm run_init = Some (Inr st)"
    using chunk_loop_refines [OF assms(1,2), of mm run_init] st by (simp add: run_init_def)
  from run_pieces_Inr [OF st] have "offset st = length (concat (chunks_of csize mm))"
    and "chunk_num st = length (chunks_of csize mm)"
    by (simp_all add: run_init_def)
  with loop assms(1) show ?thesis
    by (simp add: concat_chunks_of length_chunks_of)
qed

theorem chunk_loop_consumes_file_witness:
  "\<exists>st. chunk_loop legal_config_init 2 [0x41, 0x42, 0x43] run_init = Some (Inr st)
        \<and> offset st = 3 \<and> chunk_num st = 2"
proof -
  have ch: "chunks_of 2 [0x41, 0x42, 0x43 :: byte] = [[0x41, 0x42], [0x43]]"
    by (simp add: chunks_of_nonempty_list numeral_2_eq_2)
  have "list_all (\<lambda>p. utf8_decode_ignore p \<noteq> []) (chunks_of 2 [0x41, 0x42, 0x43 :: byte])"
    by (simp add: ch utf8_decode_ignore.simps utf8_step_def)
  from chunk_loop_consumes_file [of 2 legal_config_init "[0x41, 0x42, 0x43]", OF _ _ this]
  have "\<exists>st. chunk_loop legal_config_init 2 [0x41, 0x42, 0x43] run_init = Some (Inr st)
          \<and> offset st = Suc (Suc (Suc 0)) \<and> chunk_num st = Suc (Suc 0)"
    by (simp add: legal_config_block_size)
  then show ?thesis
    by (simp add: numeral_3_eq_3 numeral_2_eq_2)
qed

end
