(* ===== verification/Json.thy ===== *)
theory Json
  imports Utf8 "HOL-Library.List_Lexorder" "HOL-Library.Multiset"
begin

text \<open>
  \<open>json.dumps(obj, sort_keys=True)\<close> as \<open>legal_verification.py\<close> calls it for the session
  record (line 71) and the proof record (line 220), with the defaults of CPython's
  \<open>json\<close> module: \<open>ensure_ascii=True\<close>, separators \<open>', '\<close> and \<open>': '\<close>.
  \<^item> \<open>json\<close> is the Python value being dumped: \<open>None\<close>, a \<open>bool\<close>, an \<open>int\<close>, a
    \<open>float\<close>, a \<open>str\<close>, a \<open>list\<close> or a \<open>dict\<close> with string keys (an association list in
    insertion order).  A float is carried by the text \<open>float.__repr__\<close> gives it
    (\<open>Infinity\<close>, \<open>-Infinity\<close>, \<open>NaN\<close> for the non-finite ones): Python's binary64
    arithmetic and its shortest-repr algorithm are not modelled.
  \<^item> \<open>int_repr\<close> is \<open>int.__repr__\<close> (decimal, no leading zeros);
  \<^item> \<open>escape_cp\<close>/\<open>encode_str\<close> are \<open>py_encode_basestring_ascii\<close> of
    \<open>Lib/json/encoder.py\<close> (and its C twin): the two-character escapes, \<open>\u00XX\<close> for the
    other control characters and everything outside \<open>' '..'~'\<close>, a surrogate pair for
    code points above \<open>U+FFFF\<close>;
  \<^item> \<open>json_dumps\<close> is the encoder's recursion (\<open>_iterencode\<close>), with \<open>sort_keys\<close>
    sorting a dict's items by key (\<open>sorted(dct.items())\<close>; keys are distinct, so this is
    \<open>sort_key fst\<close>, and Python compares strings by code points, as \<open>List_Lexorder\<close> does).
  Text is a list of code points (\<open>pystr\<close>); \<open>ascii\<close> writes an ASCII literal.
\<close>

section \<open>Definitions\<close>

datatype json =
    JNull
  | JBool bool
  | JInt int
  | JFloat pystr
  | JStr pystr
  | JArr "json list"
  | JObj "(pystr \<times> json) list"

definition ascii :: "string \<Rightarrow> pystr" where
  "ascii s = map of_char s"

fun nat_digits :: "nat \<Rightarrow> pystr" where
  "nat_digits n = (if n < 10 then [48 + n] else nat_digits (n div 10) @ [48 + n mod 10])"

definition int_repr :: "int \<Rightarrow> pystr" where
  "int_repr i = (if i < 0 then 45 # nat_digits (nat (- i)) else nat_digits (nat i))"

definition hex_digit :: "nat \<Rightarrow> codepoint" where
  "hex_digit d = (if d < 10 then 48 + d else 87 + d)"

definition hex4 :: "nat \<Rightarrow> pystr" where
  "hex4 n = map hex_digit [n div 4096 mod 16, n div 256 mod 16, n div 16 mod 16, n mod 16]"

definition u_escape :: "nat \<Rightarrow> pystr" where
  "u_escape n = [0x5C, 0x75] @ hex4 n"

text \<open>
  \<open>ESCAPE_DCT\<close> and \<open>replace\<close> of \<open>py_encode_basestring_ascii\<close>; for a code point above
  \<open>U+FFFF\<close>, \<open>n = ord(s) - 0x10000\<close>, \<open>s1 = 0xd800 | ((n >> 10) & 0x3ff)\<close>,
  \<open>s2 = 0xdc00 | (n & 0x3ff)\<close>, written with \<open>div\<close>/\<open>mod\<close> (the bits are disjoint, and
  \<open>n < 2^20\<close> for every code point of a Python \<open>str\<close>).
\<close>

definition escape_cp :: "codepoint \<Rightarrow> pystr" where
  "escape_cp c =
     (if c = 0x22 then [0x5C, 0x22]
      else if c = 0x5C then [0x5C, 0x5C]
      else if c = 0x0A then [0x5C, 0x6E]
      else if c = 0x0D then [0x5C, 0x72]
      else if c = 0x09 then [0x5C, 0x74]
      else if c = 0x08 then [0x5C, 0x62]
      else if c = 0x0C then [0x5C, 0x66]
      else if 0x20 \<le> c \<and> c \<le> 0x7E then [c]
      else if c < 0x10000 then u_escape c
      else u_escape (0xD800 + (c - 0x10000) div 1024) @ u_escape (0xDC00 + (c - 0x10000) mod 1024))"

definition encode_str :: "pystr \<Rightarrow> pystr" where
  "encode_str s = [0x22] @ concat (map escape_cp s) @ [0x22]"

fun join_items :: "pystr list \<Rightarrow> pystr" where
  "join_items [] = []"
| "join_items [x] = x"
| "join_items (x # y # ys) = x @ [0x2C, 0x20] @ join_items (y # ys)"

function json_dumps :: "json \<Rightarrow> pystr" where
  "json_dumps JNull = ascii ''null''"
| "json_dumps (JBool b) = (if b then ascii ''true'' else ascii ''false'')"
| "json_dumps (JInt i) = int_repr i"
| "json_dumps (JFloat t) = t"
| "json_dumps (JStr s) = encode_str s"
| "json_dumps (JArr vs) = [0x5B] @ join_items (map json_dumps vs) @ [0x5D]"
| "json_dumps (JObj kvs) =
     [0x7B] @ join_items (map (\<lambda>(k, v). encode_str k @ [0x3A, 0x20] @ json_dumps v) (sort_key fst kvs))
     @ [0x7D]"
  by pat_completeness auto
termination
  by (relation "measure size") (force intro: le_imp_less_Suc size_list_estimation')+

text \<open>
  The encoder with all of its options, \<open>_make_iterencode\<close> of \<open>Lib/json/encoder.py\<close>:
  \<open>sort_keys\<close>, \<open>indent\<close> (a number of spaces, or \<open>None\<close> for one line) and the item
  and key separators.  With an indent, a non-empty list or dict puts each item on a line of
  its own, indented one level deeper, and its closing bracket on a line at the enclosing
  level; an empty one is \<open>[]\<close> or \<open>{}\<close>.  \<open>json.dumps(obj, sort_keys=True)\<close> is
  \<open>dumps_opts\<close>; \<open>json.dump(obj, f, indent=2)\<close> is \<open>indent2_opts\<close> (an indent
  makes the default item separator \<open>','\<close>); \<open>json.dumps(obj)\<close> is \<open>plain_opts\<close>.
\<close>

record json_opts =
  jo_sort_keys :: bool
  jo_indent :: "nat option"
  jo_item_sep :: pystr
  jo_key_sep :: pystr

definition dumps_opts :: json_opts where
  "dumps_opts = \<lparr>jo_sort_keys = True, jo_indent = None, jo_item_sep = [0x2C, 0x20], jo_key_sep = [0x3A, 0x20]\<rparr>"

definition plain_opts :: json_opts where
  "plain_opts = \<lparr>jo_sort_keys = False, jo_indent = None, jo_item_sep = [0x2C, 0x20], jo_key_sep = [0x3A, 0x20]\<rparr>"

definition indent2_opts :: json_opts where
  "indent2_opts = \<lparr>jo_sort_keys = False, jo_indent = Some 2, jo_item_sep = [0x2C], jo_key_sep = [0x3A, 0x20]\<rparr>"

fun join_sep :: "pystr \<Rightarrow> pystr list \<Rightarrow> pystr" where
  "join_sep sep [] = []"
| "join_sep sep [x] = x"
| "join_sep sep (x # y # ys) = x @ sep @ join_sep sep (y # ys)"

definition newline_indent :: "nat \<Rightarrow> nat \<Rightarrow> pystr" where
  "newline_indent w l = 0x0A # replicate (w * l) 0x20"

definition json_container :: "json_opts \<Rightarrow> nat \<Rightarrow> codepoint \<Rightarrow> codepoint \<Rightarrow> pystr list \<Rightarrow> pystr" where
  "json_container opts l opn cls items =
     (if items = [] then [opn, cls]
      else case jo_indent opts of
             None \<Rightarrow> [opn] @ join_sep (jo_item_sep opts) items @ [cls]
           | Some w \<Rightarrow>
               [opn] @ newline_indent w (Suc l)
               @ join_sep (jo_item_sep opts @ newline_indent w (Suc l)) items
               @ newline_indent w l @ [cls])"

function json_encode :: "json_opts \<Rightarrow> nat \<Rightarrow> json \<Rightarrow> pystr" where
  "json_encode opts l (JArr vs) = json_container opts l 0x5B 0x5D (map (json_encode opts (Suc l)) vs)"
| "json_encode opts l (JObj kvs) =
     json_container opts l 0x7B 0x7D
       (map (\<lambda>(k, v). encode_str k @ jo_key_sep opts @ json_encode opts (Suc l) v)
            (if jo_sort_keys opts then sort_key fst kvs else kvs))"
| "json_encode opts l JNull = json_dumps JNull"
| "json_encode opts l (JBool b) = json_dumps (JBool b)"
| "json_encode opts l (JInt i) = json_dumps (JInt i)"
| "json_encode opts l (JFloat t) = json_dumps (JFloat t)"
| "json_encode opts l (JStr s) = json_dumps (JStr s)"
  by pat_completeness auto
termination
  by (relation "measure (\<lambda>(opts, l, v). size v)")
    (force split: if_split_asm intro: le_imp_less_Suc size_list_estimation')+

declare nat_digits.simps [simp del]

section \<open>The encoder's output is ASCII\<close>

abbreviation is_ascii :: "pystr \<Rightarrow> bool" where
  "is_ascii s \<equiv> list_all (\<lambda>c. c < 0x80) s"

lemma hex_digit_ascii: "d < 16 \<Longrightarrow> hex_digit d < 0x80"
  by (simp add: hex_digit_def)

lemma u_escape_ascii: "is_ascii (u_escape n)"
  by (simp add: u_escape_def hex4_def hex_digit_ascii)

lemma ascii_ifI: "(b \<Longrightarrow> is_ascii x) \<Longrightarrow> (\<not> b \<Longrightarrow> is_ascii y) \<Longrightarrow> is_ascii (if b then x else y)"
  by simp

lemma escape_cp_ascii: "is_ascii (escape_cp c)"
  unfolding escape_cp_def
  by (intro ascii_ifI) (simp_all add: u_escape_ascii)

lemma encode_str_ascii: "is_ascii (encode_str s)"
proof -
  have "is_ascii (concat (map escape_cp s))"
    by (induction s) (simp_all add: escape_cp_ascii)
  then show ?thesis
    by (simp add: encode_str_def)
qed

lemma nat_digits_ascii: "is_ascii (nat_digits n)"
proof (induction n rule: nat_digits.induct)
  case (1 n)
  have "n mod 10 < 10"
    by simp
  with 1 show ?case
    by (cases "n < 10") (simp_all add: nat_digits.simps [of n])
qed

lemma int_repr_ascii: "is_ascii (int_repr i)"
  by (simp add: int_repr_def nat_digits_ascii)

lemma join_items_ascii: "list_all is_ascii xs \<Longrightarrow> is_ascii (join_items xs)"
  by (induction xs rule: join_items.induct) simp_all

lemma join_items_sep: "join_items xs = join_sep [0x2C, 0x20] xs"
  by (induction xs rule: join_items.induct) simp_all

section \<open>Properties\<close>


end
