(* ===== verification/JsonParse.thy ===== *)
theory JsonParse
  imports Json
begin

section \<open>Definitions\<close>

definition hex_val :: "codepoint \<Rightarrow> nat option" where
  "hex_val c =
     (if 48 \<le> c \<and> c \<le> 57 then Some (c - 48)
      else if 97 \<le> c \<and> c \<le> 102 then Some (c - 87)
      else if 65 \<le> c \<and> c \<le> 70 then Some (c - 55)
      else None)"

fun hex4_val :: "pystr \<Rightarrow> nat option" where
  "hex4_val [a, b, c, d] =
     (case (hex_val a, hex_val b, hex_val c, hex_val d) of
        (Some x1, Some x2, Some x3, Some x4) \<Rightarrow> Some (x1 * 4096 + x2 * 256 + x3 * 16 + x4)
      | _ \<Rightarrow> None)"
| "hex4_val _ = None"

definition simple_unescape :: "codepoint \<Rightarrow> codepoint option" where
  "simple_unescape e =
     (if e = 0x22 then Some 0x22 else if e = 0x5C then Some 0x5C else if e = 0x2F then Some 0x2F
      else if e = 0x62 then Some 0x08 else if e = 0x66 then Some 0x0C
      else if e = 0x6E then Some 0x0A else if e = 0x72 then Some 0x0D
      else if e = 0x74 then Some 0x09 else None)"

definition is_high_surrogate :: "nat \<Rightarrow> bool" where
  "is_high_surrogate u \<longleftrightarrow> 0xD800 \<le> u \<and> u \<le> 0xDBFF"

definition is_low_surrogate :: "nat \<Rightarrow> bool" where
  "is_low_surrogate u \<longleftrightarrow> 0xDC00 \<le> u \<and> u \<le> 0xDFFF"

definition str_cons :: "codepoint \<Rightarrow> (pystr \<times> pystr) option \<Rightarrow> (pystr \<times> pystr) option" where
  "str_cons c r = map_option (\<lambda>(s, rest). (c # s, rest)) r"

function parse_chars :: "pystr \<Rightarrow> (pystr \<times> pystr) option" where
  "parse_chars [] = None"
| "parse_chars (c # cs) =
     (if c = 0x22 then Some ([], cs)
      else if c = 0x5C then
        (case cs of
           [] \<Rightarrow> None
         | e # cs' \<Rightarrow>
             if e = 0x75 then
               (case hex4_val (take 4 cs') of
                  None \<Rightarrow> None
                | Some u \<Rightarrow>
                    if is_high_surrogate u \<and> take 2 (drop 4 cs') = [0x5C, 0x75] then
                      (case hex4_val (take 4 (drop 6 cs')) of
                         None \<Rightarrow> None
                       | Some u2 \<Rightarrow>
                           if is_low_surrogate u2
                           then str_cons (0x10000 + (u - 0xD800) * 1024 + (u2 - 0xDC00))
                                  (parse_chars (drop 10 cs'))
                           else str_cons u (parse_chars (drop 4 cs')))
                    else str_cons u (parse_chars (drop 4 cs')))
             else (case simple_unescape e of
                     None \<Rightarrow> None
                   | Some d \<Rightarrow> str_cons d (parse_chars cs')))
      else if c < 0x20 then None
      else str_cons c (parse_chars cs))"
  by pat_completeness auto
termination
  by (relation "measure length") auto

definition is_digit :: "codepoint \<Rightarrow> bool" where
  "is_digit c \<longleftrightarrow> 48 \<le> c \<and> c \<le> 57"

text \<open>The characters a number literal of the encoder's output is made of.\<close>

definition is_numchar :: "codepoint \<Rightarrow> bool" where
  "is_numchar c \<longleftrightarrow> is_digit c \<or> c \<in> set (ascii ''+-.eEInfityaN'')"

definition float_lit_ok :: "pystr \<Rightarrow> bool" where
  "float_lit_ok t \<longleftrightarrow> t \<noteq> [] \<and> (is_digit (hd t) \<or> hd t \<in> set (ascii ''-IN'')) \<and> list_all is_numchar t
     \<and> list_ex (\<lambda>c. c \<in> set (ascii ''.eEIN'')) t"

definition digits_val :: "pystr \<Rightarrow> nat" where
  "digits_val ds = foldl (\<lambda>a d. 10 * a + (d - 48)) 0 ds"

definition parse_int :: "pystr \<Rightarrow> int option" where
  "parse_int t =
     (if t \<noteq> [] \<and> hd t = 45 then
        (if tl t \<noteq> [] \<and> list_all is_digit (tl t) then Some (- int (digits_val (tl t))) else None)
      else if t \<noteq> [] \<and> list_all is_digit t then Some (int (digits_val t)) else None)"

definition parse_number :: "pystr \<Rightarrow> (json \<times> pystr) option" where
  "parse_number s =
     (let tok = takeWhile is_numchar s; rest = dropWhile is_numchar s
      in if tok = [] then None
         else if list_ex (\<lambda>c. c \<in> set (ascii ''.eEIN'')) tok then Some (JFloat tok, rest)
         else map_option (\<lambda>i. (JInt i, rest)) (parse_int tok))"

fun parse_value :: "nat \<Rightarrow> pystr \<Rightarrow> (json \<times> pystr) option"
and parse_items :: "nat \<Rightarrow> pystr \<Rightarrow> (json list \<times> pystr) option"
and parse_members :: "nat \<Rightarrow> pystr \<Rightarrow> ((pystr \<times> json) list \<times> pystr) option" where
  "parse_value 0 s = None"
| "parse_value (Suc n) s =
     (case s of
        [] \<Rightarrow> None
      | c # cs \<Rightarrow>
          if c = 0x22 then map_option (\<lambda>(t, r). (JStr t, r)) (parse_chars cs)
          else if c = 0x5B then
            (if take 1 cs = [0x5D] then Some (JArr [], drop 1 cs)
             else map_option (\<lambda>(vs, r). (JArr vs, r)) (parse_items n cs))
          else if c = 0x7B then
            (if take 1 cs = [0x7D] then Some (JObj [], drop 1 cs)
             else map_option (\<lambda>(kvs, r). (JObj kvs, r)) (parse_members n cs))
          else if take 4 s = ascii ''null'' then Some (JNull, drop 4 s)
          else if take 4 s = ascii ''true'' then Some (JBool True, drop 4 s)
          else if take 5 s = ascii ''false'' then Some (JBool False, drop 5 s)
          else parse_number s)"
| "parse_items 0 s = None"
| "parse_items (Suc n) s =
     (case parse_value n s of
        None \<Rightarrow> None
      | Some (v, r) \<Rightarrow>
          if take 2 r = [0x2C, 0x20] then map_option (\<lambda>(vs, r'). (v # vs, r')) (parse_items n (drop 2 r))
          else if take 1 r = [0x5D] then Some ([v], drop 1 r)
          else None)"
| "parse_members 0 s = None"
| "parse_members (Suc n) s =
     (case s of
        [] \<Rightarrow> None
      | c # cs \<Rightarrow>
          if c \<noteq> 0x22 then None
          else
            (case parse_chars cs of
               None \<Rightarrow> None
             | Some (k, r) \<Rightarrow>
                 if take 2 r \<noteq> [0x3A, 0x20] then None
                 else
                   (case parse_value n (drop 2 r) of
                      None \<Rightarrow> None
                    | Some (v, r') \<Rightarrow>
                        if take 2 r' = [0x2C, 0x20]
                        then map_option (\<lambda>(kvs, r''). ((k, v) # kvs, r'')) (parse_members n (drop 2 r'))
                        else if take 1 r' = [0x7D] then Some ([(k, v)], drop 1 r')
                        else None)))"

definition json_parse :: "pystr \<Rightarrow> json option" where
  "json_parse s = (case parse_value (length s) s of Some (v, []) \<Rightarrow> Some v | _ \<Rightarrow> None)"

function json_norm :: "json \<Rightarrow> json" where
  "json_norm (JArr vs) = JArr (map json_norm vs)"
| "json_norm (JObj kvs) = JObj (map (\<lambda>(k, v). (k, json_norm v)) (sort_key fst kvs))"
| "json_norm JNull = JNull"
| "json_norm (JBool b) = JBool b"
| "json_norm (JInt i) = JInt i"
| "json_norm (JFloat t) = JFloat t"
| "json_norm (JStr s) = JStr s"
  by pat_completeness auto
termination
  by (relation "measure size") (force intro: le_imp_less_Suc size_list_estimation')+

function json_wf :: "json \<Rightarrow> bool" where
  "json_wf (JArr vs) = list_all json_wf vs"
| "json_wf (JObj kvs) = list_all (\<lambda>(k, v). list_all is_scalar k \<and> json_wf v) kvs"
| "json_wf JNull = True"
| "json_wf (JBool b) = True"
| "json_wf (JInt i) = True"
| "json_wf (JFloat t) = float_lit_ok t"
| "json_wf (JStr s) = list_all is_scalar s"
  by pat_completeness auto
termination
  by (relation "measure size") (force intro: le_imp_less_Suc size_list_estimation')+

function jsize :: "json \<Rightarrow> nat" where
  "jsize (JArr vs) = Suc (length vs + sum_list (map jsize vs))"
| "jsize (JObj kvs) = Suc (length kvs + sum_list (map (\<lambda>(k, v). jsize v) kvs))"
| "jsize JNull = 1"
| "jsize (JBool b) = 1"
| "jsize (JInt i) = 1"
| "jsize (JFloat t) = 1"
| "jsize (JStr s) = 1"
  by pat_completeness auto
termination
  by (relation "measure size") (force intro: le_imp_less_Suc size_list_estimation')+

definition stops_number :: "pystr \<Rightarrow> bool" where
  "stops_number r \<longleftrightarrow> (case r of [] \<Rightarrow> True | c # _ \<Rightarrow> \<not> is_numchar c)"

section \<open>Hexadecimal escapes\<close>

lemma div_split_digit: "(c::nat) div (m * 16) * 16 + c div m mod 16 = c div m"
  by (simp add: div_mult2_eq)

lemma hex4_split:
  assumes "(n::nat) < 0x10000"
  shows "n div 4096 mod 16 * 4096 + n div 256 mod 16 * 256 + n div 16 mod 16 * 16 + n mod 16 = n"
proof -
  from assms have top: "n div 4096 mod 16 = n div 4096"
    by simp
  have "n div 4096 mod 16 * 4096 + n div 256 mod 16 * 256 + n div 16 mod 16 * 16 + n mod 16
        = ((n div 4096 * 16 + n div 256 mod 16) * 16 + n div 16 mod 16) * 16 + n mod 16"
    by (simp add: top algebra_simps)
  also have "n div 4096 * 16 + n div 256 mod 16 = n div 256"
    using div_split_digit [of n 256] by simp
  also have "n div 256 * 16 + n div 16 mod 16 = n div 16"
    using div_split_digit [of n 16] by simp
  also have "n div 16 * 16 + n mod 16 = n"
    by simp
  finally show ?thesis .
qed

lemma hex4_take_drop [simp]:
  "take 4 (hex4 n @ r) = hex4 n" "drop 4 (hex4 n @ r) = r"
  "drop 6 (hex4 n @ r) = drop 2 r" "drop 10 (hex4 n @ r) = drop 6 r"
  by (simp_all add: hex4_def)

lemma hex_val_digit: "d < 16 \<Longrightarrow> hex_val (hex_digit d) = Some d"
  by (simp add: hex_val_def hex_digit_def)

lemma length_hex4 [simp]: "length (hex4 n) = 4"
  by (simp add: hex4_def)

lemma hex4_val_hex4:
  assumes "n < 0x10000"
  shows "hex4_val (hex4 n) = Some n"
proof -
  have "n div 4096 mod 16 < 16" "n div 256 mod 16 < 16" "n div 16 mod 16 < 16" "n mod 16 < 16"
    by simp_all
  then have "hex4_val (hex4 n)
      = Some (n div 4096 mod 16 * 4096 + n div 256 mod 16 * 256 + n div 16 mod 16 * 16 + n mod 16)"
    unfolding hex4_def by (simp only: list.map hex4_val.simps hex_val_digit prod.case option.case)
  with hex4_split [OF assms] show ?thesis
    by (simp only:)
qed

lemma parse_chars_u_escape:
  assumes "n < 0x10000"
  shows "parse_chars (u_escape n @ rest) =
     (if is_high_surrogate n \<and> take 2 rest = [0x5C, 0x75] then
        (case hex4_val (take 4 (drop 2 rest)) of
           None \<Rightarrow> None
         | Some u2 \<Rightarrow>
             if is_low_surrogate u2
             then str_cons (0x10000 + (n - 0xD800) * 1024 + (u2 - 0xDC00)) (parse_chars (drop 6 rest))
             else str_cons n (parse_chars rest))
      else str_cons n (parse_chars rest))"
  using assms by (simp add: u_escape_def hex4_val_hex4 split: option.split)

section \<open>Strings\<close>

lemma parse_chars_escape_cp:
  assumes "is_scalar c"
  shows "parse_chars (escape_cp c @ rest) = str_cons c (parse_chars rest)"
proof -
  consider "c < 0x10000" "\<not> (0x20 \<le> c \<and> c \<le> 0x7E)" | "0x10000 \<le> c" | "0x20 \<le> c \<and> c \<le> 0x7E"
    by linarith
  then show ?thesis
  proof cases
    case 1
    with assms have "\<not> is_high_surrogate c"
      by (auto simp: is_scalar_def is_surrogate_def is_high_surrogate_def)
    with 1 show ?thesis
      by (auto simp: escape_cp_def parse_chars_u_escape hex4_val_hex4 simple_unescape_def str_cons_def)
  next
    case 2
    let ?n = "c - 0x10000"
    let ?hi = "0xD800 + ?n div 1024" and ?lo = "0xDC00 + ?n mod 1024"
    from assms have "c < 0x110000"
      by (simp add: is_scalar_def)
    then have q: "?n div 1024 < 1024"
      by simp
    have r: "?n mod 1024 < 1024"
      by simp
    from q have hi_lt: "?hi < 0x10000"
      by simp
    have lo: "hex4_val (hex4 ?lo) = Some ?lo"
      using r by (intro hex4_val_hex4) simp
    have h1: "is_high_surrogate ?hi"
      using q by (simp add: is_high_surrogate_def)
    have l1: "is_low_surrogate ?lo"
      using r by (simp add: is_low_surrogate_def)
    have t2: "take 2 (u_escape ?lo @ rest) = [0x5C, 0x75]"
      by (simp add: u_escape_def)
    have t4: "take 4 (drop 2 (u_escape ?lo @ rest)) = hex4 ?lo"
      by (simp add: u_escape_def)
    have d6: "drop 6 (u_escape ?lo @ rest) = rest"
      by (simp add: u_escape_def)
    have esc: "escape_cp c = u_escape ?hi @ u_escape ?lo"
      using 2 by (simp add: escape_cp_def)
    have "parse_chars (escape_cp c @ rest)
          = str_cons (0x10000 + (?hi - 0xD800) * 1024 + (?lo - 0xDC00)) (parse_chars rest)"
      unfolding esc append_assoc parse_chars_u_escape [OF hi_lt, of "u_escape ?lo @ rest"]
      by (simp only: h1 l1 t2 t4 d6 lo simp_thms if_True option.case)
    also have "0x10000 + (?hi - 0xD800) * 1024 + (?lo - 0xDC00) = c"
      using 2 by simp
    finally show ?thesis .
  next
    case 3
    then show ?thesis
      by (auto simp: escape_cp_def simple_unescape_def str_cons_def)
  qed
qed

lemma parse_chars_encoded:
  "list_all is_scalar s \<Longrightarrow> parse_chars (concat (map escape_cp s) @ 0x22 # rest) = Some (s, rest)"
  by (induction s) (simp_all add: parse_chars_escape_cp str_cons_def)

lemma parse_chars_encode_str:
  "list_all is_scalar s \<Longrightarrow> parse_chars (tl (encode_str s) @ rest) = Some (s, rest)"
  using parse_chars_encoded [of s rest] by (simp add: encode_str_def)


section \<open>Numbers\<close>

lemma nat_digits_digits: "nat_digits n \<noteq> [] \<and> list_all is_digit (nat_digits n)"
proof (induction n rule: nat_digits.induct)
  case (1 n)
  then show ?case
    by (cases "n < 10") (simp_all add: nat_digits.simps [of n] is_digit_def)
qed

lemma digits_val_nat_digits: "digits_val (nat_digits n) = n"
proof (induction n rule: nat_digits.induct)
  case (1 n)
  show ?case
  proof (cases "n < 10")
    case True
    then show ?thesis
      by (subst nat_digits.simps) (simp add: digits_val_def)
  next
    case False
    with "1.IH" have "digits_val (nat_digits (n div 10)) = n div 10"
      by simp
    with False show ?thesis
      by (subst nat_digits.simps) (simp add: digits_val_def)
  qed
qed

lemma parse_int_int_repr: "parse_int (int_repr i) = Some i"
proof (cases "i < 0")
  case True
  with nat_digits_digits [of "nat (- i)"] show ?thesis
    by (simp add: int_repr_def parse_int_def digits_val_nat_digits)
next
  case False
  from nat_digits_digits [of "nat i"] have "hd (nat_digits (nat i)) \<noteq> 45"
    by (cases "nat_digits (nat i)") (simp_all add: is_digit_def)
  with False nat_digits_digits [of "nat i"] show ?thesis
    by (simp add: int_repr_def parse_int_def digits_val_nat_digits)
qed

lemma int_repr_shape:
  "int_repr i \<noteq> [] \<and> (is_digit (hd (int_repr i)) \<or> hd (int_repr i) = 45)
   \<and> list_all (\<lambda>c. is_digit c \<or> c = 45) (int_repr i)"
  using nat_digits_digits [of "nat (- i)"] nat_digits_digits [of "nat i"]
  by (cases "nat_digits (nat i)") (auto simp: int_repr_def list_all_iff)

lemma numeral_token:
  assumes "list_all is_numchar t" and "stops_number rest"
  shows "takeWhile is_numchar (t @ rest) = t" and "dropWhile is_numchar (t @ rest) = rest"
  using assms by (cases rest; simp add: stops_number_def list_all_iff takeWhile_append2 dropWhile_append2)+

lemma parse_number_int:
  assumes "stops_number rest"
  shows "parse_number (int_repr i @ rest) = Some (JInt i, rest)"
proof -
  have all: "list_all (\<lambda>c. is_digit c \<or> c = 45) (int_repr i)" and ne: "int_repr i \<noteq> []"
    using int_repr_shape [of i] by simp_all
  then have num: "list_all is_numchar (int_repr i)"
    by (auto simp: list_all_iff is_numchar_def ascii_def)
  from all have "\<not> list_ex (\<lambda>c. c \<in> set (ascii ''.eEIN'')) (int_repr i)"
    by (auto simp: list_all_iff list_ex_iff is_digit_def ascii_def)
  with numeral_token [OF num assms] ne show ?thesis
    by (simp add: parse_number_def parse_int_int_repr)
qed

lemma parse_number_float:
  assumes "float_lit_ok t" and "stops_number rest"
  shows "parse_number (t @ rest) = Some (JFloat t, rest)"
  using assms numeral_token [of t rest] by (simp add: parse_number_def float_lit_ok_def)

lemma parse_value_number:
  assumes "is_digit c \<or> c \<in> set (ascii ''-IN'')"
  shows "parse_value (Suc n) (c # cs) = parse_number (c # cs)"
  using assms by (auto simp: ascii_def is_digit_def)

section \<open>Arrays and objects\<close>

lemma sum_list_insort_key:
  fixes f :: "'a \<Rightarrow> nat"
  shows "sum_list (map f (insort_key g x xs)) = f x + sum_list (map f xs)"
  by (induction xs) (auto simp: ac_simps)

lemma sum_list_sort_key:
  fixes f :: "'a \<Rightarrow> nat"
  shows "sum_list (map f (sort_key g xs)) = sum_list (map f xs)"
  by (induction xs) (simp_all add: sum_list_insort_key)

lemma json_dumps_first:
  assumes "json_wf v"
  shows "\<exists>c cs. json_dumps v = c # cs \<and> c \<noteq> 0x5D"
proof (cases v)
  case (JInt i)
  with int_repr_shape [of i] show ?thesis
    by (cases "int_repr i") (auto simp: is_digit_def)
next
  case (JFloat t)
  with assms show ?thesis
    by (cases t) (auto simp: float_lit_ok_def is_digit_def ascii_def)
qed (simp_all add: ascii_def encode_str_def)

lemma stops_sep [simp]:
  "stops_number (0x2C # r)" "stops_number (0x5D # r)" "stops_number (0x7D # r)"
  by (simp_all add: stops_number_def is_numchar_def is_digit_def ascii_def)

lemma parse_items_join:
  assumes "\<And>x n rest. x \<in> set vs \<Longrightarrow> stops_number rest \<Longrightarrow> jsize x \<le> n \<Longrightarrow>
             parse_value n (json_dumps x @ rest) = Some (json_norm x, rest)"
    and "vs \<noteq> []" and "length vs + sum_list (map jsize vs) \<le> n"
  shows "parse_items n (join_items (map json_dumps vs) @ 0x5D # rest) = Some (map json_norm vs, rest)"
  using assms
proof (induction vs arbitrary: n)
  case Nil
  then show ?case by simp
next
  case (Cons v vs)
  note IH = Cons.IH and prems = Cons.prems
  have prem: "\<And>x n r. x \<in> set vs \<Longrightarrow> stops_number r \<Longrightarrow> jsize x \<le> n \<Longrightarrow>
      parse_value n (json_dumps x @ r) = Some (json_norm x, r)"
    using prems(1) by simp
  from prems(3) obtain m where n: "n = Suc m" and m: "jsize v + length vs + sum_list (map jsize vs) \<le> m"
    by (cases n) auto
  show ?case
  proof (cases vs)
    case Nil
    have "parse_value m (json_dumps v @ [0x5D] @ rest) = Some (json_norm v, 0x5D # rest)"
      using prems(1) [of v "0x5D # rest" m] m by simp
    with Nil n show ?thesis
      by simp
  next
    case (Cons w ws)
    have hd: "parse_value m (json_dumps v @ 0x2C # 0x20 # join_items (map json_dumps vs) @ 0x5D # rest)
              = Some (json_norm v, 0x2C # 0x20 # join_items (map json_dumps vs) @ 0x5D # rest)"
      using prems(1) [of v _ m] m by simp
    have "parse_items m (join_items (map json_dumps vs) @ 0x5D # rest) = Some (map json_norm vs, rest)"
      using IH [OF prem] m Cons by simp
    with hd n Cons show ?thesis
      by simp
  qed
qed

lemma parse_members_join:
  assumes "\<And>k x n rest. (k, x) \<in> set kvs \<Longrightarrow> stops_number rest \<Longrightarrow> jsize x \<le> n \<Longrightarrow>
             parse_value n (json_dumps x @ rest) = Some (json_norm x, rest)"
    and "list_all (\<lambda>(k, x). list_all is_scalar k) kvs"
    and "kvs \<noteq> []" and "length kvs + sum_list (map (\<lambda>(k, x). jsize x) kvs) \<le> n"
  shows "parse_members n (join_items (map (\<lambda>(k, x). encode_str k @ [0x3A, 0x20] @ json_dumps x) kvs)
           @ 0x7D # rest) = Some (map (\<lambda>(k, x). (k, json_norm x)) kvs, rest)"
  using assms
proof (induction kvs arbitrary: n)
  case Nil
  then show ?case by simp
next
  case (Cons kv kvs)
  note IH = Cons.IH and prems = Cons.prems
  have prem: "\<And>k x r n. (k, x) \<in> set kvs \<Longrightarrow> stops_number r \<Longrightarrow> jsize x \<le> n \<Longrightarrow>
      parse_value n (json_dumps x @ r) = Some (json_norm x, r)"
    using prems(1) by (meson list.set_intros(2))
  obtain k v where kv: "kv = (k, v)"
    by (cases kv)
  from prems(4) kv obtain m where n: "n = Suc m"
      and m: "jsize v + length kvs + sum_list (map (\<lambda>(k, x). jsize x) kvs) \<le> m"
    by (cases n) auto
  from prems(2) kv have k: "list_all is_scalar k"
    by simp
  have key: "parse_chars (tl (encode_str k) @ r) = Some (k, r)" for r
    using k by (rule parse_chars_encode_str)
  have enc: "encode_str k @ r = 0x22 # (tl (encode_str k) @ r)" for r
    by (simp add: encode_str_def)
  show ?case
  proof (cases kvs)
    case Nil
    have "parse_value m (json_dumps v @ [0x7D] @ rest) = Some (json_norm v, 0x7D # rest)"
      using prems(1) [of k v "0x7D # rest" m] m kv by simp
    with Nil n kv show ?thesis
      by (simp add: enc key)
  next
    case (Cons kw kws)
    let ?tail = "join_items (map (\<lambda>(k, x). encode_str k @ [0x3A, 0x20] @ json_dumps x) kvs) @ 0x7D # rest"
    have hd: "parse_value m (json_dumps v @ 0x2C # 0x20 # ?tail) = Some (json_norm v, 0x2C # 0x20 # ?tail)"
      using prems(1) [of k v _ m] m kv by simp
    have keys: "list_all (\<lambda>(k, x). list_all is_scalar k) kvs"
      using prems(2) by simp
    have "parse_members m ?tail = Some (map (\<lambda>(k, x). (k, json_norm x)) kvs, rest)"
      using IH [OF prem keys] m Cons by simp
    with hd n kv Cons show ?thesis
      by (simp add: enc key)
  qed
qed

lemma length_join_items:
  "xs \<noteq> [] \<Longrightarrow> length (join_items xs) + 2 = sum_list (map length xs) + 2 * length xs"
  by (induction xs rule: join_items.induct) simp_all

lemma sort_key_Nil_iff: "(sort_key f xs = []) = (xs = [])"
  by (metis length_0_conv length_sort)

lemma sum_list_plus_const:
  "sum_list (map (\<lambda>(k, x). c + f x) xs) = c * length xs + sum_list (map (\<lambda>(k, x). f x) xs)"
  by (induction xs) auto

lemma encode_str_length: "2 \<le> length (encode_str s)"
  by (simp add: encode_str_def)

lemma jsize_le_length: "json_wf v \<Longrightarrow> jsize v \<le> length (json_dumps v)"
proof (induction v rule: json_dumps.induct)
  case (3 i)
  then show ?case
    using int_repr_shape [of i] by (simp add: Suc_leI)
next
  case (4 t)
  then show ?case
    by (simp add: float_lit_ok_def Suc_leI)
next
  case (6 vs)
  show ?case
  proof (cases "vs = []")
    case False
    have "sum_list (map jsize vs) \<le> sum_list (map (\<lambda>x. length (json_dumps x)) vs)"
      using "6.IH" "6.prems" by (intro sum_list_mono) (simp add: list_all_iff)
    with length_join_items [of "map json_dumps vs"] False show ?thesis
      by (cases vs) (simp_all add: comp_def)
  qed simp
next
  case (7 kvs)
  let ?kvs = "sort_key fst kvs"
  let ?m = "\<lambda>(k, x). encode_str k @ [0x3A, 0x20] @ json_dumps x"
  show ?case
  proof (cases "?kvs = []")
    case False
    have "sum_list (map (\<lambda>(k, x). 4 + jsize x) ?kvs) \<le> sum_list (map (length \<circ> ?m) ?kvs)"
    proof (intro sum_list_mono)
      fix kx
      assume kx: "kx \<in> set ?kvs"
      obtain k x where kx_eq: "kx = (k, x)"
        by (cases kx)
      with kx "7.prems" have "jsize x \<le> length (json_dumps x)"
        using "7.IH" [OF kx [unfolded kx_eq] refl] by (auto simp: list_all_iff)
      with encode_str_length [of k] kx_eq show "(\<lambda>(k, x). 4 + jsize x) kx \<le> (length \<circ> ?m) kx"
        by simp
    qed
    then have L: "4 * length ?kvs + sum_list (map (\<lambda>(k, x). jsize x) ?kvs) \<le> sum_list (map (length \<circ> ?m) ?kvs)"
      by (simp only: sum_list_plus_const)
    have J: "length (join_items (map ?m ?kvs)) + 2 = sum_list (map (length \<circ> ?m) ?kvs) + 2 * length ?kvs"
      using length_join_items [of "map ?m ?kvs"] False by simp
    have K: "0 < length ?kvs"
      using False length_greater_0_conv by blast
    have S: "jsize (JObj kvs) = Suc (length ?kvs + sum_list (map (\<lambda>(k, x). jsize x) ?kvs))"
      by (simp add: sum_list_sort_key)
    have D: "length (json_dumps (JObj kvs)) = 2 + length (join_items (map ?m ?kvs))"
      by simp
    from L J K show ?thesis
      unfolding S D by linarith
  qed (simp add: sort_key_Nil_iff)
qed (simp_all add: ascii_def encode_str_def)

section \<open>The encoded text\<close>


lemma is_numchar_ascii: "is_numchar c \<Longrightarrow> c < 0x80"
  by (auto simp: is_numchar_def is_digit_def ascii_def)

lemma json_dumps_ascii: "json_wf v \<Longrightarrow> is_ascii (json_dumps v)"
proof (induction v rule: json_dumps.induct)
  case (4 t)
  then show ?case
    by (auto simp: float_lit_ok_def list_all_iff is_numchar_ascii)
next
  case (6 vs)
  then have "list_all is_ascii (map json_dumps vs)"
    by (simp add: list_all_iff)
  then show ?case
    by (simp add: join_items_ascii)
next
  case (7 kvs)
  have "is_ascii (encode_str k @ [0x3A, 0x20] @ json_dumps v)" if kv: "(k, v) \<in> set (sort_key fst kvs)" for k v
  proof -
    from kv "7.prems" have "json_wf v"
      by (auto simp: list_all_iff)
    with "7.IH" [OF kv refl] encode_str_ascii [of k] show ?thesis
      by simp
  qed
  then have "list_all is_ascii (map (\<lambda>(k, v). encode_str k @ [0x3A, 0x20] @ json_dumps v) (sort_key fst kvs))"
    by (auto simp: list_all_iff)
  then show ?case
    by (simp add: join_items_ascii)
qed (simp_all add: ascii_def int_repr_ascii encode_str_ascii)

lemma utf8_encode_cp_ascii: "c < 0x80 \<Longrightarrow> utf8_encode_cp c = [byte_of_nat c]"
  by (simp add: utf8_encode_cp_def)

lemma py_str_encode_ascii: "is_ascii s \<Longrightarrow> py_str_encode s = Inr (map byte_of_nat s)"
proof -
  assume a: "is_ascii s"
  then have "\<not> list_ex is_surrogate s"
    by (auto simp: list_all_iff list_ex_iff is_surrogate_def)
  moreover from a have "concat (map utf8_encode_cp s) = map byte_of_nat s"
    by (induction s) (simp_all add: utf8_encode_cp_ascii)
  ultimately show ?thesis
    by (simp add: py_str_encode_def)
qed

lemma byte_of_nat_inj_ascii: "inj_on byte_of_nat {..<0x80}"
proof (rule inj_onI)
  fix a b :: nat
  assume a: "a \<in> {..<0x80}" and b: "b \<in> {..<0x80}" and eq: "byte_of_nat a = byte_of_nat b"
  from a b have "a < 256" "b < 256"
    by simp_all
  then have "unat (byte_of_nat a) = a" "unat (byte_of_nat b) = b"
    by (simp_all only: unat_byte_of_nat)
  with eq show "a = b"
    by metis
qed

lemma map_byte_of_nat_inj:
  assumes "is_ascii s" and "is_ascii t" and "map byte_of_nat s = map byte_of_nat t"
  shows "s = t"
proof -
  from assms(1,2) have "set s \<union> set t \<subseteq> {..<0x80}"
    by (auto simp: list_all_iff)
  then have "inj_on byte_of_nat (set s \<union> set t)"
    by (rule inj_on_subset [OF byte_of_nat_inj_ascii])
  with assms(3) show ?thesis
    by (simp add: inj_on_map_eq_map)
qed


section \<open>Round trip\<close>

lemma parse_value_dumps:
  "json_wf v \<Longrightarrow> stops_number rest \<Longrightarrow> jsize v \<le> n \<Longrightarrow>
   parse_value n (json_dumps v @ rest) = Some (json_norm v, rest)"
proof (induction v arbitrary: n rest rule: json_dumps.induct)
  case 1
  then show ?case
    by (cases n) (simp_all add: ascii_def)
next
  case (2 b)
  then show ?case
    by (cases n; cases b) (simp_all add: ascii_def)
next
  case (3 i)
  from "3.prems" obtain m where n: "n = Suc m"
    by (cases n) auto
  from int_repr_shape [of i] obtain c cs where ic: "int_repr i = c # cs" and c: "is_digit c \<or> c = 45"
    by (cases "int_repr i") auto
  have "parse_value n (int_repr i @ rest) = parse_number (int_repr i @ rest)"
    unfolding n ic append_Cons by (rule parse_value_number) (use c in \<open>auto simp: ascii_def\<close>)
  with parse_number_int [OF "3.prems"(2)] show ?case
    by simp
next
  case (4 t)
  from "4.prems" obtain m where n: "n = Suc m"
    by (cases n) auto
  from "4.prems"(1) obtain c cs where tc: "t = c # cs" and c: "is_digit c \<or> c \<in> set (ascii ''-IN'')"
    by (cases t) (auto simp: float_lit_ok_def)
  have "parse_value n (t @ rest) = parse_number (t @ rest)"
    unfolding n tc append_Cons by (rule parse_value_number) (rule c)
  with parse_number_float [of t rest] "4.prems" show ?case
    by simp
next
  case (5 s)
  then show ?case
    by (cases n) (simp_all add: encode_str_def parse_chars_encoded)
next
  case (6 vs)
  from "6.prems" obtain m where n: "n = Suc m" and m: "length vs + sum_list (map jsize vs) \<le> m"
    by (cases n) auto
  show ?case
  proof (cases vs)
    case Nil
    with n show ?thesis by simp
  next
    case (Cons v vs')
    have IH: "\<And>x n rest. x \<in> set vs \<Longrightarrow> stops_number rest \<Longrightarrow> jsize x \<le> n \<Longrightarrow>
               parse_value n (json_dumps x @ rest) = Some (json_norm x, rest)"
      using "6.IH" "6.prems"(1) by (simp add: list_all_iff)
    from json_dumps_first [of v] "6.prems"(1) Cons obtain c cs where "json_dumps v = c # cs" "c \<noteq> 0x5D"
      by auto
    with Cons have first: "take 1 (join_items (map json_dumps vs) @ 0x5D # rest) \<noteq> [0x5D]"
      by (cases vs') auto
    from parse_items_join [OF IH _ m] Cons first n show ?thesis
      by simp
  qed
next
  case (7 kvs)
  let ?kvs = "sort_key fst kvs"
  from "7.prems" obtain m where n: "n = Suc m"
      and m: "length ?kvs + sum_list (map (\<lambda>(k, x). jsize x) ?kvs) \<le> m"
    by (cases n) (auto simp: sum_list_sort_key)
  show ?case
  proof (cases "?kvs = []")
    case True
    with n show ?thesis by simp
  next
    case False
    have IH: "\<And>k x n rest. (k, x) \<in> set ?kvs \<Longrightarrow> stops_number rest \<Longrightarrow> jsize x \<le> n \<Longrightarrow>
               parse_value n (json_dumps x @ rest) = Some (json_norm x, rest)"
      using "7.IH" "7.prems"(1) by (fastforce simp: list_all_iff)
    have keys: "list_all (\<lambda>(k, x). list_all is_scalar k) ?kvs"
      using "7.prems"(1) by (auto simp: list_all_iff)
    from False obtain kv kvs' where "?kvs = kv # kvs'"
      by (cases ?kvs) auto
    then have first: "take 1 (join_items (map (\<lambda>(k, x). encode_str k @ [0x3A, 0x20] @ json_dumps x) ?kvs)
                 @ 0x7D # rest) \<noteq> [0x7D]"
      by (cases kv; cases kvs') (auto simp: encode_str_def)
    from parse_members_join [OF IH keys False m] first n show ?thesis
      by simp
  qed
qed


lemma json_dumps_inj:
  assumes "json_wf v" and "json_wf w" and "json_dumps v = json_dumps w"
  shows "json_norm v = json_norm w"
proof -
  let ?n = "max (jsize v) (jsize w)"
  have "parse_value ?n (json_dumps v @ []) = Some (json_norm v, [])"
    using assms(1) by (intro parse_value_dumps) (simp_all add: stops_number_def)
  moreover have "parse_value ?n (json_dumps w @ []) = Some (json_norm w, [])"
    using assms(2) by (intro parse_value_dumps) (simp_all add: stops_number_def)
  ultimately show ?thesis
    using assms(3) by simp
qed

lemma encode_json_inj:
  assumes "json_wf v" and "json_wf w" and "py_str_encode (json_dumps v) = py_str_encode (json_dumps w)"
  shows "json_norm v = json_norm w"
proof -
  have av: "is_ascii (json_dumps v)" and aw: "is_ascii (json_dumps w)"
    using assms(1,2) by (simp_all add: json_dumps_ascii)
  with assms(3) have "map byte_of_nat (json_dumps v) = map byte_of_nat (json_dumps w)"
    by (simp add: py_str_encode_ascii)
  with av aw have "json_dumps v = json_dumps w"
    by (rule map_byte_of_nat_inj)
  with assms(1,2) show ?thesis
    by (rule json_dumps_inj)
qed

section \<open>Properties\<close>

text \<open>
  C18: Decoding the text that \<open>json.dumps(v, sort_keys=True)\<close> produces gives back \<open>v\<close>
  with every dict's items in key order, for every value whose strings are Unicode scalar
  values and whose floats are rendered as float literals: the encoding (escapes,
  surrogate pairs, separators, number literals) loses nothing.
\<close>

theorem json_parse_dumps: "json_wf v \<Longrightarrow> json_parse (json_dumps v) = Some (json_norm v)"
  using parse_value_dumps [of v "[]" "length (json_dumps v)"] jsize_le_length [of v]
  by (simp add: json_parse_def stops_number_def)

theorem json_parse_dumps_witness:
  "json_parse (json_dumps (JObj [(ascii ''b'', JInt (-12)), (ascii ''a'', JStr [0x22, 0x1F600])]))
   = Some (JObj [(ascii ''a'', JStr [0x22, 0x1F600]), (ascii ''b'', JInt (-12))])"
  using json_parse_dumps [of "JObj [(ascii ''b'', JInt (-12)), (ascii ''a'', JStr [0x22, 0x1F600])]"]
  by (simp add: ascii_def is_scalar_def is_surrogate_def)

end
