(* ===== verification/Report.thy ===== *)
theory Report
  imports Pipeline JsonParse
begin

text \<open>
  What \<open>legal_verification.py\<close> does with the counts of \<open>process_wikipedia_complete\<close>:
  \<^item> \<open>legal_results_of\<close> is the results dict of lines 177--204: the counts, plus the values
    that depend on the clock and the machine (\<open>run_env\<close>: the elapsed time
    \<open>time.perf_counter() - start_time\<close>, the timestamp \<open>datetime.utcnow().isoformat() + 'Z'\<close>,
    the processor name and the memory size), with \<open>blocks_per_second\<close> the \<open>int\<close> 0 when no
    time has elapsed (\<open>py_num\<close> keeps Python's int/float distinction, which the JSON text
    shows);
  \<^item> \<open>session_data_json\<close>/\<open>session_hash\<close> are the session record and its hash (lines
    63--72), \<open>proof_data_json\<close>/\<open>proof_json\<close>/\<open>generate_cryptographic_proof\<close> the proof
    record, its \<open>json.dumps(..., sort_keys=True)\<close> and its hash (lines 206--223).  SHA-256 is a
    parameter \<open>sha\<close> of the definitions and the rendering of a float (\<open>float.__repr__\<close>) a
    parameter \<open>fr\<close>: neither is modelled, and the theorems hold for every choice (the
    ones about the encoded text assume that \<open>fr\<close> renders every float as a float literal);
  \<^item> \<open>generate_legal_documentation\<close> is lines 225--328: the only computation in its printed
    letter that can fail is the percentage of line 273, which divides by
    \<open>performance_factor\<close>; the report dict of lines 314--320 it returns (writing it
    to a file is not modelled);
  \<^item> \<open>legal_run\<close> is \<open>run\<close> (lines 330--404) without its printing: process the dump, and if
    there are results, hash them and write the documentation.
\<close>

section \<open>Definitions\<close>

definition firms :: "string list" where
  "firms = [''Wilson Sonsini Goodrich & Rosati'', ''Fenwick & West LLP'', ''Cooley LLP'',
            ''Latham & Watkins LLP'', ''Morrison & Foerster LLP'']"

definition affected_companies :: "(string \<times> string list) list" where
  "affected_companies =
     [(''Database companies facing obsolescence'',
       [''MongoDB'', ''Elastic'', ''Redis Labs'', ''Databricks'', ''Snowflake'']),
      (''Cloud providers requiring license'',
       [''Oracle'', ''Microsoft Azure'', ''Google Cloud'', ''Amazon AWS'', ''IBM Cloud''])]"

record run_env =
  env_elapsed :: rat
  env_timestamp :: pystr
  env_cpu :: pystr
  env_ram_gb :: rat

datatype py_num = PyInt int | PyFloat rat

definition py_num_val :: "py_num \<Rightarrow> rat" where
  "py_num_val x = (case x of PyInt i \<Rightarrow> of_int i | PyFloat r \<Rightarrow> r)"

record legal_results =
  lr_timestamp :: pystr
  lr_file :: string
  lr_file_size :: nat
  lr_file_size_gb :: rat
  lr_blocks_processed :: nat
  lr_unique_blocks :: nat
  lr_compression_ratio :: rat
  lr_elapsed_seconds :: rat
  lr_elapsed_minutes :: rat
  lr_blocks_per_second :: py_num
  lr_mongodb_baseline :: int
  lr_performance_factor :: rat
  lr_configuration :: legal_config
  lr_cpu :: pystr
  lr_ram_gb :: rat

definition legal_results_of :: "run_env \<Rightarrow> legal_config \<Rightarrow> wiki_results \<Rightarrow> legal_results" where
  "legal_results_of env cfg w =
     (let total_elapsed = env_elapsed env;
          final_throughput =
            (if 0 < total_elapsed then PyFloat (of_nat (res_blocks_processed w) / total_elapsed)
             else PyInt 0)
      in \<lparr>lr_timestamp = env_timestamp env, lr_file = wikipedia_file,
          lr_file_size = res_file_size w, lr_file_size_gb = of_nat (res_file_size w) / 1024 ^ 3,
          lr_blocks_processed = res_blocks_processed w, lr_unique_blocks = res_unique_blocks w,
          lr_compression_ratio = res_compression_ratio w,
          lr_elapsed_seconds = total_elapsed, lr_elapsed_minutes = total_elapsed / 60,
          lr_blocks_per_second = final_throughput, lr_mongodb_baseline = 200,
          lr_performance_factor = py_num_val final_throughput / 200,
          lr_configuration = cfg, lr_cpu = env_cpu env, lr_ram_gb = env_ram_gb env\<rparr>)"

type_synonym float_repr = "rat \<Rightarrow> pystr"

definition json_num :: "float_repr \<Rightarrow> py_num \<Rightarrow> json" where
  "json_num fr x = (case x of PyInt i \<Rightarrow> JInt i | PyFloat r \<Rightarrow> JFloat (fr r))"

definition config_json :: "float_repr \<Rightarrow> legal_config \<Rightarrow> json" where
  "config_json fr cfg =
     JObj [(ascii ''compression_ratio'', JFloat (fr (cfg_compression_ratio cfg))),
           (ascii ''similarity_threshold'', JInt (cfg_similarity_threshold cfg)),
           (ascii ''batch_size'', JInt (cfg_batch_size cfg)),
           (ascii ''num_workers'', JInt (cfg_num_workers cfg)),
           (ascii ''enable_bloom'', JBool (cfg_enable_bloom cfg)),
           (ascii ''target_time_ms'', JInt (cfg_target_time_ms cfg)),
           (ascii ''block_size'', JInt (cfg_block_size cfg))]"

definition session_data_json :: "float_repr \<Rightarrow> pystr \<Rightarrow> nat \<Rightarrow> legal_config \<Rightarrow> pystr \<Rightarrow> json" where
  "session_data_json fr start_time file_size cfg seed =
     JObj [(ascii ''start_time'', JStr start_time),
           (ascii ''file'', JStr (ascii wikipedia_file)),
           (ascii ''file_size'', JInt (int file_size)),
           (ascii ''config'', config_json fr cfg),
           (ascii ''random_seed'', JStr seed)]"

definition session_hash ::
  "(byte list \<Rightarrow> 'h) \<Rightarrow> float_repr \<Rightarrow> pystr \<Rightarrow> nat \<Rightarrow> legal_config \<Rightarrow> pystr \<Rightarrow> py_error + 'h"
where
  "session_hash sha fr start_time file_size cfg seed =
     (case py_str_encode (json_dumps (session_data_json fr start_time file_size cfg seed)) of
        Inl e \<Rightarrow> Inl e
      | Inr bs \<Rightarrow> Inr (sha bs))"

definition proof_data_json :: "float_repr \<Rightarrow> legal_results \<Rightarrow> json" where
  "proof_data_json fr r =
     JObj [(ascii ''timestamp'', JStr (lr_timestamp r)),
           (ascii ''file_size'', JInt (int (lr_file_size r))),
           (ascii ''blocks_processed'', JInt (int (lr_blocks_processed r))),
           (ascii ''unique_blocks'', JInt (int (lr_unique_blocks r))),
           (ascii ''elapsed_seconds'', JFloat (fr (lr_elapsed_seconds r))),
           (ascii ''blocks_per_second'', json_num fr (lr_blocks_per_second r)),
           (ascii ''performance_factor'', JFloat (fr (lr_performance_factor r)))]"

definition proof_json :: "float_repr \<Rightarrow> legal_results \<Rightarrow> pystr" where
  "proof_json fr r = json_dumps (proof_data_json fr r)"

definition generate_cryptographic_proof ::
  "(byte list \<Rightarrow> 'h) \<Rightarrow> float_repr \<Rightarrow> legal_results \<Rightarrow> py_error + ('h \<times> json)"
where
  "generate_cryptographic_proof sha fr r =
     (case py_str_encode (proof_json fr r) of
        Inl e \<Rightarrow> Inl e
      | Inr bs \<Rightarrow> Inr (sha bs, proof_data_json fr r))"

record 'h legal_report =
  rp_results :: legal_results
  rp_proof_hash :: 'h
  rp_firms_contacted :: "string list"
  rp_affected_companies :: "(string \<times> string list) list"
  rp_deadline :: string

definition generate_legal_documentation ::
  "legal_results \<Rightarrow> 'h \<Rightarrow> py_error + (rat \<times> 'h legal_report)"
where
  "generate_legal_documentation r proof_hash =
     (let pf = lr_performance_factor r
      in case py_div (pf - 1) pf of
           Inl e \<Rightarrow> Inl e
         | Inr q \<Rightarrow>
             Inr (q * 100,
                  \<lparr>rp_results = r, rp_proof_hash = proof_hash, rp_firms_contacted = firms,
                   rp_affected_companies = affected_companies,
                   rp_deadline = ''Tuesday, August 27, 2025, 5:00 PM PST''\<rparr>))"

definition legal_run ::
  "(string \<Rightarrow> byte list option) \<Rightarrow> run_env \<Rightarrow> (byte list \<Rightarrow> 'h) \<Rightarrow> float_repr
   \<Rightarrow> (py_error + ('h \<times> 'h legal_report) option) option"
where
  "legal_run fs env sha fr =
     (case process_wikipedia_complete fs legal_config_init of
        None \<Rightarrow> None
      | Some (Inl e) \<Rightarrow> Some (Inl e)
      | Some (Inr None) \<Rightarrow> Some (Inr None)
      | Some (Inr (Some w)) \<Rightarrow>
          (let r = legal_results_of env legal_config_init w
           in case generate_cryptographic_proof sha fr r of
                Inl e \<Rightarrow> Some (Inl e)
              | Inr (h, proof_data) \<Rightarrow>
                  (case generate_legal_documentation r h of
                     Inl e \<Rightarrow> Some (Inl e)
                   | Inr (reduction, report) \<Rightarrow> Some (Inr (Some (h, report))))))"

text \<open>A float rendering that gives every value a float literal, as \<open>float.__repr__\<close> does.\<close>

definition float_repr_ok :: "float_repr \<Rightarrow> bool" where
  "float_repr_ok fr \<longleftrightarrow> (\<forall>x. float_lit_ok (fr x))"

section \<open>The records as JSON\<close>

lemma of_char_lt_256: "(of_char c :: nat) < 256"
  by (metis of_char_mod_256 mod_less_divisor zero_less_numeral)

lemma is_scalar_of_char: "is_scalar (of_char c)"
proof -
  have "(of_char c :: nat) < 256"
    by (rule of_char_lt_256)
  then show ?thesis
    unfolding is_scalar_def is_surrogate_def by (intro conjI notI; linarith)
qed

lemma ascii_scalar: "list_all is_scalar (ascii s)"
  by (induction s) (simp_all add: ascii_def is_scalar_of_char)

lemma json_num_norm [simp]: "json_norm (json_num fr x) = json_num fr x"
  by (cases x) (simp_all add: json_num_def)

lemma json_num_wf: "float_repr_ok fr \<Longrightarrow> json_wf (json_num fr x)"
  by (cases x) (simp_all add: json_num_def float_repr_ok_def)

lemma proof_data_wf:
  "float_repr_ok fr \<Longrightarrow> list_all is_scalar (lr_timestamp r) \<Longrightarrow> json_wf (proof_data_json fr r)"
  by (simp add: proof_data_json_def json_num_wf ascii_scalar float_repr_ok_def)

lemma proof_data_norm:
  "json_norm (proof_data_json fr r) = JObj
     [(ascii ''blocks_per_second'', json_num fr (lr_blocks_per_second r)),
      (ascii ''blocks_processed'', JInt (int (lr_blocks_processed r))),
      (ascii ''elapsed_seconds'', JFloat (fr (lr_elapsed_seconds r))),
      (ascii ''file_size'', JInt (int (lr_file_size r))),
      (ascii ''performance_factor'', JFloat (fr (lr_performance_factor r))),
      (ascii ''timestamp'', JStr (lr_timestamp r)),
      (ascii ''unique_blocks'', JInt (int (lr_unique_blocks r)))]"
  by (simp add: proof_data_json_def ascii_def)

lemma proof_input_inj:
  assumes "float_repr_ok fr" and "list_all is_scalar (lr_timestamp r1)" and "list_all is_scalar (lr_timestamp r2)"
    and "py_str_encode (proof_json fr r1) = py_str_encode (proof_json fr r2)"
  shows "lr_timestamp r1 = lr_timestamp r2 \<and> lr_file_size r1 = lr_file_size r2
       \<and> lr_blocks_processed r1 = lr_blocks_processed r2 \<and> lr_unique_blocks r1 = lr_unique_blocks r2
       \<and> fr (lr_elapsed_seconds r1) = fr (lr_elapsed_seconds r2)
       \<and> json_num fr (lr_blocks_per_second r1) = json_num fr (lr_blocks_per_second r2)
       \<and> fr (lr_performance_factor r1) = fr (lr_performance_factor r2)"
proof -
  have "json_norm (proof_data_json fr r1) = json_norm (proof_data_json fr r2)"
    using assms(4) unfolding proof_json_def
    by (rule encode_json_inj [OF proof_data_wf [OF assms(1,2)] proof_data_wf [OF assms(1,3)]])
  then show ?thesis
    by (simp add: proof_data_norm)
qed

lemma config_json_wf: "float_repr_ok fr \<Longrightarrow> json_wf (config_json fr cfg)"
  by (simp add: config_json_def ascii_scalar float_repr_ok_def)

lemma session_data_wf:
  "float_repr_ok fr \<Longrightarrow> list_all is_scalar start \<Longrightarrow> list_all is_scalar seed
   \<Longrightarrow> json_wf (session_data_json fr start n cfg seed)"
  by (simp add: session_data_json_def ascii_scalar config_json_wf)

lemma session_data_norm:
  "json_norm (session_data_json fr start n cfg seed) = JObj
     [(ascii ''config'', json_norm (config_json fr cfg)),
      (ascii ''file'', JStr (ascii wikipedia_file)),
      (ascii ''file_size'', JInt (int n)),
      (ascii ''random_seed'', JStr seed),
      (ascii ''start_time'', JStr start)]"
  by (simp add: session_data_json_def ascii_def)

section \<open>Hashing and documentation\<close>

lemma generate_cryptographic_proof_ok:
  assumes "float_repr_ok fr" and "list_all is_scalar (lr_timestamp r)"
  shows "generate_cryptographic_proof sha fr r
         = Inr (sha (map byte_of_nat (proof_json fr r)), proof_data_json fr r)"
  using json_dumps_ascii [OF proof_data_wf [OF assms]]
  by (simp add: generate_cryptographic_proof_def proof_json_def py_str_encode_ascii)

lemma generate_legal_documentation_eq:
  "generate_legal_documentation r h =
     (if lr_performance_factor r = 0 then Inl ZeroDivisionError
      else Inr ((lr_performance_factor r - 1) / lr_performance_factor r * 100,
                \<lparr>rp_results = r, rp_proof_hash = h, rp_firms_contacted = firms,
                 rp_affected_companies = affected_companies,
                 rp_deadline = ''Tuesday, August 27, 2025, 5:00 PM PST''\<rparr>))"
  by (simp add: generate_legal_documentation_def py_div_def Let_def)

lemma performance_factor_zero_iff:
  "(lr_performance_factor (legal_results_of env cfg w) = 0)
   = (env_elapsed env \<le> 0 \<or> res_blocks_processed w = 0)"
  by (auto simp: legal_results_of_def Let_def py_num_val_def)

lemma legal_results_timestamp [simp]: "lr_timestamp (legal_results_of env cfg w) = env_timestamp env"
  by (simp add: legal_results_of_def Let_def)

lemma session_hash_ok:
  assumes "float_repr_ok fr" and "list_all is_scalar start" and "list_all is_scalar seed"
  shows "session_hash sha fr start n cfg seed
         = Inr (sha (map byte_of_nat (json_dumps (session_data_json fr start n cfg seed))))"
  using json_dumps_ascii [OF session_data_wf [OF assms]]
  by (simp add: session_hash_def py_str_encode_ascii)

lemma process_success_blocks_pos:
  assumes "process_wikipedia_complete fs legal_config_init = Some (Inr (Some w))"
  shows "0 < res_blocks_processed w"
proof -
  obtain mm st where "fs wikipedia_file = Some mm" "mm \<noteq> []"
    "run_pieces legal_config_init (chunks_of chunk_size mm) run_init = Inr st"
    and w: "w = final_results (length mm) st"
    and u: "0 < total_unique st" "total_unique st \<le> total_blocks st"
    by (rule process_success_run [OF assms])
  with u show ?thesis
    by (simp add: final_results_def)
qed

section \<open>Properties\<close>

text \<open>
  C15: Once the dump has been processed, \<open>run\<close> either crashes with the
  \<open>ZeroDivisionError\<close> of line 273 (the cost-reduction percentage divides by
  \<open>performance_factor\<close>) exactly when the measured elapsed time is not positive, since
  \<open>blocks_per_second\<close> is then the int 0; or it returns the SHA-256 of the proof record's
  JSON and the report dict.  Hashing never fails: the JSON text is ASCII.
\<close>

theorem legal_run_outcome:
  assumes "process_wikipedia_complete fs legal_config_init = Some (Inr (Some w))"
    and "float_repr_ok fr" and "list_all is_scalar (env_timestamp env)"
  shows "legal_run fs env sha fr =
     (if env_elapsed env \<le> 0 then Some (Inl ZeroDivisionError)
      else (let r = legal_results_of env legal_config_init w;
                h = sha (map byte_of_nat (proof_json fr r))
            in Some (Inr (Some (h, \<lparr>rp_results = r, rp_proof_hash = h, rp_firms_contacted = firms,
                   rp_affected_companies = affected_companies,
                   rp_deadline = ''Tuesday, August 27, 2025, 5:00 PM PST''\<rparr>)))))"
proof -
  let ?r = "legal_results_of env legal_config_init w"
  have pos: "0 < res_blocks_processed w"
    using assms(1) by (rule process_success_blocks_pos)
  have pf: "(lr_performance_factor ?r = 0) = (env_elapsed env \<le> 0)"
    using pos by (simp add: performance_factor_zero_iff)
  have gp: "generate_cryptographic_proof sha fr ?r
            = Inr (sha (map byte_of_nat (proof_json fr ?r)), proof_data_json fr ?r)"
    using assms(2,3) by (intro generate_cryptographic_proof_ok) simp_all
  show ?thesis
    using assms(1) gp pf by (simp add: legal_run_def generate_legal_documentation_eq Let_def)
qed

theorem legal_run_outcome_witness:
  "legal_run (\<lambda>_. Some [0x41, 0x42, 0x41])
     \<lparr>env_elapsed = 0, env_timestamp = ascii ''2025-08-26T17:00:00Z'', env_cpu = [], env_ram_gb = 16\<rparr>
     (\<lambda>bs. bs) (\<lambda>_. ascii ''0.0'')
   = Some (Inl ZeroDivisionError)"
proof -
  have "float_repr_ok (\<lambda>_. ascii ''0.0'')"
    by (simp add: float_repr_ok_def float_lit_ok_def is_numchar_def is_digit_def ascii_def)
  from legal_run_outcome [OF process_ABA this, of "\<lparr>env_elapsed = 0,
      env_timestamp = ascii ''2025-08-26T17:00:00Z'', env_cpu = [], env_ram_gb = 16\<rparr>" "\<lambda>bs. bs"]
  show ?thesis
    by (simp add: ascii_scalar)
qed

text \<open>
  C16: The bytes that \<open>generate_cryptographic_proof\<close> hashes (\<open>proof_json.encode()\<close>)
  differ for any two results with different timestamps: the "deterministic proof" of
  line 209 changes with the clock, so a rerun on the same dump never reproduces it
  (barring a SHA-256 collision).
\<close>

theorem proof_hash_input_timestamp:
  assumes "float_repr_ok fr" and "list_all is_scalar (lr_timestamp r1)"
    and "list_all is_scalar (lr_timestamp r2)" and "lr_timestamp r1 \<noteq> lr_timestamp r2"
  shows "py_str_encode (proof_json fr r1) \<noteq> py_str_encode (proof_json fr r2)"
  using proof_input_inj [OF assms(1-3)] assms(4) by blast

theorem proof_hash_input_timestamp_witness:
  "py_str_encode (proof_json (\<lambda>_. ascii ''1.0'') (legal_results_of
       \<lparr>env_elapsed = 1, env_timestamp = ascii ''2025-08-26T17:00:00Z'', env_cpu = [], env_ram_gb = 16\<rparr>
       legal_config_init \<lparr>res_file_size = 3, res_blocks_processed = 3, res_unique_blocks = 2,
         res_compression_ratio = 100 / 3\<rparr>))
   \<noteq> py_str_encode (proof_json (\<lambda>_. ascii ''1.0'') (legal_results_of
       \<lparr>env_elapsed = 1, env_timestamp = ascii ''2025-08-27T17:00:00Z'', env_cpu = [], env_ram_gb = 16\<rparr>
       legal_config_init \<lparr>res_file_size = 3, res_blocks_processed = 3, res_unique_blocks = 2,
         res_compression_ratio = 100 / 3\<rparr>))"
proof -
  have "float_repr_ok (\<lambda>_. ascii ''1.0'')"
    by (simp add: float_repr_ok_def float_lit_ok_def is_numchar_def is_digit_def ascii_def)
  then show ?thesis
    by (rule proof_hash_input_timestamp) (simp_all add: ascii_def is_scalar_def is_surrogate_def)
qed

text \<open>
  C17: The session hash of lines 63--72 is a hash over a fresh \<open>os.urandom(32)\<close> seed: two
  sessions that differ only in their seed hash different inputs, so the printed
  \<open>SESSION HASH\<close> identifies a run by its random seed, not by anything it processed.
\<close>

theorem session_hash_seed:
  assumes "float_repr_ok fr" and "list_all is_scalar start"
    and "list_all is_scalar s1" and "list_all is_scalar s2" and "s1 \<noteq> s2"
  shows "session_hash (\<lambda>bs. bs) fr start n cfg s1 \<noteq> session_hash (\<lambda>bs. bs) fr start n cfg s2"
proof
  assume "session_hash (\<lambda>bs. bs) fr start n cfg s1 = session_hash (\<lambda>bs. bs) fr start n cfg s2"
  then have "py_str_encode (json_dumps (session_data_json fr start n cfg s1))
             = py_str_encode (json_dumps (session_data_json fr start n cfg s2))"
    by (simp add: session_hash_def split: sum.splits)
  then have "json_norm (session_data_json fr start n cfg s1) = json_norm (session_data_json fr start n cfg s2)"
    by (rule encode_json_inj [OF session_data_wf [OF assms(1-3)] session_data_wf [OF assms(1,2,4)]])
  with assms(5) show False
    by (simp add: session_data_norm)
qed

theorem session_hash_seed_witness:
  "session_hash (\<lambda>bs. bs) (\<lambda>_. ascii ''0.01'') (ascii ''2025-08-26T17:00:00Z'') 3 legal_config_init
     (ascii ''00ff'')
   \<noteq> session_hash (\<lambda>bs. bs) (\<lambda>_. ascii ''0.01'') (ascii ''2025-08-26T17:00:00Z'') 3 legal_config_init
     (ascii ''01ff'')"
proof -
  have "float_repr_ok (\<lambda>_. ascii ''0.01'')"
    by (simp add: float_repr_ok_def float_lit_ok_def is_numchar_def is_digit_def ascii_def)
  then show ?thesis
    by (rule session_hash_seed) (simp_all add: ascii_def is_scalar_def is_surrogate_def)
qed

end
