(* ===== verification/Env.thy ===== *)
theory Env
  imports Json
begin

text \<open>
  The two helper scripts.
  \<^item> \<open>verify_environment.py\<close>, \<open>verify()\<close> (lines 6--25): print a header, then for each
    size 10, 15, 25 test whether \<open>wikipedia_{size}gb.json\<close> exists with
    \<open>os.path.exists\<close>, then try to import \<open>architect_system\<close>, then print two closing
    lines.  A name in a function body is looked up in the module's globals and then in
    the builtins (\<open>py_lookup\<close>); the module binds only \<open>verify\<close> (it has no
    \<open>import os\<close>), so the model takes the globals as a parameter and
    \<open>verify_environment_globals\<close> is the module's own.  The file system is the predicate
    \<open>exists\<close> and the importability of \<open>architect_system\<close> a boolean.  Printed lines are
    \<open>pystr\<close>s (\<open>0x2713\<close> and \<open>0x2717\<close> are the check and cross marks).
  \<^item> \<open>download_test_data.py\<close>, \<open>download_wikipedia(size_gb)\<close> (lines 7--11): build the
    URL, print one line, and return: the download and the conversion to JSON its comment
    announces are not in the code, so the file system is returned unchanged.
\<close>

section \<open>Definitions\<close>

definition py_builtins :: "string set" where
  "py_builtins = {''print'', ''ImportError'', ''__import__''}"

definition py_lookup :: "string set \<Rightarrow> string \<Rightarrow> py_error + unit" where
  "py_lookup globals name =
     (if name \<in> globals \<or> name \<in> py_builtins then Inr () else Inl NameError)"

definition verify_environment_globals :: "string set" where
  "verify_environment_globals = {''verify''}"

definition wiki_file_name :: "int \<Rightarrow> pystr" where
  "wiki_file_name sz = ascii ''wikipedia_'' @ int_repr sz @ ascii ''gb.json''"

fun verify_files :: "string set \<Rightarrow> (pystr \<Rightarrow> bool) \<Rightarrow> int list \<Rightarrow> pystr list \<Rightarrow> pystr list \<times> (py_error + unit)" where
  "verify_files globals exists [] out = (out, Inr ())"
| "verify_files globals exists (sz # sizes) out =
     (let file = wiki_file_name sz
      in case py_lookup globals ''os'' of
           Inl e \<Rightarrow> (out, Inl e)
         | Inr _ \<Rightarrow>
             verify_files globals exists sizes
               (out @ [if exists file then [0x2713, 0x20] @ file @ ascii '' found''
                       else [0x2717, 0x20] @ file @ ascii '' missing - run download_test_data.py'']))"

definition verify :: "string set \<Rightarrow> (pystr \<Rightarrow> bool) \<Rightarrow> bool \<Rightarrow> pystr list \<times> (py_error + unit)" where
  "verify globals exists importable =
     (case verify_files globals exists [10, 15, 25] [ascii ''Checking test environment...''] of
        (out, Inl e) \<Rightarrow> (out, Inl e)
      | (out, Inr _) \<Rightarrow>
          (out @ [if importable then [0x2713, 0x20] @ ascii ''architect_system found (HOW?!)''
                  else [0x2717, 0x20] @ ascii ''architect_system not found (expected - it's private)'',
                  [10] @ ascii ''You can run the tests but they'll fail at the import.'',
                  ascii ''That's the point - the tests are real, the system is private.''],
           Inr ()))"

definition download_wikipedia :: "int \<Rightarrow> (pystr \<Rightarrow> bool) \<Rightarrow> pystr \<times> pystr list \<times> (pystr \<Rightarrow> bool)" where
  "download_wikipedia size_gb exists =
     (let url = ascii ''https://dumps.wikimedia.org/subset_'' @ int_repr size_gb @ ascii ''gb.xml''
      in (url, [ascii ''Downloading '' @ int_repr size_gb @ ascii ''GB test set...''], exists))"

section \<open>Behaviour\<close>

lemma verify_files_unbound:
  "py_lookup globals ''os'' = Inl NameError \<Longrightarrow> sizes \<noteq> [] \<Longrightarrow>
   verify_files globals exists sizes out = (out, Inl NameError)"
  by (cases sizes) (simp_all add: Let_def)

section \<open>Properties\<close>

text \<open>
  C19: \<open>verify()\<close> as the module defines it always stops with a \<open>NameError\<close> right
  after its header line, whatever the file system holds and whether
  \<open>architect_system\<close> can be imported: \<open>os\<close> is never imported.
\<close>

theorem verify_name_error:
  "verify verify_environment_globals exists importable
   = ([ascii ''Checking test environment...''], Inl NameError)"
proof -
  have "py_lookup verify_environment_globals ''os'' = Inl NameError"
    by (simp add: py_lookup_def verify_environment_globals_def py_builtins_def)
  then show ?thesis
    by (simp add: verify_def verify_files_unbound)
qed

end
