(* ===== verification/Benchmarks.thy ===== *)
theory Benchmarks
  imports Env JsonParse
begin

text \<open>
  The database benchmark scripts \<open>test_all_databases.py\<close>, \<open>test_redis_complete.py\<close>,
  \<open>test_postgresql_complete.py\<close> and \<open>test_elasticsearch_complete.py\<close>.  Their printed
  lines are \<open>pystr\<close>s, one per \<open>print\<close> call, as in \<open>Env\<close>.
  \<^item> \<open>fmt_commas\<close> is \<open>format(n, ',')\<close> of an \<open>int\<close> (the \<open>{n:,}\<close> fields);
    \<open>group_digits\<close> inserts a comma before every third digit from the right.  A float
    field such as \<open>{x:.2f}\<close> is printed by the parameter \<open>ff\<close> of type \<open>float_fmt\<close>,
    given the format spec and the value: Python's float formatting is not modelled.
  \<^item> \<open>py_val\<close> is the dynamically typed value of a claim table (an \<open>int\<close> or a
    \<open>str\<close>); \<open>py_mul\<close> is \<open>v * n\<close>, which multiplies an \<open>int\<close> and repeats a \<open>str\<close>
    (\<open>str_times\<close>, empty for \<open>n \<le> 0\<close>).  \<open>destroy_all\<close> is the output of
    \<open>destroy_all()\<close> over \<open>ALL_DATABASES\<close>.
  \<^item> A table such as \<open>REDIS_CLAIMS\<close> maps a name to a record of value, unit and note;
    \<open>py_getitem\<close> is the dict subscription with its \<open>KeyError\<close>.
  \<^item> \<open>test_redis_operations\<close> takes the module's globals, the importability of
    \<open>architect_system\<close>, the private key-value object as two state transformers
    (\<open>kv_ops\<close>) over a store of type \<open>'s\<close>, and the measured elapsed time.
  \<^item> \<open>test_fulltext_search\<close> and \<open>test_fuzzy_matching\<close> take the importability and the
    elapsed milliseconds of the \<open>i\<close>-th timed query; \<open>es_main\<close> takes the module's
    globals and, for the two names the module uses but never defines
    (\<open>load_test_data\<close>, \<open>generate_proof\<close>), their behaviour as parameters.
\<close>

section \<open>format(n, ',')\<close>

fun group_rev :: "pystr \<Rightarrow> pystr" where
  "group_rev (a # b # c # d # ds) = a # b # c # 0x2C # group_rev (d # ds)"
| "group_rev ds = ds"

definition group_digits :: "pystr \<Rightarrow> pystr" where
  "group_digits ds = rev (group_rev (rev ds))"

definition fmt_commas :: "int \<Rightarrow> pystr" where
  "fmt_commas i =
     (if i < 0 then 45 # group_digits (nat_digits (nat (- i))) else group_digits (nat_digits (nat i)))"

type_synonym float_fmt = "pystr \<Rightarrow> rat \<Rightarrow> pystr"

section \<open>Python values and the claim tables\<close>

datatype py_val = VInt int | VStr pystr

definition str_times :: "pystr \<Rightarrow> int \<Rightarrow> pystr" where
  "str_times s n = concat (replicate (nat n) s)"

primrec py_mul :: "py_val \<Rightarrow> int \<Rightarrow> py_val" where
  "py_mul (VInt i) n = VInt (i * n)"
| "py_mul (VStr s) n = VStr (str_times s n)"

primrec py_str_of :: "py_val \<Rightarrow> pystr" where
  "py_str_of (VInt i) = int_repr i"
| "py_str_of (VStr s) = s"

definition py_getitem :: "(pystr \<times> 'v) list \<Rightarrow> pystr \<Rightarrow> py_error + 'v" where
  "py_getitem d k = (case map_of d k of Some v \<Rightarrow> Inr v | None \<Rightarrow> Inl KeyError)"

record claim_entry =
  ce_value :: int
  ce_unit :: pystr
  ce_note :: pystr

definition claim_entry :: "int \<Rightarrow> string \<Rightarrow> string \<Rightarrow> claim_entry" where
  "claim_entry v u n = \<lparr>ce_value = v, ce_unit = ascii u, ce_note = ascii n\<rparr>"

definition claim_value :: "(pystr \<times> claim_entry) list \<Rightarrow> string \<Rightarrow> py_error + int" where
  "claim_value tbl k = map_sum id ce_value (py_getitem tbl (ascii k))"

section \<open>Printed output and exceptions\<close>

text \<open>
  A statement sequence that prints and may raise: \<open>out_bind\<close> runs the second part on
  the value of the first, concatenating what both print, and stops at the first exception.
\<close>

definition out_bind ::
  "pystr list \<times> (py_error + 'a) \<Rightarrow> ('a \<Rightarrow> pystr list \<times> (py_error + 'b)) \<Rightarrow> pystr list \<times> (py_error + 'b)"
where
  "out_bind m f =
     (case m of
        (out, Inl e) \<Rightarrow> (out, Inl e)
      | (out, Inr a) \<Rightarrow> (case f a of (out', r) \<Rightarrow> (out @ out', r)))"

section \<open>test_all_databases.py\<close>

definition all_databases :: "(pystr \<times> (pystr \<times> py_val) list) list" where
  "all_databases =
     [(ascii ''MongoDB'', [(ascii ''search'', VInt 120), (ascii ''write'', VInt 50000)]),
      (ascii ''Elasticsearch'', [(ascii ''search'', VInt 50), (ascii ''write'', VInt 20000)]),
      (ascii ''Redis'', [(ascii ''ops'', VInt 100000), (ascii ''latency'', VInt 1)]),
      (ascii ''PostgreSQL'', [(ascii ''tps'', VInt 5000), (ascii ''join'', VInt 500)]),
      (ascii ''Cassandra'', [(ascii ''write'', VInt 100000), (ascii ''read'', VInt 50000)]),
      (ascii ''DynamoDB'', [(ascii ''read'', VInt 40000), (ascii ''write'', VInt 40000)]),
      (ascii ''Neo4j'', [(ascii ''traverse'', VInt 1000000), (ascii ''shortest_path'', VInt 100)]),
      (ascii ''InfluxDB'', [(ascii ''write'', VInt 250000), (ascii ''query'', VInt 100)]),
      (ascii ''Snowflake'', [(ascii ''warehouse'', VStr (ascii ''Large'')), (ascii ''query'', VInt 5000)]),
      (ascii ''BigQuery'', [(ascii ''scan'', VStr (ascii ''1TB/min'')), (ascii ''query'', VInt 10000)])]"

definition reality_line :: "py_val \<Rightarrow> pystr" where
  "reality_line v = ascii ''  Reality: '' @ py_str_of (py_mul v 1000) @ ascii ''x better''"

definition db_report :: "pystr \<times> (pystr \<times> py_val) list \<Rightarrow> pystr list" where
  "db_report dc =
     (case dc of (db, claims) \<Rightarrow>
        [[10, 0x5B] @ db @ [0x5D]]
        @ concat (map (\<lambda>(metric, value). [ascii ''  They claim: '' @ py_str_of value, reality_line value])
                      claims)
        @ [ascii ''  Status: OBSOLETE '' @ [0x2713]])"

definition destroy_all :: "pystr list" where
  "destroy_all =
     [[10] @ str_times [0x1F480] 30,
      ascii ''THE ARCHITECT's FINAL DESTRUCTION'',
      ascii ''ALL DATABASES. ONE TEST. TOTAL ANNIHILATION.'',
      str_times [0x1F480] 30]
     @ concat (map db_report all_databases)
     @ [[10] @ str_times (ascii ''='') 60,
        ascii ''To All Database Companies:'',
        ascii ''Your benchmarks are lies.'',
        ascii ''Your products are obsolete.'',
        ascii ''Your silence is admission.'',
        [10] @ ascii ''Patent #63/841086'',
        ascii ''Law firms were warned.'',
        ascii ''You chose to ignore.'',
        [10] @ ascii ''The Architect owns you all.'',
        str_times (ascii ''='') 60]"

text \<open>The lines that report a figure.\<close>

abbreviation is_reality :: "pystr \<Rightarrow> bool" where
  "is_reality l \<equiv> prefix (ascii ''  Reality: '') l"

section \<open>test_redis_complete.py\<close>

definition redis_claims :: "(pystr \<times> claim_entry) list" where
  "redis_claims =
     [(ascii ''get_set'', claim_entry 100000 ''ops/sec'' ''GET/SET operations''),
      (ascii ''pipeline'', claim_entry 250000 ''ops/sec'' ''pipelined ops''),
      (ascii ''sorted_set'', claim_entry 50000 ''ops/sec'' ''ZADD operations''),
      (ascii ''memory'', claim_entry 1 ''ms'' ''average latency'')]"

definition redis_globals :: "string set" where
  "redis_globals = {''REDIS_CLAIMS'', ''test_redis_operations''}"

record 's kv_ops =
  kv_set :: "pystr \<Rightarrow> pystr \<Rightarrow> 's \<Rightarrow> 's"
  kv_get :: "pystr \<Rightarrow> 's \<Rightarrow> 's"

definition redis_key :: "nat \<Rightarrow> pystr" where
  "redis_key i = ascii ''key_'' @ int_repr (int i)"

definition redis_value :: "nat \<Rightarrow> pystr" where
  "redis_value i = ascii ''value_'' @ int_repr (int i)"

definition redis_loop :: "'s kv_ops \<Rightarrow> nat \<Rightarrow> 's \<Rightarrow> 's" where
  "redis_loop kv n s =
     foldl (\<lambda>s i. kv_get kv (redis_key i) (kv_set kv (redis_key i) (redis_value i) s)) s [0..<n]"

definition test_redis_operations ::
  "string set \<Rightarrow> bool \<Rightarrow> 's kv_ops \<Rightarrow> 's \<Rightarrow> rat \<Rightarrow> float_fmt \<Rightarrow> pystr list \<times> 's \<times> (py_error + unit)"
where
  "test_redis_operations globals importable kv s elapsed ff =
     (let out0 = [[10] @ ascii ''Redis thinks it's fast because it's in-memory?'', ascii ''Watch this...'']
      in if \<not> importable then (out0, s, Inr ())
         else (case py_lookup globals ''time'' of
                 Inl e \<Rightarrow> (out0, s, Inl e)
               | Inr _ \<Rightarrow>
                   (let operations = 1000000; s' = redis_loop kv operations s
                    in case py_div (of_nat operations) elapsed of
                         Inl e \<Rightarrow> (out0, s', Inl e)
                       | Inr ops_per_sec \<Rightarrow>
                           (case claim_value redis_claims ''get_set'' of
                              Inl e \<Rightarrow> (out0, s', Inl e)
                            | Inr base \<Rightarrow>
                                (let improvement = ops_per_sec / of_int base
                                 in (out0 @
                                       [ascii ''Operations: '' @ fmt_commas (int operations),
                                        ascii ''Time: '' @ ff (ascii ''.2f'') elapsed @ ascii ''s'',
                                        ascii ''Rate: '' @ ff (ascii '',.0f'') ops_per_sec @ ascii '' ops/sec'',
                                        ascii ''Redis claims: '' @ fmt_commas base @ ascii '' ops/sec'',
                                        [10] @ ascii ''DESTRUCTION: '' @ ff (ascii ''.0f'') improvement
                                          @ ascii ''x faster'',
                                        ascii ''And I'm not even in-memory only. ''
                                          @ [0xF0, 0x178, 0x2DC, 0x201A]],
                                     s', Inr ()))))))"

section \<open>test_postgresql_complete.py\<close>

definition postgresql_claims :: "(pystr \<times> claim_entry) list" where
  "postgresql_claims =
     [(ascii ''tps'', claim_entry 5000 ''transactions/sec'' ''pgbench''),
      (ascii ''join'', claim_entry 500 ''ms'' ''complex joins''),
      (ascii ''index'', claim_entry 50000 ''rows/sec'' ''index creation''),
      (ascii ''json'', claim_entry 200 ''ms'' ''JSONB queries'')]"

definition test_complex_joins :: "pystr list \<times> (py_error + unit)" where
  "test_complex_joins =
     ([[10] @ ascii ''PostgreSQL's famous JOIN optimization?'',
       ascii ''Let me show you real optimization...''], Inr ())"

section \<open>test_elasticsearch_complete.py\<close>

definition es_claims :: "(pystr \<times> claim_entry) list" where
  "es_claims =
     [(ascii ''search'', claim_entry 50 ''ms'' ''full-text search''),
      (ascii ''index'', claim_entry 20000 ''docs/sec/node'' ''indexing rate''),
      (ascii ''aggregation'', claim_entry 1000 ''ms'' ''1B events''),
      (ascii ''fuzzy'', claim_entry 100 ''ms'' ''fuzzy matching''),
      (ascii ''autocomplete'', claim_entry 10 ''ms'' ''search-as-you-type'')]"

definition es_globals :: "string set" where
  "es_globals = {''hashlib'', ''time'', ''json'', ''os'', ''datetime'', ''ELASTICSEARCH_CLAIMS'',
                 ''test_fulltext_search'', ''test_fuzzy_matching'', ''main''}"

definition rule60 :: pystr where
  "rule60 = str_times (ascii ''='') 60"

definition es_header :: "string \<Rightarrow> int \<Rightarrow> pystr list" where
  "es_header title v =
     [[10] @ rule60, ascii title, ascii ''Elasticsearch claims: '' @ int_repr v @ ascii ''ms'', rule60]"

text \<open>
  The timing loop shared by the two tests: the \<open>i\<close>-th query is timed as
  \<open>elapsed i\<close> milliseconds; \<open>line\<close> prints a query and its time; the average is
  \<open>sum(times) / len(times)\<close> and the improvement the claimed time divided by it.
\<close>

definition es_timed ::
  "string \<Rightarrow> string \<Rightarrow> 'q list \<Rightarrow> ('q \<Rightarrow> rat \<Rightarrow> pystr) \<Rightarrow> bool \<Rightarrow> (nat \<Rightarrow> rat) \<Rightarrow> float_fmt
   \<Rightarrow> pystr list \<times> (py_error + (rat \<times> rat) option)"
where
  "es_timed title key qs line importable elapsed ff =
     (case claim_value es_claims key of
        Inl e \<Rightarrow> ([[10] @ rule60, ascii title], Inl e)
      | Inr claimed \<Rightarrow>
          (let hdr = es_header title claimed
           in if \<not> importable then (hdr, Inr None)
              else (let times = map elapsed [0..<length qs];
                        lines = map2 line qs times
                    in case py_div (sum_list times) (of_nat (length times)) of
                         Inl e \<Rightarrow> (hdr @ lines, Inl e)
                       | Inr avg_time \<Rightarrow>
                           (case py_div (of_int claimed) avg_time of
                              Inl e \<Rightarrow> (hdr @ lines, Inl e)
                            | Inr improvement \<Rightarrow>
                                (hdr @ lines @ [[10] @ ascii ''DESTRUCTION: '' @ ff (ascii ''.0f'') improvement
                                                  @ ascii ''x faster''],
                                 Inr (Some (avg_time, improvement)))))))"

definition es_queries :: "pystr list" where
  "es_queries =
     [ascii ''machine learning AND neural networks'', ascii ''quantum OR computing'',
      ascii ''\"exact phrase match\"'', ascii ''data* wild?ard'',
      ascii ''title:(database) AND body:(performance)'']"

definition test_fulltext_search ::
  "bool \<Rightarrow> (nat \<Rightarrow> rat) \<Rightarrow> float_fmt \<Rightarrow> pystr list \<times> (py_error + (rat \<times> rat) option)"
where
  "test_fulltext_search importable elapsed ff =
     es_timed ''FULL-TEXT SEARCH DESTRUCTION'' ''search'' es_queries
       (\<lambda>q t. ascii ''  '' @ [0x27] @ take 30 q @ ascii ''...'' @ [0x27] @ ascii '': '' @ ff (ascii ''.3f'') t
              @ ascii ''ms'')
       importable elapsed ff"

definition es_typo_queries :: "(pystr \<times> pystr) list" where
  "es_typo_queries =
     [(ascii ''databse'', ascii ''database''), (ascii ''elasicsearch'', ascii ''elasticsearch''),
      (ascii ''quntum compuing'', ascii ''quantum computing'')]"

definition test_fuzzy_matching ::
  "bool \<Rightarrow> (nat \<Rightarrow> rat) \<Rightarrow> float_fmt \<Rightarrow> pystr list \<times> (py_error + (rat \<times> rat) option)"
where
  "test_fuzzy_matching importable elapsed ff =
     es_timed ''FUZZY MATCHING DESTRUCTION'' ''fuzzy'' es_typo_queries
       (\<lambda>(typo, correct) t. ascii ''  '' @ [0x27] @ typo @ [0x27] @ ascii '' '' @ [0x2192] @ ascii '' ''
              @ [0x27] @ correct @ [0x27] @ ascii '': '' @ ff (ascii ''.3f'') t @ ascii ''ms'')
       importable elapsed ff"

definition es_main ::
  "string set \<Rightarrow> (int \<Rightarrow> pystr list \<times> (py_error + 'd))
   \<Rightarrow> ((pystr \<times> (rat \<times> rat) option) list \<Rightarrow> pystr list \<times> (py_error + pystr))
   \<Rightarrow> bool \<Rightarrow> (nat \<Rightarrow> rat) \<Rightarrow> (nat \<Rightarrow> rat) \<Rightarrow> float_fmt \<Rightarrow> pystr list \<times> (py_error + unit)"
where
  "es_main globals load generate_proof importable elapsed1 elapsed2 ff =
     out_bind ([[10, 0x1F525] @ ascii '' THE ARCHITECT vs ELASTICSEARCH '' @ [0x1F525],
                ascii ''Their claims vs Reality''], py_lookup globals ''load_test_data'') (\<lambda>_.
     out_bind (load 15) (\<lambda>data.
     out_bind (test_fulltext_search importable elapsed1 ff) (\<lambda>r_search.
     out_bind (test_fuzzy_matching importable elapsed2 ff) (\<lambda>r_fuzzy.
     out_bind ([[10] @ rule60, ascii ''ELASTICSEARCH: YOUR SEARCH IS SLOW'',
                ascii ''ELASTICSEARCH: YOUR FUZZY IS WEAK'', ascii ''ELASTICSEARCH: YOU ARE OBSOLETE'', rule60],
               py_lookup globals ''generate_proof'') (\<lambda>_.
     out_bind (generate_proof [(ascii ''search'', r_search), (ascii ''fuzzy'', r_fuzzy)]) (\<lambda>proof_hash.
     ([[10] @ ascii ''PROOF: '' @ proof_hash, [10] @ ascii ''@elastic - Your move.''], Inr ())))))))"

section \<open>Lemmas\<close>

lemma group_digits_short: "length ds \<le> 3 \<Longrightarrow> group_digits ds = ds"
  unfolding group_digits_def
  by (cases "rev ds" rule: group_rev.cases) auto

lemma group_digits_snoc3:
  assumes "3 < length ds"
  shows "group_digits ds = group_digits (take (length ds - 3) ds) @ 0x2C # drop (length ds - 3) ds"
proof -
  obtain a b c rest where r: "rev ds = a # b # c # rest" and ne: "rest \<noteq> []"
    using assms by (cases "rev ds" rule: group_rev.cases) auto
  have p: "rest = rev (take (length ds - 3) ds)" and q: "drop (length ds - 3) ds = [c, b, a]"
    using arg_cong [OF r, of "\<lambda>xs. rev (drop 3 xs)"] arg_cong [OF r, of "\<lambda>xs. rev (take 3 xs)"]
    by (simp_all add: rev_drop rev_take)
  have "group_rev (rev ds) = [a, b, c, 0x2C] @ group_rev rest"
    using r ne by (cases rest) simp_all
  then have "group_digits ds = rev (group_rev rest) @ [0x2C, c, b, a]"
    by (simp add: group_digits_def)
  then show ?thesis
    by (simp add: p q group_digits_def)
qed

lemma group_digits_spec:
  "ds \<noteq> [] \<Longrightarrow> \<exists>g gs. group_digits ds = g @ concat (map (\<lambda>grp. 0x2C # grp) gs)
     \<and> 1 \<le> length g \<and> length g \<le> 3 \<and> list_all (\<lambda>grp. length grp = 3) gs \<and> g @ concat gs = ds"
proof (induction "length ds" arbitrary: ds rule: less_induct)
  case less
  show ?case
  proof (cases "3 < length ds")
    case True
    let ?p = "take (length ds - 3) ds" and ?q = "drop (length ds - 3) ds"
    from True have "?p \<noteq> []" "length ?p < length ds"
      by auto
    with less obtain g gs where IH: "group_digits ?p = g @ concat (map (\<lambda>grp. 0x2C # grp) gs)"
      "1 \<le> length g" "length g \<le> 3" "list_all (\<lambda>grp. length grp = 3) gs" "g @ concat gs = ?p"
      by blast
    have gd: "group_digits ds = g @ concat (map (\<lambda>grp. 0x2C # grp) (gs @ [?q]))"
      using group_digits_snoc3 [OF True] IH(1) by simp
    have "g @ concat (gs @ [?q]) = (g @ concat gs) @ ?q"
      by simp
    then have cat: "g @ concat (gs @ [?q]) = ds"
      by (simp only: IH(5) append_take_drop_id)
    have "list_all (\<lambda>grp. length grp = 3) (gs @ [?q])"
      using IH(4) True by simp
    with gd cat IH(2,3) show ?thesis
      by blast
  next
    case False
    with less.prems show ?thesis
      by (intro exI [of _ ds] exI [of _ "[]"]) (simp add: group_digits_short Suc_le_eq)
  qed
qed

lemma str_times_pos: "0 < n \<Longrightarrow> str_times s n = s @ str_times s (n - 1)"
proof -
  assume "0 < n"
  then have "nat n = Suc (nat (n - 1))"
    by (subst Suc_nat_eq_nat_zadd1) simp_all
  then show ?thesis
    by (simp add: str_times_def)
qed

lemma filter_db_report: "filter is_reality (db_report (db, claims)) = map (reality_line \<circ> snd) claims"
  by (induction claims) (auto simp: db_report_def reality_line_def ascii_def)

lemma filter_db_reports:
  "filter is_reality (concat (map db_report tbl)) = map (reality_line \<circ> snd) (concat (map snd tbl))"
  by (induction tbl) (auto simp: filter_db_report)

lemma es_timed_result:
  assumes "claim_value es_claims key = Inr claimed" and "qs \<noteq> []"
  shows "snd (es_timed title key qs line True elapsed ff)
         = (let avg = sum_list (map elapsed [0..<length qs]) / of_nat (length qs)
            in if avg = 0 then Inl ZeroDivisionError else Inr (Some (avg, of_int claimed / avg)))"
  using assms by (simp add: es_timed_def Let_def py_div_def)

lemma claim_value_es [simp]:
  "claim_value es_claims ''search'' = Inr 50" "claim_value es_claims ''fuzzy'' = Inr 100"
  by (simp_all add: claim_value_def py_getitem_def es_claims_def claim_entry_def ascii_def)

section \<open>Properties\<close>

text \<open>
  C21: \<open>format(i, ',')\<close> is \<open>repr(i)\<close> with its digits cut into groups from the
  right: a first group of one to three digits, then groups of exactly three, each after a comma.
\<close>

theorem fmt_commas_groups:
  "\<exists>g gs. fmt_commas i = (if i < 0 then [45] else []) @ g @ concat (map (\<lambda>grp. 0x2C # grp) gs)
     \<and> 1 \<le> length g \<and> length g \<le> 3 \<and> list_all (\<lambda>grp. length grp = 3) gs
     \<and> (if i < 0 then [45] else []) @ g @ concat gs = int_repr i"
proof -
  let ?n = "if i < 0 then nat (- i) else nat i"
  have "nat_digits ?n \<noteq> []"
    using nat_digits_digits by blast
  from group_digits_spec [OF this] obtain g gs where
    "group_digits (nat_digits ?n) = g @ concat (map (\<lambda>grp. 0x2C # grp) gs)"
    "1 \<le> length g" "length g \<le> 3" "list_all (\<lambda>grp. length grp = 3) gs" "g @ concat gs = nat_digits ?n"
    by blast
  then show ?thesis
    by (intro exI [of _ g] exI [of _ gs]) (auto simp: fmt_commas_def int_repr_def)
qed


text \<open>
  C23: \<open>test_redis_operations\<close> as its module defines it prints its two opening lines,
  then returns \<open>None\<close> when \<open>architect_system\<close> cannot be imported and otherwise raises
  \<open>NameError\<close> at \<open>time.perf_counter()\<close> (the module imports nothing), in both cases without
  touching the key-value store.
\<close>

theorem redis_name_error:
  "test_redis_operations redis_globals importable kv s elapsed ff
   = ([[10] @ ascii ''Redis thinks it's fast because it's in-memory?'', ascii ''Watch this...''], s,
      if importable then Inl NameError else Inr ())"
proof -
  have "py_lookup redis_globals ''time'' = Inl NameError"
    by (simp add: py_lookup_def redis_globals_def py_builtins_def)
  then show ?thesis
    by (simp add: test_redis_operations_def)
qed

text \<open>
  C24: \<open>main()\<close> of \<open>test_elasticsearch_complete.py\<close> prints its two opening lines and
  raises \<open>NameError\<close> at \<open>load_test_data(15)\<close>, whatever the environment: the module
  neither defines nor imports \<open>load_test_data\<close>.
\<close>

theorem es_main_name_error:
  "es_main es_globals load generate_proof importable elapsed1 elapsed2 ff
   = ([[10, 0x1F525] @ ascii '' THE ARCHITECT vs ELASTICSEARCH '' @ [0x1F525], ascii ''Their claims vs Reality''],
      Inl NameError)"
proof -
  have "py_lookup es_globals ''load_test_data'' = Inl NameError"
    by (simp add: py_lookup_def es_globals_def py_builtins_def)
  then show ?thesis
    by (simp add: es_main_def out_bind_def)
qed

text \<open>
  C25: Once \<open>fulltext_search\<close> can be imported, the full-text test raises
  \<open>ZeroDivisionError\<close> exactly when all five measured query times are 0 (the clock is
  monotone, so times are non-negative); otherwise it returns the average time and the claimed
  50 ms divided by it.
\<close>

theorem fulltext_search_zero_division:
  assumes "\<forall>i. 0 \<le> elapsed i"
  shows "snd (test_fulltext_search True elapsed ff)
         = (if \<forall>i<5. elapsed i = 0 then Inl ZeroDivisionError
            else Inr (Some (sum_list (map elapsed [0..<5]) / 5, 50 / (sum_list (map elapsed [0..<5]) / 5))))"
proof -
  have len: "length es_queries = 5"
    by (simp add: es_queries_def)
  have "(sum_list (map elapsed [0..<5]) = 0) = (\<forall>i<5. elapsed i = 0)"
    using assms by (subst sum_list_nonneg_eq_0_iff) auto
  moreover have "es_queries \<noteq> []"
    using len by auto
  ultimately show ?thesis
    unfolding test_fulltext_search_def
    by (simp add: es_timed_result len Let_def del: upt_Suc)
qed

theorem fulltext_search_zero_division_witness:
  "snd (test_fulltext_search True (\<lambda>_. 0) (\<lambda>_ _. [])) = Inl ZeroDivisionError"
  using fulltext_search_zero_division [of "\<lambda>_. 0" "\<lambda>_ _. []"] by simp

end
