(* ===== verification/JsonLoad.thy ===== *)
theory JsonLoad
  imports JsonParse "HOL-Library.AList"
begin

text \<open>
  \<open>json.loads(s)\<close> (and \<open>json.load(f)\<close>, which is \<open>json.loads(f.read())\<close>) as CPython runs
  it with the C scanner of \<open>Modules/_json.c\<close> (\<open>scan_once_unicode\<close>,
  \<open>_parse_object_unicode\<close>, \<open>_parse_array_unicode\<close>, \<open>_match_number_unicode\<close>,
  \<open>scanstring_unicode\<close> with \<open>strict=True\<close>) and \<open>JSONDecoder.decode\<close>:
  \<^item> whitespace is \<open>' '\<close>, \<open>'\t'\<close>, \<open>'\n'\<close>, \<open>'\r'\<close> (\<open>is_ws\<close>); \<open>decode\<close> skips it
    before and after the value and raises on anything left (\<open>"Extra data"\<close>);
  \<^item> strings are \<open>parse_chars\<close> of \<open>JsonParse\<close>, which is \<open>scanstring_unicode\<close>: the
    escapes, \<open>\uXXXX\<close> with a following low surrogate joined to a pair, raw control
    characters refused;
  \<^item> numbers follow \<open>-?(0|[1-9][0-9]*)(\.[0-9]+)?([eE][-+]?[0-9]+)?\<close>, longest match with
    backtracking of a fraction or exponent without digits (\<open>scan_number\<close>); an integer
    with more than 4300 digits raises \<open>ValueError\<close> (\<open>sys.int_info.default_max_str_digits\<close>);
    a float literal becomes \<open>float(literal)\<close>, which the model carries as the text
    \<open>json.dumps\<close> prints for it, given by the parameter \<open>flt\<close>;
    \<open>NaN\<close>, \<open>Infinity\<close>, \<open>-Infinity\<close> are the three constants;
  \<^item> a JSON object becomes a \<open>dict\<close> (\<open>py_dict\<close>): a repeated key keeps the position of
    its first occurrence and the value of its last, as \<open>dict(pairs)\<close> does;
  \<^item> every syntax error is \<open>JSONDecodeError\<close>.
  The scanner is mutually recursive and each call consumes input, which is how CPython's
  recursion ends; the model gives it fuel, returns \<open>None\<close> only when the fuel runs out,
  and \<open>json_loads\<close> gives twice the length of the input plus one, which
  \<open>scan_fuel\<close> shows is always enough (C27).  Python's recursion limit on deeply nested
  input is not modelled.
\<close>

section \<open>Definitions\<close>

type_synonym float_of_text = "pystr \<Rightarrow> pystr"

definition is_ws :: "codepoint \<Rightarrow> bool" where
  "is_ws c \<longleftrightarrow> c = 0x20 \<or> c = 0x09 \<or> c = 0x0A \<or> c = 0x0D"

abbreviation skip_ws :: "pystr \<Rightarrow> pystr" where
  "skip_ws s \<equiv> dropWhile is_ws s"

definition scan_frac :: "pystr \<Rightarrow> pystr \<times> pystr" where
  "scan_frac r =
     (case r of
        c # d # _ \<Rightarrow>
          if c = 0x2E \<and> is_digit d then (c # takeWhile is_digit (tl r), dropWhile is_digit (tl r)) else ([], r)
      | _ \<Rightarrow> ([], r))"

definition scan_exp :: "pystr \<Rightarrow> pystr \<times> pystr" where
  "scan_exp r =
     (case r of
        c # r1 \<Rightarrow>
          if c = 0x65 \<or> c = 0x45 then
            (let (sgn, r2) = (case r1 of s # r3 \<Rightarrow> if (s = 0x2B \<or> s = 0x2D) \<and> r3 \<noteq> [] then ([s], r3) else ([], r1)
                                      | [] \<Rightarrow> ([], r1))
             in if r2 \<noteq> [] \<and> is_digit (hd r2)
                then (c # sgn @ takeWhile is_digit r2, dropWhile is_digit r2) else ([], r))
          else ([], r)
      | [] \<Rightarrow> ([], r))"

definition scan_unsigned :: "pystr \<Rightarrow> (pystr \<times> bool \<times> pystr) option" where
  "scan_unsigned s =
     (case s of
        [] \<Rightarrow> None
      | c # cs \<Rightarrow>
          if is_digit c then
            (let int_part = (if c = 0x30 then [c] else c # takeWhile is_digit cs);
                 r = (if c = 0x30 then cs else dropWhile is_digit cs)
             in case scan_frac r of
                  (frac_part, r') \<Rightarrow>
                    (case scan_exp r' of
                       (exp_part, r'') \<Rightarrow>
                         Some (int_part @ frac_part @ exp_part, frac_part \<noteq> [] \<or> exp_part \<noteq> [], r'')))
          else None)"

definition scan_number :: "pystr \<Rightarrow> (pystr \<times> bool \<times> pystr) option" where
  "scan_number s =
     (if take 1 s = [0x2D] then map_option (\<lambda>(tok, f, r). (0x2D # tok, f, r)) (scan_unsigned (drop 1 s))
      else scan_unsigned s)"

definition number_value :: "float_of_text \<Rightarrow> pystr \<Rightarrow> bool \<Rightarrow> py_error + json" where
  "number_value flt tok is_float =
     (if is_float then Inr (JFloat (flt tok))
      else if length (filter is_digit tok) > 4300 then Inl ValueError
      else Inr (JInt (if take 1 tok = [0x2D] then - int (digits_val (drop 1 tok)) else int (digits_val tok))))"

definition py_dict :: "(pystr \<times> json) list \<Rightarrow> (pystr \<times> json) list" where
  "py_dict kvs = foldl (\<lambda>d (k, v). AList.update k v d) [] kvs"

definition map_res :: "('a \<Rightarrow> 'b) \<Rightarrow> (py_error + 'a) option \<Rightarrow> (py_error + 'b) option" where
  "map_res f r = map_option (map_sum id f) r"

fun scan_value :: "nat \<Rightarrow> float_of_text \<Rightarrow> pystr \<Rightarrow> (py_error + (json \<times> pystr)) option"
and scan_items :: "nat \<Rightarrow> float_of_text \<Rightarrow> pystr \<Rightarrow> (py_error + (json list \<times> pystr)) option"
and scan_members :: "nat \<Rightarrow> float_of_text \<Rightarrow> pystr \<Rightarrow> (py_error + ((pystr \<times> json) list \<times> pystr)) option"
where
  "scan_value 0 flt s = None"
| "scan_value (Suc n) flt s =
     (case s of
        [] \<Rightarrow> Some (Inl JSONDecodeError)
      | c # cs \<Rightarrow>
          if c = 0x22 then
            Some (case parse_chars cs of None \<Rightarrow> Inl JSONDecodeError | Some (t, r) \<Rightarrow> Inr (JStr t, r))
          else if c = 0x7B then
            (if take 1 (skip_ws cs) = [0x7D] then Some (Inr (JObj [], drop 1 (skip_ws cs)))
             else map_res (\<lambda>(kvs, r). (JObj (py_dict kvs), r)) (scan_members n flt (skip_ws cs)))
          else if c = 0x5B then
            (if take 1 (skip_ws cs) = [0x5D] then Some (Inr (JArr [], drop 1 (skip_ws cs)))
             else map_res (\<lambda>(vs, r). (JArr vs, r)) (scan_items n flt (skip_ws cs)))
          else if take 4 s = ascii ''null'' then Some (Inr (JNull, drop 4 s))
          else if take 4 s = ascii ''true'' then Some (Inr (JBool True, drop 4 s))
          else if take 5 s = ascii ''false'' then Some (Inr (JBool False, drop 5 s))
          else if take 3 s = ascii ''NaN'' then Some (Inr (JFloat (ascii ''NaN''), drop 3 s))
          else if take 8 s = ascii ''Infinity'' then Some (Inr (JFloat (ascii ''Infinity''), drop 8 s))
          else if take 9 s = ascii ''-Infinity'' then Some (Inr (JFloat (ascii ''-Infinity''), drop 9 s))
          else
            Some (case scan_number s of
                    None \<Rightarrow> Inl JSONDecodeError
                  | Some (tok, is_float, r) \<Rightarrow> map_sum id (\<lambda>v. (v, r)) (number_value flt tok is_float)))"
| "scan_items 0 flt s = None"
| "scan_items (Suc n) flt s =
     (case scan_value n flt s of
        None \<Rightarrow> None
      | Some (Inl e) \<Rightarrow> Some (Inl e)
      | Some (Inr (v, r)) \<Rightarrow>
          if take 1 (skip_ws r) = [0x5D] then Some (Inr ([v], drop 1 (skip_ws r)))
          else if take 1 (skip_ws r) = [0x2C]
          then map_res (\<lambda>(vs, r'). (v # vs, r')) (scan_items n flt (skip_ws (drop 1 (skip_ws r))))
          else Some (Inl JSONDecodeError))"
| "scan_members 0 flt s = None"
| "scan_members (Suc n) flt s =
     (case s of
        [] \<Rightarrow> Some (Inl JSONDecodeError)
      | c # cs \<Rightarrow>
          if c \<noteq> 0x22 then Some (Inl JSONDecodeError)
          else
            (case parse_chars cs of
               None \<Rightarrow> Some (Inl JSONDecodeError)
             | Some (k, r) \<Rightarrow>
                 if take 1 (skip_ws r) \<noteq> [0x3A] then Some (Inl JSONDecodeError)
                 else
                   (case scan_value n flt (skip_ws (drop 1 (skip_ws r))) of
                      None \<Rightarrow> None
                    | Some (Inl e) \<Rightarrow> Some (Inl e)
                    | Some (Inr (v, r')) \<Rightarrow>
                        if take 1 (skip_ws r') = [0x7D] then Some (Inr ([(k, v)], drop 1 (skip_ws r')))
                        else if take 1 (skip_ws r') = [0x2C]
                        then map_res (\<lambda>(kvs, r''). ((k, v) # kvs, r''))
                               (scan_members n flt (skip_ws (drop 1 (skip_ws r'))))
                        else Some (Inl JSONDecodeError))))"

definition json_loads :: "float_of_text \<Rightarrow> pystr \<Rightarrow> py_error + json" where
  "json_loads flt s =
     (case scan_value (2 * length s + 1) flt (skip_ws s) of
        None \<Rightarrow> Inl JSONDecodeError
      | Some (Inl e) \<Rightarrow> Inl e
      | Some (Inr (v, r)) \<Rightarrow> if skip_ws r = [] then Inr v else Inl JSONDecodeError)"

definition stops :: "pystr \<Rightarrow> bool" where
  "stops rest \<longleftrightarrow> (case rest of [] \<Rightarrow> True | c # _ \<Rightarrow> is_ws c \<or> c = 0x2C \<or> c = 0x5D \<or> c = 0x7D)"

definition sep_ok :: "codepoint \<Rightarrow> pystr \<Rightarrow> bool" where
  "sep_ok c sep \<longleftrightarrow> (case skip_ws sep of [] \<Rightarrow> False | d # ws \<Rightarrow> d = c \<and> list_all is_ws ws)"

definition opts_ok :: "json_opts \<Rightarrow> bool" where
  "opts_ok opts \<longleftrightarrow> sep_ok 0x2C (jo_item_sep opts) \<and> sep_ok 0x3A (jo_key_sep opts)"

definition float_text_ok :: "float_of_text \<Rightarrow> pystr \<Rightarrow> bool" where
  "float_text_ok flt t \<longleftrightarrow> t = ascii ''NaN'' \<or> t = ascii ''Infinity'' \<or> t = ascii ''-Infinity''
     \<or> (scan_number t = Some (t, True, []) \<and> flt t = t)"

function json_ok :: "float_of_text \<Rightarrow> json \<Rightarrow> bool" where
  "json_ok flt (JArr vs) = list_all (json_ok flt) vs"
| "json_ok flt (JObj kvs) = (distinct (map fst kvs) \<and> list_all (\<lambda>(k, v). list_all is_scalar k \<and> json_ok flt v) kvs)"
| "json_ok flt JNull = True"
| "json_ok flt (JBool b) = True"
| "json_ok flt (JInt i) = (length (nat_digits (nat \<bar>i\<bar>)) \<le> 4300)"
| "json_ok flt (JFloat t) = float_text_ok flt t"
| "json_ok flt (JStr s) = list_all is_scalar s"
  by pat_completeness auto
termination
  by (relation "measure (\<lambda>(flt, v). size v)") (force intro: le_imp_less_Suc size_list_estimation')+

definition json_decoded :: "json_opts \<Rightarrow> json \<Rightarrow> json" where
  "json_decoded opts v = (if jo_sort_keys opts then json_norm v else v)"

abbreviation shorter :: "pystr \<Rightarrow> (py_error + ('a \<times> pystr)) option \<Rightarrow> bool" where
  "shorter s x \<equiv> pred_option (pred_sum (\<lambda>_. True) (\<lambda>p. length (snd p) < length s)) x"

section \<open>Lemmas\<close>

lemma str_cons_shorter:
  "pred_option (\<lambda>(t, r). length r < n) p \<Longrightarrow> n \<le> m \<Longrightarrow> pred_option (\<lambda>(t, r). length r < m) (str_cons c p)"
  by (cases p) (auto simp: str_cons_def)

lemma parse_chars_shorter: "pred_option (\<lambda>(t, r). length r < length s) (parse_chars s)"
proof (induction s rule: parse_chars.induct)
  case 1
  then show ?case by simp
next
  case (2 c cs)
  consider "c = 0x22" | "c \<noteq> 0x22" "c = 0x5C" "cs = []" | e cs' where "c \<noteq> 0x22" "c = 0x5C" "cs = e # cs'"
    | "c \<noteq> 0x22" "c \<noteq> 0x5C"
    by (cases cs) auto
  then show ?case
  proof cases
    case 3
    have le: "length (drop k cs') \<le> length (c # cs)" for k
      using 3 by simp
    have step: "pred_option (\<lambda>(t, r). length r < length (c # cs)) (str_cons d (parse_chars (drop k cs')))"
      if "pred_option (\<lambda>(t, r). length r < length (drop k cs')) (parse_chars (drop k cs'))" for d k
      using that le by (rule str_cons_shorter)
    show ?thesis
    proof (cases "e = 0x75")
      case u: True
      show ?thesis
      proof (cases "hex4_val (take 4 cs')")
        case (Some x)
        show ?thesis
        proof (cases "is_high_surrogate x \<and> take 2 (drop 4 cs') = [0x5C, 0x75]")
          case hi: True
          show ?thesis
          proof (cases "hex4_val (take 4 (drop 6 cs'))")
            case (Some y)
            note hx = \<open>hex4_val (take 4 cs') = Some x\<close>
            show ?thesis
            proof (cases "is_low_surrogate y")
              case True
              with 3 u hi hx Some have "parse_chars (c # cs)
                  = str_cons (0x10000 + (x - 0xD800) * 1024 + (y - 0xDC00)) (parse_chars (drop 10 cs'))"
                by simp
              then show ?thesis
                using step [OF "2.IH"(1) [OF 3(1,2,3) u hx hi Some True]] by simp
            next
              case False
              with 3 u hi hx Some have "parse_chars (c # cs) = str_cons x (parse_chars (drop 4 cs'))"
                by simp
              then show ?thesis
                using step [OF "2.IH"(2) [OF 3(1,2,3) u hx hi Some False]] by simp
            qed
          qed (use 3 u hi \<open>hex4_val (take 4 cs') = Some x\<close> in simp)
        next
          case lo: False
          then show ?thesis
            using 3 u Some step [OF "2.IH"(3) [OF 3(1,2,3) u Some lo]] by auto
        qed
      qed (use 3 u in simp)
    next
      case False
      with 3 "2.IH"(4) [OF 3(1,2,3) False] show ?thesis
        by (auto intro: str_cons_shorter split: option.split)
    qed
  next
    case 4
    with "2.IH"(5) show ?thesis
      by (auto simp: parse_chars.simps(2) [of c] intro!: str_cons_shorter)
  qed simp_all
qed

lemma parse_chars_length: "parse_chars s = Some (t, r) \<Longrightarrow> length r < length s"
  using parse_chars_shorter [of s] by simp

lemma scan_frac_length: "length (snd (scan_frac r)) \<le> length r"
  by (auto simp: scan_frac_def length_dropWhile_le split: list.split intro: le_trans [OF length_dropWhile_le])

lemma scan_exp_length: "length (snd (scan_exp r)) \<le> length r"
  by (auto simp: scan_exp_def Let_def split: list.split prod.split
      intro: le_trans [OF length_dropWhile_le])

lemma scan_unsigned_length: "scan_unsigned s = Some (tok, f, r) \<Longrightarrow> length r < length s"
proof -
  assume sn: "scan_unsigned s = Some (tok, f, r)"
  then obtain c cs where s: "s = c # cs"
    by (cases s) (simp_all add: scan_unsigned_def)
  define r0 where "r0 = (if c = 0x30 then cs else dropWhile is_digit cs)"
  have r0: "length r0 < length s"
    using s length_dropWhile_le [of is_digit cs] by (auto simp: r0_def)
  have "r = snd (scan_exp (snd (scan_frac r0)))"
    using sn s by (auto simp: scan_unsigned_def r0_def Let_def split: prod.splits if_splits)
  then show ?thesis
    using r0 scan_frac_length [of r0] scan_exp_length [of "snd (scan_frac r0)"] by simp
qed

lemma scan_number_length: "scan_number s = Some (tok, f, r) \<Longrightarrow> length r < length s"
  by (auto simp: scan_number_def split: if_splits dest!: scan_unsigned_length)

lemma shorter_map_res:
  assumes "shorter s' x" and "length s' \<le> length s" and "\<And>p. snd (f p) = snd p"
  shows "shorter s (map_res f x)"
proof (cases x)
  case (Some a)
  with assms show ?thesis
    by (cases a) (auto simp: map_res_def)
qed (simp add: map_res_def)

lemma shorter_skip: "length (drop 1 (skip_ws cs)) < length (c # cs)"
  using length_dropWhile_le [of is_ws cs] by simp

lemma shorter_lit: "take k s = lit \<Longrightarrow> lit \<noteq> [] \<Longrightarrow> length (drop k s) < length s"
  by (cases s) (auto simp: min_def split: if_splits)

lemma scan_shorter:
  "shorter s (scan_value n flt s)"
  "shorter s (scan_items n flt s)"
  "shorter s (scan_members n flt s)"
proof (induction n flt s and n flt s and n flt s rule: scan_value_scan_items_scan_members.induct)
  case (2 n flt s)
  show ?case
  proof (cases s)
    case (Cons c cs)
    have ws: "length (skip_ws cs) \<le> length s"
      using Cons length_dropWhile_le [of is_ws cs] by simp
    have str: "shorter s (Some (case parse_chars cs of None \<Rightarrow> Inl JSONDecodeError | Some (t, r) \<Rightarrow> Inr (JStr t, r)))"
      using Cons by (auto dest: parse_chars_length split: option.split)
    have num: "shorter s (Some (case scan_number s of None \<Rightarrow> Inl JSONDecodeError
                  | Some (tok, is_float, r) \<Rightarrow> map_sum id (\<lambda>v. (v, r)) (number_value flt tok is_float)))"
      by (auto dest: scan_number_length split: option.split simp: number_value_def)
    have obj: "shorter s (map_res (\<lambda>(kvs, r). (JObj (py_dict kvs), r)) (scan_members n flt (skip_ws cs)))"
      if "c \<noteq> 0x22" "c = 0x7B" "take 1 (skip_ws cs) \<noteq> [0x7D]"
      using "2.IH"(1) [OF Cons that] ws by (rule shorter_map_res) (simp split: prod.split)
    have arr: "shorter s (map_res (\<lambda>(vs, r). (JArr vs, r)) (scan_items n flt (skip_ws cs)))"
      if "c \<noteq> 0x22" "c \<noteq> 0x7B" "c = 0x5B" "take 1 (skip_ws cs) \<noteq> [0x5D]"
      using "2.IH"(2) [OF Cons that] ws by (rule shorter_map_res) (simp split: prod.split)
    show ?thesis
      using Cons str num obj arr shorter_skip [of cs c]
      by (simp del: scan_members.simps scan_items.simps add: shorter_lit ascii_def less_Suc_eq_le)
  qed simp
next
  case (4 n flt s)
  show ?case
  proof (cases "scan_value n flt s")
    case (Some x)
    show ?thesis
    proof (cases x)
      case (Inr p)
      obtain v r where p: "p = (v, r)"
        by (cases p)
      have r: "length r < length s"
        using "4.IH"(1) Some Inr p by simp
      have len: "length (skip_ws (drop 1 (skip_ws r))) \<le> length s"
        using r length_dropWhile_le [of is_ws r] length_dropWhile_le [of is_ws "drop 1 (skip_ws r)"] by simp
      have "shorter s (map_res (\<lambda>(vs, r'). (v # vs, r')) (scan_items n flt (skip_ws (drop 1 (skip_ws r)))))"
        if "take 1 (skip_ws r) \<noteq> [0x5D]" "take 1 (skip_ws r) = [0x2C]"
        by (rule shorter_map_res [OF "4.IH"(2) [OF Some Inr p [symmetric] that] len]) (simp split: prod.split)
      then show ?thesis
        using Some Inr p r length_dropWhile_le [of is_ws r]
        by (auto simp del: scan_items.simps simp: scan_items.simps(2) [of n])
    qed (use Some in simp)
  qed simp
next
  case (6 n flt s)
  show ?case
  proof (cases s)
    case (Cons c cs)
    show ?thesis
    proof (cases "c = 0x22")
      case True
      then have q: "\<not> c \<noteq> 0x22"
        by simp
      show ?thesis
      proof (cases "parse_chars cs")
        case (Some kr)
        obtain k r where kr: "(k, r) = kr"
          by (cases kr) simp
        have r: "length r < length cs"
          using parse_chars_length Some kr by blast
        define s2 where "s2 = skip_ws (drop 1 (skip_ws r))"
        have s2: "length s2 < length s"
          using r Cons length_dropWhile_le [of is_ws r] length_dropWhile_le [of is_ws "drop 1 (skip_ws r)"]
          by (simp add: s2_def)
        show ?thesis
        proof (cases "take 1 (skip_ws r) = [0x3A]")
          case colon: True
          then have colon': "\<not> take 1 (skip_ws r) \<noteq> [0x3A]"
            by simp
          show ?thesis
          proof (cases "scan_value n flt s2")
            case (Some y)
            show ?thesis
            proof (cases y)
              case (Inr p)
              obtain v r' where p: "(v, r') = p"
                by (cases p) simp
              have r': "length r' < length s"
                using "6.IH"(1) [OF Cons q \<open>parse_chars cs = Some kr\<close> kr colon'] Some Inr p s2
                by (auto simp: s2_def)
              have len: "length (skip_ws (drop 1 (skip_ws r'))) \<le> length s"
                using r' length_dropWhile_le [of is_ws r'] length_dropWhile_le [of is_ws "drop 1 (skip_ws r')"]
                by simp
              have "shorter s (map_res (\<lambda>(kvs, r''). ((k, v) # kvs, r''))
                      (scan_members n flt (skip_ws (drop 1 (skip_ws r')))))"
                if "take 1 (skip_ws r') \<noteq> [0x7D]" "take 1 (skip_ws r') = [0x2C]"
                using "6.IH"(2) [OF Cons q \<open>parse_chars cs = Some kr\<close> kr colon' Some [unfolded s2_def] Inr p that]
                  len
                by (rule shorter_map_res) (simp split: prod.split)
              then show ?thesis
                using Cons True \<open>parse_chars cs = Some kr\<close> kr colon Some [unfolded s2_def] Inr p r'
                  length_dropWhile_le [of is_ws r']
                by (auto simp del: scan_members.simps simp add: scan_members.simps(2) [of n])
            qed (use Cons True \<open>parse_chars cs = Some kr\<close> kr colon Some [unfolded s2_def] in auto)
          qed (use Cons True \<open>parse_chars cs = Some kr\<close> kr colon in \<open>auto simp: s2_def\<close>)
        qed (use Cons True \<open>parse_chars cs = Some kr\<close> kr in \<open>auto\<close>)
      qed (use Cons True in simp)
    qed (use Cons in simp)
  qed simp
qed simp_all

lemma scan_value_Inr_length: "scan_value n flt s = Some (Inr (v, r)) \<Longrightarrow> length r < length s"
  using scan_shorter(1) [of s n flt] by simp

lemma skip_sep_length:
  "take 1 (skip_ws r) = [d] \<Longrightarrow> length (skip_ws (drop 1 (skip_ws r))) < length r"
  using length_dropWhile_le [of is_ws r] length_dropWhile_le [of is_ws "drop 1 (skip_ws r)"]
  by (cases "skip_ws r") auto

lemma scan_fuel:
  "2 * length s < n \<Longrightarrow> scan_value n flt s \<noteq> None"
  "2 * length s + 1 < n \<Longrightarrow> scan_items n flt s \<noteq> None"
  "2 * length s + 1 < n \<Longrightarrow> scan_members n flt s \<noteq> None"
proof (induction n flt s and n flt s and n flt s rule: scan_value_scan_items_scan_members.induct)
  case (2 n flt s)
  show ?case
  proof (cases s)
    case (Cons c cs)
    have ws: "2 * length (skip_ws cs) + 1 < n"
      using "2.prems" Cons length_dropWhile_le [of is_ws cs] by simp
    have obj: "scan_members n flt (skip_ws cs) \<noteq> None"
      if "c \<noteq> 0x22" "c = 0x7B" "take 1 (skip_ws cs) \<noteq> [0x7D]"
      using "2.IH"(1) [OF Cons that ws] .
    have arr: "scan_items n flt (skip_ws cs) \<noteq> None"
      if "c \<noteq> 0x22" "c \<noteq> 0x7B" "c = 0x5B" "take 1 (skip_ws cs) \<noteq> [0x5D]"
      using "2.IH"(2) [OF Cons that ws] .
    show ?thesis
      using Cons obj arr by (simp del: scan_members.simps scan_items.simps add: map_res_def)
  qed simp
next
  case (4 n flt s)
  have v: "scan_value n flt s \<noteq> None"
    using "4.IH"(1) "4.prems" by simp
  show ?case
  proof (cases "scan_value n flt s")
    case (Some x)
    show ?thesis
    proof (cases x)
      case (Inr p)
      obtain v r where p: "(v, r) = p"
        by (cases p) simp
      have r: "length r < length s"
        using scan_value_Inr_length Some Inr p by blast
      have "scan_items n flt (skip_ws (drop 1 (skip_ws r))) \<noteq> None"
        if "take 1 (skip_ws r) \<noteq> [0x5D]" "take 1 (skip_ws r) = [0x2C]"
        using "4.IH"(2) [OF Some Inr p that] "4.prems" r skip_sep_length [OF that(2)] by simp
      then show ?thesis
        using Some Inr p [symmetric] by (auto simp: map_res_def)
    qed (use Some in simp)
  qed (use v in simp)
next
  case (6 n flt s)
  show ?case
  proof (cases s)
    case (Cons c cs)
    show ?thesis
    proof (cases "c = 0x22")
      case True
      then have q: "\<not> c \<noteq> 0x22"
        by simp
      show ?thesis
      proof (cases "parse_chars cs")
        case (Some kr)
        obtain k r where kr: "(k, r) = kr"
          by (cases kr) simp
        have r: "length r < length cs"
          using parse_chars_length Some kr by blast
        show ?thesis
        proof (cases "take 1 (skip_ws r) = [0x3A]")
          case colon: True
          then have colon': "\<not> take 1 (skip_ws r) \<noteq> [0x3A]"
            by simp
          have s2: "2 * length (skip_ws (drop 1 (skip_ws r))) < n"
            using "6.prems" Cons r skip_sep_length [OF colon] by simp
          have v: "scan_value n flt (skip_ws (drop 1 (skip_ws r))) \<noteq> None"
            using "6.IH"(1) [OF Cons q Some kr colon' s2] .
          show ?thesis
          proof (cases "scan_value n flt (skip_ws (drop 1 (skip_ws r)))")
            case (Some y)
            show ?thesis
            proof (cases y)
              case (Inr p)
              obtain v r' where p: "(v, r') = p"
                by (cases p) simp
              have r': "length r' < length (skip_ws (drop 1 (skip_ws r)))"
                using scan_value_Inr_length Some Inr p by blast
              have "scan_members n flt (skip_ws (drop 1 (skip_ws r'))) \<noteq> None"
                if "take 1 (skip_ws r') \<noteq> [0x7D]" "take 1 (skip_ws r') = [0x2C]"
                using "6.IH"(2) [OF Cons q \<open>parse_chars cs = Some kr\<close> kr colon' Some Inr p that]
                  "6.prems" Cons r r' skip_sep_length [OF colon] skip_sep_length [OF that(2)]
                by simp
              then show ?thesis
                using Cons True \<open>parse_chars cs = Some kr\<close> kr [symmetric] colon Some Inr p [symmetric]
                by (auto simp del: scan_members.simps scan_value.simps
                    simp add: scan_members.simps(2) [of n] map_res_def)
            qed (use Cons True \<open>parse_chars cs = Some kr\<close> kr [symmetric] colon Some in auto)
          qed (use v in simp)
        qed (use Cons True \<open>parse_chars cs = Some kr\<close> kr [symmetric] in auto)
      qed (use Cons True in simp)
    qed (use Cons in simp)
  qed simp
qed simp_all

lemma stops_digit: "stops rest \<Longrightarrow> takeWhile is_digit rest = [] \<and> dropWhile is_digit rest = rest"
  by (cases rest) (auto simp: stops_def is_ws_def is_digit_def)

lemma stops_hd: "stops (c # r) \<Longrightarrow> \<not> is_digit c \<and> c \<noteq> 0x2E \<and> c \<noteq> 0x65 \<and> c \<noteq> 0x45 \<and> c \<noteq> 0x2B \<and> c \<noteq> 0x2D"
  by (auto simp: stops_def is_ws_def is_digit_def)

lemma takeWhile_digits_stops:
  "stops rest \<Longrightarrow> takeWhile is_digit (xs @ rest) = takeWhile is_digit xs"
  "stops rest \<Longrightarrow> dropWhile is_digit (xs @ rest) = dropWhile is_digit xs @ rest"
  by (induction xs) (simp_all add: stops_digit)

lemma scan_frac_append: "stops rest \<Longrightarrow> scan_frac (r @ rest) = (fst (scan_frac r), snd (scan_frac r) @ rest)"
  by (cases r rule: remdups_adj.cases)
     (auto simp: scan_frac_def takeWhile_digits_stops split: list.split dest: stops_hd)

lemma stops_hd_digit: "stops rest \<Longrightarrow> rest \<noteq> [] \<Longrightarrow> \<not> is_digit (hd rest)"
  by (cases rest) (auto dest: stops_hd)

lemma scan_exp_append: "stops rest \<Longrightarrow> scan_exp (r @ rest) = (fst (scan_exp r), snd (scan_exp r) @ rest)"
  by (cases r rule: remdups_adj.cases)
    (auto simp: scan_exp_def takeWhile_digits_stops Let_def is_digit_def [of 43] is_digit_def [of 45]
      split: list.split dest: stops_hd stops_hd_digit)

lemma scan_unsigned_append:
  assumes "stops rest"
  shows "scan_unsigned (t @ rest) = map_option (\<lambda>(tok, f, r). (tok, f, r @ rest)) (scan_unsigned t)"
proof (cases t)
  case Nil
  with assms show ?thesis
    by (cases rest) (auto simp: scan_unsigned_def dest: stops_hd)
next
  case (Cons c cs)
  have r0: "(if c = 0x30 then cs @ rest else dropWhile is_digit (cs @ rest))
            = (if c = 0x30 then cs else dropWhile is_digit cs) @ rest"
    using assms by (simp add: takeWhile_digits_stops)
  show ?thesis
    using Cons assms r0 scan_frac_append [OF assms, of "if c = 0x30 then cs else dropWhile is_digit cs"]
      scan_exp_append [OF assms, of "snd (scan_frac (if c = 0x30 then cs else dropWhile is_digit cs))"]
    by (auto simp: scan_unsigned_def takeWhile_digits_stops Let_def split: prod.split)
qed

lemma scan_number_append:
  assumes "stops rest"
  shows "scan_number (t @ rest) = map_option (\<lambda>(tok, f, r). (tok, f, r @ rest)) (scan_number t)"
proof (cases t)
  case Nil
  with assms show ?thesis
    by (cases rest) (auto simp: scan_number_def scan_unsigned_def dest: stops_hd)
next
  case (Cons c cs)
  have u: "scan_unsigned (cs @ rest) = map_option (\<lambda>(tok, f, r). (tok, f, r @ rest)) (scan_unsigned cs)"
    "scan_unsigned ((c # cs) @ rest) = map_option (\<lambda>(tok, f, r). (tok, f, r @ rest)) (scan_unsigned (c # cs))"
    using scan_unsigned_append [OF assms] by blast+
  show ?thesis
  proof (cases "c = 0x2D")
    case True
    with Cons u(1) show ?thesis
      by (simp add: scan_number_def option.map_comp comp_def split_def)
  next
    case False
    with Cons u(2) show ?thesis
      by (simp add: scan_number_def)
  qed
qed

lemma nat_digits_lead: "0 < n \<Longrightarrow> hd (nat_digits n) \<noteq> 48"
proof (induction n rule: nat_digits.induct)
  case (1 n)
  show ?case
  proof (cases "n < 10")
    case True
    with "1.prems" show ?thesis
      by (simp add: nat_digits.simps [of n])
  next
    case False
    then have "0 < n div 10" "nat_digits (n div 10) \<noteq> []"
      using nat_digits_digits by auto
    with False "1.IH" show ?thesis
      by (simp add: nat_digits.simps [of n])
  qed
qed

lemma scan_unsigned_nat_digits: "scan_unsigned (nat_digits n) = Some (nat_digits n, False, [])"
proof -
  obtain c cs where nd: "nat_digits n = c # cs" and dig: "is_digit c" "list_all is_digit cs"
    using nat_digits_digits [of n] by (cases "nat_digits n") auto
  have tw: "takeWhile is_digit cs = cs" "dropWhile is_digit cs = []"
    using dig(2) by (simp_all add: list_all_iff)
  have "cs = []" if "c = 0x30"
  proof -
    have "n = 0"
      using nat_digits_lead [of n] nd that by auto
    then show ?thesis
      using nd by (simp add: nat_digits.simps)
  qed
  then show ?thesis
    using nd dig by (auto simp: scan_unsigned_def scan_frac_def scan_exp_def tw)
qed

lemma nat_digits_not_minus: "take (Suc 0) (nat_digits n) \<noteq> [0x2D]"
  using nat_digits_digits [of n] by (cases "nat_digits n") (auto simp: is_digit_def)

lemma scan_number_int_repr: "scan_number (int_repr i) = Some (int_repr i, False, [])"
  by (cases "i < 0") (simp_all add: scan_number_def int_repr_def scan_unsigned_nat_digits nat_digits_not_minus)

lemma int_digits: "filter is_digit (int_repr i) = nat_digits (nat \<bar>i\<bar>)"
proof -
  have "filter is_digit (nat_digits n) = nat_digits n" for n
    using nat_digits_digits [of n] by (simp add: list_all_iff)
  then show ?thesis
    by (simp add: int_repr_def is_digit_def)
qed

lemma number_value_int_repr:
  assumes "length (nat_digits (nat \<bar>i\<bar>)) \<le> 4300"
  shows "number_value flt (int_repr i) False = Inr (JInt i)"
proof -
  have "(if take 1 (int_repr i) = [0x2D] then - int (digits_val (drop 1 (int_repr i)))
         else int (digits_val (int_repr i))) = i"
    by (cases "i < 0") (simp_all add: int_repr_def nat_digits_not_minus digits_val_nat_digits)
  with assms show ?thesis
    by (simp add: number_value_def int_digits)
qed

lemma skip_ws_append_ws: "list_all is_ws w \<Longrightarrow> skip_ws (w @ x) = skip_ws x"
  by (induction w) simp_all

lemma skip_ws_nonws: "\<not> is_ws c \<Longrightarrow> skip_ws (c # x) = c # x"
  by simp

lemma sep_ok_skip:
  assumes "sep_ok c sep"
  obtains ws where "skip_ws (sep @ y) = c # ws @ y" and "list_all is_ws ws"
proof -
  obtain d ws where sk: "skip_ws sep = d # ws" and "d = c" "list_all is_ws ws"
    using assms by (auto simp: sep_ok_def split: list.splits)
  moreover have "d \<in> set sep"
    using sk by (metis list.set_intros(1) set_dropWhileD)
  moreover have "\<not> is_ws d"
    using sk by (metis hd_dropWhile list.distinct(1) list.sel(1))
  ultimately have "skip_ws (sep @ y) = skip_ws sep @ y"
    by (intro dropWhile_append1)
  moreover note sk \<open>d = c\<close> \<open>list_all is_ws ws\<close>
  ultimately show ?thesis
    using that by simp
qed

lemma sep_ok_append_ws: "sep_ok c sep \<Longrightarrow> list_all is_ws w \<Longrightarrow> sep_ok c (sep @ w)"
proof -
  assume s: "sep_ok c sep" and w: "list_all is_ws w"
  obtain ws where "skip_ws (sep @ w) = c # ws @ w" "list_all is_ws ws"
    using sep_ok_skip [OF s] by blast
  with w show ?thesis
    by (simp add: sep_ok_def)
qed

lemma newline_indent_ws: "list_all is_ws (newline_indent w l)"
proof -
  have "list_all is_ws (replicate k 0x20)" for k
    by (induction k) (simp_all add: is_ws_def)
  then show ?thesis
    by (simp add: newline_indent_def is_ws_def)
qed

lemma json_container_shape:
  assumes "items \<noteq> []"
  obtains pre sep post where
    "json_container opts l opn cls items = [opn] @ pre @ join_sep sep items @ post @ [cls]"
    "list_all is_ws pre" "list_all is_ws post" "\<exists>w. sep = jo_item_sep opts @ w \<and> list_all is_ws w"
proof (cases "jo_indent opts")
  case None
  with assms that [of "[]" "jo_item_sep opts" "[]"] show ?thesis
    by (simp add: json_container_def)
next
  case (Some w)
  with assms that [of "newline_indent w (Suc l)" "jo_item_sep opts @ newline_indent w (Suc l)" "newline_indent w l"]
  show ?thesis
    by (simp add: json_container_def newline_indent_ws)
qed

lemma scan_number_hd: "scan_number t = Some x \<Longrightarrow> \<exists>c cs. t = c # cs \<and> (is_digit c \<or> c = 0x2D)"
  by (cases t) (auto simp: scan_number_def scan_unsigned_def split: if_splits)

lemma json_encode_first:
  assumes "json_ok flt v"
  obtains c cs where "json_encode opts l v = c # cs" "\<not> is_ws c" "c \<noteq> 0x5D" "c \<noteq> 0x7D" "c \<noteq> 0x2C"
proof -
  have "\<exists>c cs. json_encode opts l v = c # cs \<and> \<not> is_ws c \<and> c \<noteq> 0x5D \<and> c \<noteq> 0x7D \<and> c \<noteq> 0x2C"
  proof (cases v)
    case (JInt i)
    with int_repr_shape [of i] show ?thesis
      by (cases "int_repr i") (auto simp: is_digit_def is_ws_def)
  next
    case (JFloat t)
    with assms show ?thesis
      by (auto simp: float_text_ok_def ascii_def is_ws_def is_digit_def dest!: scan_number_hd)
  qed (auto simp: json_container_def ascii_def encode_str_def is_ws_def split: option.split)
  with that show ?thesis
    by blast
qed

lemma stops_sep_ok: "sep_ok c sep \<Longrightarrow> c = 0x2C \<Longrightarrow> stops (sep @ y)"
  by (cases sep) (auto simp: sep_ok_def stops_def split: if_splits)

lemma stops_close: "list_all is_ws post \<Longrightarrow> c = 0x5D \<or> c = 0x7D \<Longrightarrow> stops (post @ c # r)"
  by (cases post) (auto simp: stops_def)

lemma skip_ws_enc: "enc = c # cs \<Longrightarrow> \<not> is_ws c \<Longrightarrow> skip_ws (enc @ y) = enc @ y"
  by simp

lemma join_sep_Cons: "join_sep sep (x # xs) = x @ concat (map (\<lambda>y. sep @ y) xs)"
  by (induction xs arbitrary: x) simp_all

lemma scan_items_join:
  assumes IH: "\<And>x m r. x \<in> set vs \<Longrightarrow> stops r \<Longrightarrow> jsize x \<le> m \<Longrightarrow>
                 scan_value m flt (enc x @ r) = Some (Inr (dec x, r))"
    and first: "\<And>x. x \<in> set vs \<Longrightarrow> \<exists>c cs. enc x = c # cs \<and> \<not> is_ws c"
    and sep: "sep_ok 0x2C sep" and post: "list_all is_ws post"
    and ne: "vs \<noteq> []" and fuel: "length vs + sum_list (map jsize vs) \<le> m"
  shows "scan_items m flt (join_sep sep (map enc vs) @ post @ 0x5D # rest) = Some (Inr (map dec vs, rest))"
  using IH first ne fuel
proof (induction vs arbitrary: m)
  case Nil
  then show ?case by simp
next
  case (Cons v vs)
  from Cons.prems(4) obtain m' where m: "m = Suc m'"
    and m': "jsize v + length vs + sum_list (map jsize vs) \<le> m'"
    by (cases m) auto
  show ?case
  proof (cases vs)
    case Nil
    have "scan_value m' flt (enc v @ post @ 0x5D # rest) = Some (Inr (dec v, post @ 0x5D # rest))"
      using Cons.prems(1) [of v "post @ 0x5D # rest" m'] m' stops_close [OF post] by simp
    moreover have "skip_ws (post @ 0x5D # rest) = 0x5D # rest"
      using post by (simp add: skip_ws_append_ws is_ws_def)
    ultimately show ?thesis
      using Nil m by simp
  next
    case (Cons w ws)
    let ?tail = "join_sep sep (map enc vs) @ post @ 0x5D # rest"
    have hd: "scan_value m' flt (enc v @ sep @ ?tail) = Some (Inr (dec v, sep @ ?tail))"
      using Cons.prems(1) [of v "sep @ ?tail" m'] m' stops_sep_ok [OF sep] by simp
    obtain sw where sw: "skip_ws (sep @ ?tail) = 0x2C # sw @ ?tail" "list_all is_ws sw"
      using sep_ok_skip [OF sep] by blast
    obtain c cs where ew: "enc w = c # cs" "\<not> is_ws c"
      using Cons.prems(2) [of w] Cons by auto
    have tl: "skip_ws (drop 1 (skip_ws (sep @ ?tail))) = ?tail"
      using sw ew Cons by (simp add: skip_ws_append_ws join_sep_Cons)
    have "scan_items m' flt ?tail = Some (Inr (map dec vs, rest))"
      using Cons.IH [of m'] Cons.prems m' \<open>vs = w # ws\<close> by simp
    with hd sw tl m \<open>vs = w # ws\<close> show ?thesis
      by (simp add: map_res_def)
  qed
qed

lemma scan_members_join:
  assumes IH: "\<And>k x m r. (k, x) \<in> set kvs \<Longrightarrow> stops r \<Longrightarrow> jsize x \<le> m \<Longrightarrow>
                 scan_value m flt (enc x @ r) = Some (Inr (dec x, r))"
    and first: "\<And>k x. (k, x) \<in> set kvs \<Longrightarrow> \<exists>c cs. enc x = c # cs \<and> \<not> is_ws c"
    and keys: "list_all (\<lambda>(k, x). list_all is_scalar k) kvs"
    and ksep: "sep_ok 0x3A ksep" and sep: "sep_ok 0x2C sep" and post: "list_all is_ws post"
    and ne: "kvs \<noteq> []" and fuel: "length kvs + sum_list (map (\<lambda>(k, x). jsize x) kvs) \<le> m"
  shows "scan_members m flt (join_sep sep (map (\<lambda>(k, x). encode_str k @ ksep @ enc x) kvs) @ post @ 0x7D # rest)
         = Some (Inr (map (\<lambda>(k, x). (k, dec x)) kvs, rest))"
  using IH first keys ne fuel
proof (induction kvs arbitrary: m)
  case Nil
  then show ?case by simp
next
  case (Cons kv kvs)
  obtain k v where kv: "kv = (k, v)"
    by (cases kv)
  from Cons.prems(5) kv obtain m' where m: "m = Suc m'"
    and m': "jsize v + length kvs + sum_list (map (\<lambda>(k, x). jsize x) kvs) \<le> m'"
    by (cases m) auto
  have key: "parse_chars (concat (map escape_cp k) @ 0x22 # y) = Some (k, y)" for y
    using Cons.prems(3) kv by (simp add: parse_chars_encoded)
  obtain c cs where ev: "enc v = c # cs" "\<not> is_ws c"
    using Cons.prems(2) [of k v] kv by auto
  have colon: "skip_ws (drop 1 (skip_ws (ksep @ enc v @ y))) = enc v @ y" "take 1 (skip_ws (ksep @ enc v @ y)) = [0x3A]"
    for y
  proof -
    obtain kw where "skip_ws (ksep @ enc v @ y) = 0x3A # kw @ enc v @ y" "list_all is_ws kw"
      using sep_ok_skip [OF ksep] by blast
    with ev show "skip_ws (drop 1 (skip_ws (ksep @ enc v @ y))) = enc v @ y"
      "take 1 (skip_ws (ksep @ enc v @ y)) = [0x3A]"
      by (simp_all add: skip_ws_append_ws)
  qed
  show ?case
  proof (cases kvs)
    case Nil
    have "scan_value m' flt (enc v @ post @ 0x7D # rest) = Some (Inr (dec v, post @ 0x7D # rest))"
      using Cons.prems(1) [of k v "post @ 0x7D # rest" m'] kv m' stops_close [OF post] by simp
    moreover have "skip_ws (post @ 0x7D # rest) = 0x7D # rest"
      using post by (simp add: skip_ws_append_ws is_ws_def)
    ultimately show ?thesis
      using Nil m kv key colon [of "post @ 0x7D # rest"] by (simp add: encode_str_def del: scan_value.simps)
  next
    case (Cons kw kws)
    let ?tail = "join_sep sep (map (\<lambda>(k, x). encode_str k @ ksep @ enc x) kvs) @ post @ 0x7D # rest"
    have hd: "scan_value m' flt (enc v @ sep @ ?tail) = Some (Inr (dec v, sep @ ?tail))"
      using Cons.prems(1) [of k v "sep @ ?tail" m'] kv m' stops_sep_ok [OF sep] by simp
    obtain sw where sw: "skip_ws (sep @ ?tail) = 0x2C # sw @ ?tail" "list_all is_ws sw"
      using sep_ok_skip [OF sep] by blast
    obtain k' w where kw: "kw = (k', w)"
      by (cases kw)
    have tl: "skip_ws (drop 1 (skip_ws (sep @ ?tail))) = ?tail"
      using sw Cons kw by (simp add: skip_ws_append_ws join_sep_Cons encode_str_def is_ws_def)
    have p1: "\<And>k x m r. (k, x) \<in> set kvs \<Longrightarrow> stops r \<Longrightarrow> jsize x \<le> m \<Longrightarrow>
                scan_value m flt (enc x @ r) = Some (Inr (dec x, r))"
      using Cons.prems(1) by (meson list.set_intros(2))
    have p2: "\<And>k x. (k, x) \<in> set kvs \<Longrightarrow> \<exists>c cs. enc x = c # cs \<and> \<not> is_ws c"
      using Cons.prems(2) by (meson list.set_intros(2))
    have p3: "list_all (\<lambda>(k, x). list_all is_scalar k) kvs"
      using Cons.prems(3) by simp
    have p5: "length kvs + sum_list (map (\<lambda>(k, x). jsize x) kvs) \<le> m'"
      using m' by simp
    have "scan_members m' flt ?tail = Some (Inr (map (\<lambda>(k, x). (k, dec x)) kvs, rest))"
      using Cons.IH [OF p1 p2 p3 _ p5] \<open>kvs = kw # kws\<close> by simp
    with hd sw tl m kv key colon [of "sep @ ?tail"] \<open>kvs = kw # kws\<close> show ?thesis
      by (simp add: map_res_def encode_str_def del: scan_value.simps)
  qed
qed

lemma update_new: "k \<notin> set (map fst d) \<Longrightarrow> AList.update k v d = d @ [(k, v)]"
  by (induction d) auto

lemma py_dict_distinct: "distinct (map fst kvs) \<Longrightarrow> py_dict kvs = kvs"
proof -
  have "distinct (map fst (d @ kvs)) \<Longrightarrow> foldl (\<lambda>d (k, v). AList.update k v d) d kvs = d @ kvs" for d
    by (induction kvs arbitrary: d) (auto simp: update_new)
  from this [of "[]"] show "distinct (map fst kvs) \<Longrightarrow> py_dict kvs = kvs"
    by (simp add: py_dict_def)
qed

lemma scan_value_number:
  assumes "is_digit c \<or> (c = 0x2D \<and> take 1 cs \<noteq> [0x49])"
  shows "scan_value (Suc m) flt (c # cs) =
    Some (case scan_number (c # cs) of None \<Rightarrow> Inl JSONDecodeError
          | Some (tok, f, r) \<Rightarrow> map_sum id (\<lambda>v. (v, r)) (number_value flt tok f))"
proof (cases "is_digit c")
  case True
  then have "48 \<le> c" "c \<le> 57"
    by (simp_all add: is_digit_def)
  then show ?thesis
    by (simp add: ascii_def)
next
  case False
  with assms have c: "c = 0x2D" "take 1 cs \<noteq> [0x49]"
    by auto
  then show ?thesis
    by (cases cs) (simp_all add: ascii_def)
qed

lemma int_repr_start: "\<exists>c cs. int_repr i = c # cs \<and> (is_digit c \<or> (c = 0x2D \<and> take 1 cs \<noteq> [0x49]))"
proof -
  obtain d ds where "nat_digits (nat (- i)) = d # ds" "is_digit d"
    using nat_digits_digits [of "nat (- i)"] by (cases "nat_digits (nat (- i))") auto
  moreover obtain e es where "nat_digits (nat i) = e # es" "is_digit e"
    using nat_digits_digits [of "nat i"] by (cases "nat_digits (nat i)") auto
  ultimately show ?thesis
    by (auto simp: int_repr_def is_digit_def)
qed

lemma scan_unsigned_Some: "scan_unsigned s \<noteq> None \<Longrightarrow> \<exists>d ds. s = d # ds \<and> is_digit d"
  by (cases s) (simp_all add: scan_unsigned_def split: if_split_asm)

lemma float_number_start:
  assumes "scan_number t = Some (t, True, [])"
  shows "\<exists>c cs. t = c # cs \<and> (is_digit c \<or> (c = 0x2D \<and> take 1 cs \<noteq> [0x49]))"
proof (cases "take 1 t = [0x2D]")
  case True
  then obtain cs where t: "t = 0x2D # cs"
    by (cases t) auto
  with assms have "scan_unsigned cs \<noteq> None"
    by (auto simp: scan_number_def)
  then obtain d ds where "cs = d # ds" "is_digit d"
    using scan_unsigned_Some by blast
  with t show ?thesis
    by (auto simp: is_digit_def)
next
  case False
  with assms have "scan_unsigned t \<noteq> None"
    by (auto simp: scan_number_def)
  then show ?thesis
    using scan_unsigned_Some by blast
qed

lemma json_encode_start: "json_ok flt v \<Longrightarrow> \<exists>c cs. json_encode opts l v = c # cs \<and> \<not> is_ws c"
  by (erule json_encode_first) blast

lemma json_decoded_map: "map (json_decoded opts) vs = (if jo_sort_keys opts then map json_norm vs else vs)"
  by (induction vs) (simp_all add: json_decoded_def)

lemma scan_encode_arr:
  assumes IH: "\<And>x m r. x \<in> set vs \<Longrightarrow> stops r \<Longrightarrow> jsize x \<le> m \<Longrightarrow>
               scan_value m flt (json_encode opts (Suc l) x @ r) = Some (Inr (json_decoded opts x, r))"
    and ok: "opts_ok opts" "json_ok flt (JArr vs)" and fuel: "jsize (JArr vs) \<le> n"
  shows "scan_value n flt (json_encode opts l (JArr vs) @ rest) = Some (Inr (json_decoded opts (JArr vs), rest))"
proof -
  from fuel obtain m where n: "n = Suc m" and m: "length vs + sum_list (map jsize vs) \<le> m"
    by (cases n) auto
  show ?thesis
  proof (cases "vs = []")
    case True
    with n show ?thesis
      by (simp add: json_container_def json_decoded_def is_ws_def)
  next
    case False
    let ?items = "map (json_encode opts (Suc l)) vs"
    obtain pre sep post where shape:
      "json_container opts l 0x5B 0x5D ?items = [0x5B] @ pre @ join_sep sep ?items @ post @ [0x5D]"
      "list_all is_ws pre" "list_all is_ws post" "\<exists>w. sep = jo_item_sep opts @ w \<and> list_all is_ws w"
      using json_container_shape [of ?items] False by blast
    have sep: "sep_ok 0x2C sep"
      using shape(4) ok(1) sep_ok_append_ws by (auto simp: opts_ok_def)
    have first: "\<And>x. x \<in> set vs \<Longrightarrow> \<exists>c cs. json_encode opts (Suc l) x = c # cs \<and> \<not> is_ws c"
      using ok(2) json_encode_start by (fastforce simp: list_all_iff)
    obtain v vs' where vs: "vs = v # vs'"
      using False by (cases vs) auto
    obtain c cs where ev: "json_encode opts (Suc l) v = c # cs" "\<not> is_ws c" "c \<noteq> 0x5D"
      using ok(2) vs by (auto elim!: json_encode_first)
    have body: "skip_ws (pre @ join_sep sep ?items @ post @ 0x5D # rest) = join_sep sep ?items @ post @ 0x5D # rest"
      using shape(2) ev vs by (simp add: skip_ws_append_ws join_sep_Cons)
    have first_ne: "take 1 (join_sep sep ?items @ post @ 0x5D # rest) \<noteq> [0x5D]"
      using ev vs by (simp add: join_sep_Cons)
    have "scan_items m flt (join_sep sep ?items @ post @ 0x5D # rest) = Some (Inr (map (json_decoded opts) vs, rest))"
      by (rule scan_items_join [OF IH first sep shape(3) False m])
    with n shape(1) body first_ne show ?thesis
      by (simp add: map_res_def json_decoded_def json_decoded_map del: scan_items.simps)
  qed
qed

lemma scan_encode_obj:
  assumes IH: "\<And>k x m r. (k, x) \<in> set kvs \<Longrightarrow> stops r \<Longrightarrow> jsize x \<le> m \<Longrightarrow>
               scan_value m flt (json_encode opts (Suc l) x @ r) = Some (Inr (json_decoded opts x, r))"
    and ok: "opts_ok opts" "json_ok flt (JObj kvs)" and fuel: "jsize (JObj kvs) \<le> n"
  shows "scan_value n flt (json_encode opts l (JObj kvs) @ rest) = Some (Inr (json_decoded opts (JObj kvs), rest))"
proof -
  let ?kvs = "if jo_sort_keys opts then sort_key fst kvs else kvs"
  let ?items = "map (\<lambda>(k, v). encode_str k @ jo_key_sep opts @ json_encode opts (Suc l) v) ?kvs"
  have set_kvs: "set ?kvs = set kvs"
    by simp
  have "sum_list (map (\<lambda>(k, x). jsize x) ?kvs) = sum_list (map (\<lambda>(k, x). jsize x) kvs)"
    by (simp add: sum_list_sort_key)
  with fuel obtain m where n: "n = Suc m" and m: "length ?kvs + sum_list (map (\<lambda>(k, x). jsize x) ?kvs) \<le> m"
    by (cases n) auto
  have dist: "distinct (map fst ?kvs)"
  proof -
    have "mset (map fst ?kvs) = mset (map fst kvs)"
      by simp
    with ok(2) show ?thesis
      by (metis json_ok.simps(2) mset_eq_imp_distinct_iff)
  qed
  show ?thesis
  proof (cases "kvs = []")
    case True
    with n show ?thesis
      by (simp add: json_container_def json_decoded_def is_ws_def)
  next
    case False
    then have ne: "?kvs \<noteq> []"
      by (simp add: sort_key_Nil_iff)
    obtain pre sep post where shape:
      "json_container opts l 0x7B 0x7D ?items = [0x7B] @ pre @ join_sep sep ?items @ post @ [0x7D]"
      "list_all is_ws pre" "list_all is_ws post" "\<exists>w. sep = jo_item_sep opts @ w \<and> list_all is_ws w"
      using json_container_shape [of ?items] ne by blast
    have sep: "sep_ok 0x2C sep"
      using shape(4) ok(1) sep_ok_append_ws by (auto simp: opts_ok_def)
    have ksep: "sep_ok 0x3A (jo_key_sep opts)"
      using ok(1) by (simp add: opts_ok_def)
    have IH': "\<And>k x m r. (k, x) \<in> set ?kvs \<Longrightarrow> stops r \<Longrightarrow> jsize x \<le> m \<Longrightarrow>
               scan_value m flt (json_encode opts (Suc l) x @ r) = Some (Inr (json_decoded opts x, r))"
      using IH set_kvs by blast
    have first: "\<And>k x. (k, x) \<in> set ?kvs \<Longrightarrow> \<exists>c cs. json_encode opts (Suc l) x = c # cs \<and> \<not> is_ws c"
      using ok(2) set_kvs json_encode_start by (fastforce simp: list_all_iff)
    have keys: "list_all (\<lambda>(k, x). list_all is_scalar k) ?kvs"
      using ok(2) by (auto simp: list_all_iff)
    obtain kv kvs' where kvs: "?kvs = kv # kvs'"
      using ne by (cases ?kvs) auto
    have body: "skip_ws (pre @ join_sep sep ?items @ post @ 0x7D # rest) = join_sep sep ?items @ post @ 0x7D # rest"
      and first_ne: "take 1 (join_sep sep ?items @ post @ 0x7D # rest) \<noteq> [0x7D]"
      using shape(2) kvs by (auto simp: skip_ws_append_ws join_sep_Cons encode_str_def is_ws_def split: prod.split)
    have "scan_members m flt (join_sep sep ?items @ post @ 0x7D # rest)
          = Some (Inr (map (\<lambda>(k, x). (k, json_decoded opts x)) ?kvs, rest))"
      by (rule scan_members_join [OF IH' first keys ksep sep shape(3) ne m])
    moreover have "distinct (map fst (map (\<lambda>(k, x). (k, json_decoded opts x)) ?kvs))"
      using dist by (simp add: case_prod_beta comp_def)
    moreover have "map (\<lambda>(k, x). (k, json_decoded opts x)) kvs = kvs" if "\<not> jo_sort_keys opts"
      using that by (induction kvs) (auto simp: json_decoded_def)
    ultimately show ?thesis
      using n shape(1) body first_ne
      by (simp add: map_res_def json_decoded_def py_dict_distinct del: scan_members.simps)
  qed
qed

lemma stops_take1: "stops rest \<Longrightarrow> take 1 rest \<noteq> [0x49]"
  by (cases rest) (auto simp: stops_def is_ws_def)

lemma scan_encode:
  "opts_ok opts \<Longrightarrow> json_ok flt v \<Longrightarrow> stops rest \<Longrightarrow> jsize v \<le> n \<Longrightarrow>
   scan_value n flt (json_encode opts l v @ rest) = Some (Inr (json_decoded opts v, rest))"
proof (induction opts l v arbitrary: n rest rule: json_encode.induct)
  case (1 opts l vs)
  have IH: "\<And>x m r. x \<in> set vs \<Longrightarrow> stops r \<Longrightarrow> jsize x \<le> m \<Longrightarrow>
             scan_value m flt (json_encode opts (Suc l) x @ r) = Some (Inr (json_decoded opts x, r))"
    using "1.IH" "1.prems"(1,2) by (simp add: list_all_iff)
  from scan_encode_arr [OF IH "1.prems"(1,2,4)] show ?case .
next
  case (2 opts l kvs)
  have IH: "\<And>k x m r. (k, x) \<in> set kvs \<Longrightarrow> stops r \<Longrightarrow> jsize x \<le> m \<Longrightarrow>
             scan_value m flt (json_encode opts (Suc l) x @ r) = Some (Inr (json_decoded opts x, r))"
    using "2.IH" "2.prems"(1,2) by (fastforce simp: list_all_iff)
  from scan_encode_obj [OF IH "2.prems"(1,2,4)] show ?case .
next
  case (3 opts l)
  then show ?case
    by (cases n) (simp_all add: ascii_def json_decoded_def)
next
  case (4 opts l b)
  then show ?case
    by (cases n; cases b) (simp_all add: ascii_def json_decoded_def)
next
  case (5 opts l i)
  from "5.prems"(4) obtain m where n: "n = Suc m"
    by (cases n) auto
  obtain c cs where ic: "int_repr i = c # cs" "is_digit c \<or> (c = 0x2D \<and> take 1 cs \<noteq> [0x49])"
    using int_repr_start by blast
  have num: "scan_number (int_repr i @ rest) = Some (int_repr i, False, rest)"
    using scan_number_append [OF "5.prems"(3), of "int_repr i"] by (simp add: scan_number_int_repr)
  have pre: "is_digit c \<or> (c = 0x2D \<and> take 1 (cs @ rest) \<noteq> [0x49])"
    using ic(2) stops_take1 [OF "5.prems"(3)] by (cases cs) auto
  have "scan_value (Suc m) flt (c # cs @ rest) =
    Some (case scan_number (c # cs @ rest) of None \<Rightarrow> Inl JSONDecodeError
          | Some (tok, f, r) \<Rightarrow> map_sum id (\<lambda>v. (v, r)) (number_value flt tok f))"
    by (rule scan_value_number [OF pre])
  moreover have "number_value flt (int_repr i) False = Inr (JInt i)"
    using "5.prems"(2) by (simp add: number_value_int_repr)
  ultimately show ?case
    using n ic num by (simp add: json_decoded_def del: scan_value.simps)
next
  case (6 opts l t)
  from "6.prems"(4) obtain m where n: "n = Suc m"
    by (cases n) auto
  consider "t = ascii ''NaN''" | "t = ascii ''Infinity''" | "t = ascii ''-Infinity''"
    | "scan_number t = Some (t, True, [])" "flt t = t"
    using "6.prems"(2) by (auto simp: float_text_ok_def)
  then show ?case
  proof cases
    case 4
    obtain c cs where tc: "t = c # cs" "is_digit c \<or> (c = 0x2D \<and> take 1 cs \<noteq> [0x49])"
      using float_number_start [OF 4(1)] by blast
    have num: "scan_number (t @ rest) = Some (t, True, rest)"
      using scan_number_append [OF "6.prems"(3), of t] 4(1) by simp
    have pre: "is_digit c \<or> (c = 0x2D \<and> take 1 (cs @ rest) \<noteq> [0x49])"
      using tc(2) stops_take1 [OF "6.prems"(3)] by (cases cs) auto
    have "scan_value (Suc m) flt (c # cs @ rest) =
      Some (case scan_number (c # cs @ rest) of None \<Rightarrow> Inl JSONDecodeError
            | Some (tok, f, r) \<Rightarrow> map_sum id (\<lambda>v. (v, r)) (number_value flt tok f))"
      by (rule scan_value_number [OF pre])
    with n tc num 4(2) show ?thesis
      by (simp add: number_value_def json_decoded_def del: scan_value.simps)
  qed (use n in \<open>simp_all add: ascii_def json_decoded_def\<close>)
next
  case (7 opts l s)
  then show ?case
    by (cases n) (simp_all add: encode_str_def parse_chars_encoded json_decoded_def)
qed

lemma length_join_sep:
  "xs \<noteq> [] \<Longrightarrow> length (join_sep sep xs) + length sep = sum_list (map length xs) + length xs * length sep"
proof (induction sep xs rule: join_sep.induct)
  case (3 sep x y ys)
  then show ?case by simp
qed simp_all

lemma sep_ok_nonempty: "sep_ok c sep \<Longrightarrow> sep \<noteq> []"
  by (cases sep) (simp_all add: sep_ok_def)

lemma json_container_length:
  assumes "items \<noteq> []" and "jo_item_sep opts \<noteq> []"
  shows "1 + sum_list (map length items) + length items \<le> length (json_container opts l opn cls items)"
proof -
  obtain pre sep post where shape:
    "json_container opts l opn cls items = [opn] @ pre @ join_sep sep items @ post @ [cls]"
    "list_all is_ws pre" "list_all is_ws post" "\<exists>w. sep = jo_item_sep opts @ w \<and> list_all is_ws w"
    by (rule json_container_shape [OF assms(1)])
  from shape(4) assms(2) have sep: "1 \<le> length sep"
    by (auto simp: Suc_le_eq)
  have len: "length (join_sep sep items) + length sep = sum_list (map length items) + length items * length sep"
    by (rule length_join_sep [OF assms(1)])
  have "length items + length sep \<le> length items * length sep + 1"
    using assms(1) sep by (cases "length items"; cases "length sep") auto
  moreover have "length (json_container opts l opn cls items) = 2 + length pre + length (join_sep sep items) + length post"
    using shape(1) by simp
  ultimately show ?thesis
    using len by linarith
qed

lemma sum_list_mono_map:
  fixes f g :: "'a \<Rightarrow> nat"
  shows "(\<And>x. x \<in> set xs \<Longrightarrow> f x \<le> g x) \<Longrightarrow> sum_list (map f xs) \<le> sum_list (map g xs)"
  by (induction xs) (auto intro: add_mono)

lemma sum_list_map_Suc: "sum_list (map (\<lambda>x. Suc (f x)) xs) = length xs + sum_list (map f xs)"
  by (induction xs) simp_all

lemma jsize_le_encode:
  "opts_ok opts \<Longrightarrow> json_ok flt v \<Longrightarrow> jsize v \<le> length (json_encode opts l v)"
proof (induction opts l v rule: json_encode.induct)
  case (1 opts l vs)
  show ?case
  proof (cases "vs = []")
    case False
    have sep: "jo_item_sep opts \<noteq> []"
      using "1.prems"(1) sep_ok_nonempty by (auto simp: opts_ok_def)
    have "sum_list (map jsize vs) \<le> sum_list (map (\<lambda>x. length (json_encode opts (Suc l) x)) vs)"
      using "1.IH" "1.prems" by (intro sum_list_mono_map) (simp add: list_all_iff)
    moreover have "1 + sum_list (map length (map (json_encode opts (Suc l)) vs)) + length vs
                   \<le> length (json_encode opts l (JArr vs))"
      using json_container_length [where items = "map (json_encode opts (Suc l)) vs" and opts = opts and l = l and opn = "0x5B" and cls = "0x5D"] False sep by simp
    ultimately show ?thesis
      using False by (simp add: comp_def)
  qed (simp add: json_container_def)
next
  case (2 opts l kvs)
  let ?kvs = "if jo_sort_keys opts then sort_key fst kvs else kvs"
  let ?f = "\<lambda>(k, v). encode_str k @ jo_key_sep opts @ json_encode opts (Suc l) v"
  show ?case
  proof (cases "kvs = []")
    case False
    then have ne: "?kvs \<noteq> []"
      by (simp add: sort_key_Nil_iff)
    have sep: "jo_item_sep opts \<noteq> []"
      using "2.prems"(1) sep_ok_nonempty by (auto simp: opts_ok_def)
    have "sum_list (map (\<lambda>(k, x). 1 + jsize x) ?kvs) \<le> sum_list (map (\<lambda>kv. length (?f kv)) ?kvs)"
    proof (rule sum_list_mono_map)
      fix kv
      assume kv: "kv \<in> set ?kvs"
      obtain k x where kx: "kv = (k, x)"
        by (cases kv)
      have "(k, x) \<in> set kvs"
        using kv kx by (simp split: if_split_asm)
      then have "json_ok flt x"
        using "2.prems"(2) by (auto simp: list_all_iff)
      then have "jsize x \<le> length (json_encode opts (Suc l) x)"
        using "2.IH" [OF kv [unfolded kx] refl] "2.prems"(1) by blast
      with kx encode_str_length [of k] show "(case kv of (k, x) \<Rightarrow> 1 + jsize x) \<le> length (?f kv)"
        by simp
    qed
    moreover have "sum_list (map (\<lambda>(k, x). 1 + jsize x) ?kvs) = length ?kvs + sum_list (map (\<lambda>(k, x). jsize x) kvs)"
      by (simp add: sum_list_sort_key split_def sum_list_map_Suc)
    moreover have "1 + sum_list (map length (map ?f ?kvs)) + length ?kvs \<le> length (json_encode opts l (JObj kvs))"
      using json_container_length [where items = "map ?f ?kvs" and opts = opts and l = l and opn = "0x7B" and cls = "0x7D"] ne sep by simp
    moreover have "sum_list (map length (map ?f ?kvs)) = sum_list (map (\<lambda>kv. length (?f kv)) ?kvs)"
      by (simp add: comp_def)
    moreover have "length ?kvs = length kvs"
      by simp
    moreover have "jsize (JObj kvs) = Suc (length kvs + sum_list (map (\<lambda>(k, x). jsize x) kvs))"
      by simp
    ultimately show ?thesis
      by linarith
  qed (simp add: json_container_def)
next
  case (5 opts l i)
  then show ?case
    using int_repr_shape [of i] by (cases "int_repr i") auto
next
  case (6 opts l t)
  then show ?case
    by (auto simp: float_text_ok_def ascii_def dest!: scan_number_hd)
next
  case (7 opts l s)
  then show ?case
    using encode_str_length [of s] by simp
qed (simp_all add: ascii_def)

lemma stops_Nil: "stops []"
  by (simp add: stops_def)

lemma json_loads_encode_text:
  assumes "opts_ok opts" and "json_ok flt v"
  shows "json_loads flt (json_encode opts 0 v) = Inr (json_decoded opts v)"
proof -
  obtain c cs where e: "json_encode opts 0 v = c # cs" and c: "\<not> is_ws c"
    using json_encode_start [OF assms(2)] by blast
  have sk: "skip_ws (json_encode opts 0 v) = json_encode opts 0 v"
    using e c by simp
  have "jsize v \<le> 2 * length (json_encode opts 0 v) + 1"
    using jsize_le_encode [OF assms, of 0] by simp
  from scan_encode [OF assms stops_Nil this]
  have "scan_value (2 * length (json_encode opts 0 v) + 1) flt (json_encode opts 0 v) = Some (Inr (json_decoded opts v, []))"
    by simp
  then show ?thesis
    by (simp add: json_loads_def sk)
qed

section \<open>Properties\<close>

text \<open>
  C26: What \<open>json.dumps\<close>/\<open>json.dump\<close> writes, \<open>json.loads\<close>/\<open>json.load\<close> reads back:
  for every choice of the options whose separators are a comma and a colon padded with
  whitespace (\<open>opts_ok\<close>: every separator CPython's defaults and \<open>indent\<close> produce),
  and every value whose dicts have distinct keys of scalar values, whose strings hold scalar
  values, whose \<open>int\<close>s have at most 4300 digits and whose floats are printed as float
  literals that \<open>float()\<close> reads back to the same text, loading the encoded text gives
  the value back, with its dicts sorted by key when \<open>sort_keys\<close> is set.
\<close>

theorem json_loads_encode:
  assumes "opts_ok opts" and "json_ok flt v"
  shows "json_loads flt (json_encode opts 0 v) = Inr (json_decoded opts v)"
  using assms by (rule json_loads_encode_text)

theorem json_loads_encode_witness:
  "opts_ok indent2_opts \<and> json_ok (\<lambda>t. t) (JObj [(ascii ''a'', JArr [JInt 10, JNull]), (ascii ''b'', JFloat (ascii ''1.5''))])
   \<and> json_loads (\<lambda>t. t) (json_encode indent2_opts 0 (JObj [(ascii ''a'', JArr [JInt 10, JNull]), (ascii ''b'', JFloat (ascii ''1.5''))]))
     = Inr (JObj [(ascii ''a'', JArr [JInt 10, JNull]), (ascii ''b'', JFloat (ascii ''1.5''))])"
proof -
  have o: "opts_ok indent2_opts"
    by (simp add: opts_ok_def sep_ok_def indent2_opts_def is_ws_def)
  have j: "json_ok (\<lambda>t. t) (JObj [(ascii ''a'', JArr [JInt 10, JNull]), (ascii ''b'', JFloat (ascii ''1.5''))])"
    by (simp add: ascii_def float_text_ok_def scan_number_def scan_unsigned_def scan_frac_def scan_exp_def
        is_digit_def is_scalar_def is_surrogate_def nat_digits.simps)
  show ?thesis
    using o j json_loads_encode [OF o j] by (simp add: json_decoded_def indent2_opts_def)
qed

text \<open>
  C27: \<open>json_loads\<close> never runs out of fuel: on every input the scanner, given twice the
  length of the input plus one steps, returns a value or an exception, so that
  \<open>json_loads\<close> is the exact function CPython's recursive scanner computes (whose every
  call consumes input) and its \<open>None\<close> branch is never taken.
\<close>

theorem json_loads_fuel: "scan_value (2 * length s + 1) flt (skip_ws s) \<noteq> None"
proof -
  have "length (skip_ws s) \<le> length s"
    by (rule length_dropWhile_le)
  then show ?thesis
    by (intro scan_fuel(1)) simp
qed

end
