(* ===== verification/MongoDB.thy ===== *)
theory MongoDB
  imports Benchmarks JsonLoad Report
begin

text \<open>
  \<open>test_mongodb_complete.py\<close>.  The file system is a map from a path to the text that
  \<open>open(path, 'r').read()\<close> returns (the decoding of the bytes and the newline translation of
  text mode are not modelled; \<open>os.path.exists\<close> holds of the paths the map defines).
  \<^item> \<open>load_test_data\<close> (lines 28--42) prints, reads and parses the data file with
    \<open>json_loads\<close>, and calls \<open>len\<close> on the result (\<open>py_len\<close>, a \<open>TypeError\<close> for a number,
    a boolean or \<open>None\<close>).
  \<^item> The four tests (lines 44--186) print a header, try to import their function from
    \<open>architect_system\<close> (\<open>me_importable\<close>) and, when it imports, time it.  What the imported
    functions return is only printed or measured, so the model takes their results and
    the measured times as inputs (\<open>mongo_env\<close>); \<open>bulk_insert\<close> is the one whose
    arguments matter, and \<open>test_insert_performance\<close> returns the list of batches it is
    called with.  Float formatting is the parameter \<open>ff\<close>, \<open>float.__repr__\<close> the
    parameter \<open>fr\<close>, SHA-256 with \<open>hexdigest\<close> the parameter \<open>sha\<close>.
  \<^item> \<open>mongo_main\<close> is \<open>main\<close> (lines 188--237): the header, the data, the four tests,
    the proof record and its hash, the summary, and the saving of the record with
    \<open>json.dump(proof, f, indent=2)\<close> into \<open>results/mongodb_destruction.json\<close>, which raises
    \<open>FileNotFoundError\<close> when the directory \<open>results\<close> does not exist
    (\<open>me_results_dir\<close>).  The result is the printed lines, the batches handed to
    \<open>bulk_insert\<close>, and the proof hash with the saved text, or the exception.
  Subscripting a dict with a slice (\<open>data[i:i+batch_size]\<close> on a JSON object) raises
  \<open>KeyError\<close>, as in Python 3.12 and later (slices are hashable there; earlier versions raise
  \<open>TypeError\<close>).
\<close>

section \<open>Definitions\<close>

definition mongodb_claims :: "(pystr \<times> claim_entry) list" where
  "mongodb_claims =
     [(ascii ''search'', claim_entry 120 ''ms'' ''average query time''),
      (ascii ''insert'', claim_entry 50000 ''docs/sec'' ''bulk insert rate''),
      (ascii ''update'', claim_entry 30000 ''ops/sec'' ''update operations''),
      (ascii ''aggregation'', claim_entry 2300 ''ms'' ''complex aggregation on 100M docs''),
      (ascii ''compression'', claim_entry 70 ''percent'' ''WiredTiger compression'')]"

type_synonym text_fs = "pystr \<Rightarrow> pystr option"

definition py_len :: "json \<Rightarrow> py_error + nat" where
  "py_len v =
     (case v of
        JArr vs \<Rightarrow> Inr (length vs)
      | JObj kvs \<Rightarrow> Inr (length kvs)
      | JStr s \<Rightarrow> Inr (length s)
      | _ \<Rightarrow> Inl TypeError)"

text \<open>Truth of a value loaded from JSON; a float is carried by its \<open>repr\<close>, which is
  \<open>0.0\<close> or \<open>-0.0\<close> exactly for a zero.\<close>

primrec json_truthy :: "json \<Rightarrow> bool" where
  "json_truthy JNull = False"
| "json_truthy (JBool b) = b"
| "json_truthy (JInt i) = (i \<noteq> 0)"
| "json_truthy (JFloat t) = (t \<noteq> ascii ''0.0'' \<and> t \<noteq> ascii ''-0.0'')"
| "json_truthy (JStr s) = (s \<noteq> [])"
| "json_truthy (JArr vs) = (vs \<noteq> [])"
| "json_truthy (JObj kvs) = (kvs \<noteq> [])"

definition load_test_data ::
  "text_fs \<Rightarrow> float_of_text \<Rightarrow> int \<Rightarrow> pystr list \<times> (py_error + json option)"
where
  "load_test_data fs flt size_gb =
     (let data_file = wiki_file_name size_gb;
          out0 = [ascii ''Loading '' @ data_file @ ascii ''...'']
      in case fs data_file of
           None \<Rightarrow>
             (out0 @ [ascii ''ERROR: Download test data first!'', ascii ''Run: ./download_test_data.sh''],
              Inr None)
         | Some text \<Rightarrow>
             (case json_loads flt text of
                Inl e \<Rightarrow> (out0, Inl e)
              | Inr data \<Rightarrow>
                  (case py_len data of
                     Inl e \<Rightarrow> (out0, Inl e)
                   | Inr n \<Rightarrow>
                       (out0 @ [ascii ''Loaded '' @ fmt_commas (int n) @ ascii '' documents (''
                                  @ int_repr size_gb @ ascii ''GB)''],
                        Inr (Some data)))))"

record mongo_env =
  me_now :: pystr
  me_now2 :: pystr
  me_test_hash :: pystr
  me_importable :: bool
  me_search_results :: "nat \<Rightarrow> nat"
  me_search_ms :: "nat \<Rightarrow> rat"
  me_insert_secs :: rat
  me_aggregate_ms :: rat
  me_compressed_size :: nat
  me_results_dir :: bool

definition mongo_header :: "string \<Rightarrow> string \<Rightarrow> (int \<Rightarrow> pystr) \<Rightarrow> pystr list \<times> (py_error + int)" where
  "mongo_header title key line3 =
     (case claim_value mongodb_claims key of
        Inl e \<Rightarrow> ([[10] @ rule60, ascii title], Inl e)
      | Inr v \<Rightarrow> ([[10] @ rule60, ascii title, line3 v, rule60], Inr v))"

definition mongo_queries :: "pystr list" where
  "mongo_queries =
     [ascii ''distributed systems'', ascii ''quantum computing'', ascii ''machine learning'',
      ascii ''database architecture'', ascii ''compression algorithms'']"

definition test_search_performance ::
  "mongo_env \<Rightarrow> float_fmt \<Rightarrow> pystr list \<times> (py_error + (rat \<times> rat) option)"
where
  "test_search_performance env ff =
     out_bind (mongo_header ''TEST 1: SEARCH PERFORMANCE'' ''search''
                 (\<lambda>v. ascii ''MongoDB claims: '' @ int_repr v @ ascii ''ms average''))
     (\<lambda>_.
       if \<not> me_importable env then
         ([ascii ''ERROR: architect_system not available (private code)'',
           ascii ''This is expected - you don't have The Architect's code''], Inr None)
       else
         (let times = map (me_search_ms env) [0..<length mongo_queries];
              lines = map (\<lambda>i. ascii ''  Query '' @ [0x27] @ mongo_queries ! i @ [0x27] @ ascii '': ''
                                 @ ff (ascii ''.3f'') (times ! i) @ ascii ''ms (''
                                 @ int_repr (int (me_search_results env i)) @ ascii '' results)'')
                        [0..<length mongo_queries]
          in case py_div (sum_list times) (of_nat (length times)) of
               Inl e \<Rightarrow> (lines, Inl e)
             | Inr avg_time \<Rightarrow>
                 (case claim_value mongodb_claims ''search'' of
                    Inl e \<Rightarrow> (lines, Inl e)
                  | Inr claimed \<Rightarrow>
                      (case py_div (of_int claimed) avg_time of
                         Inl e \<Rightarrow> (lines, Inl e)
                       | Inr improvement \<Rightarrow>
                           (lines @ [[10] @ ascii ''Average: '' @ ff (ascii ''.3f'') avg_time @ ascii ''ms'',
                                     ascii ''MongoDB: '' @ int_repr claimed @ ascii ''ms'',
                                     ascii ''DESTRUCTION FACTOR: '' @ ff (ascii ''.0f'') improvement
                                       @ ascii ''x faster''],
                            Inr (Some (avg_time, improvement)))))))"

text \<open>\<open>data[i:j]\<close> on the loaded value.\<close>

definition json_slice :: "json \<Rightarrow> int \<Rightarrow> int \<Rightarrow> py_error + json" where
  "json_slice data i j =
     (case data of
        JArr vs \<Rightarrow> Inr (JArr (py_slice vs i j))
      | JStr s \<Rightarrow> Inr (JStr (py_slice s i j))
      | JObj _ \<Rightarrow> Inl KeyError
      | _ \<Rightarrow> Inl TypeError)"

text \<open>The loop \<open>for i in range(0, total_docs, batch_size)\<close> of lines 101--103: the batches
  handed to \<open>bulk_insert\<close>, in order, up to an exception.\<close>

fun insert_loop :: "json \<Rightarrow> int \<Rightarrow> int list \<Rightarrow> json list \<times> (py_error + unit)" where
  "insert_loop data k [] = ([], Inr ())"
| "insert_loop data k (i # idx) =
     (case json_slice data i (i + k) of
        Inl e \<Rightarrow> ([], Inl e)
      | Inr batch \<Rightarrow> (case insert_loop data k idx of (bs, r) \<Rightarrow> (batch # bs, r)))"

definition test_insert_performance ::
  "mongo_env \<Rightarrow> float_fmt \<Rightarrow> json \<Rightarrow> pystr list \<times> json list \<times> (py_error + (rat \<times> rat) option)"
where
  "test_insert_performance env ff data =
     (case mongo_header ''TEST 2: BULK INSERT PERFORMANCE'' ''insert''
             (\<lambda>v. ascii ''MongoDB claims: '' @ fmt_commas v @ ascii '' docs/sec'') of
        (hdr, Inl e) \<Rightarrow> (hdr, [], Inl e)
      | (hdr, Inr _) \<Rightarrow>
          if \<not> me_importable env then (hdr @ [ascii ''ERROR: architect_system not available''], [], Inr None)
          else
            (let batch_size = 100000
             in case py_len data of
                  Inl e \<Rightarrow> (hdr, [], Inl e)
                | Inr total_docs \<Rightarrow>
                    (case py_range 0 (int total_docs) batch_size of
                       Inl e \<Rightarrow> (hdr, [], Inl e)
                     | Inr idx \<Rightarrow>
                         (case insert_loop data batch_size idx of
                            (batches, Inl e) \<Rightarrow> (hdr, batches, Inl e)
                          | (batches, Inr _) \<Rightarrow>
                              (let elapsed = me_insert_secs env
                               in case py_div (of_nat total_docs) elapsed of
                                    Inl e \<Rightarrow> (hdr, batches, Inl e)
                                  | Inr docs_per_sec \<Rightarrow>
                                      (case claim_value mongodb_claims ''insert'' of
                                         Inl e \<Rightarrow> (hdr, batches, Inl e)
                                       | Inr claimed \<Rightarrow>
                                           (let improvement = docs_per_sec / of_int claimed
                                            in (hdr @
                                                  [ascii ''Inserted: '' @ fmt_commas (int total_docs) @ ascii '' documents'',
                                                   ascii ''Time: '' @ ff (ascii ''.2f'') elapsed @ ascii '' seconds'',
                                                   ascii ''Rate: '' @ ff (ascii '',.0f'') docs_per_sec @ ascii '' docs/sec'',
                                                   ascii ''MongoDB: '' @ fmt_commas claimed @ ascii '' docs/sec'',
                                                   ascii ''DESTRUCTION FACTOR: '' @ ff (ascii ''.0f'') improvement
                                                     @ ascii ''x faster''],
                                                batches, Inr (Some (docs_per_sec, improvement))))))))))"

definition test_aggregation_performance ::
  "mongo_env \<Rightarrow> float_fmt \<Rightarrow> json \<Rightarrow> pystr list \<times> (py_error + (rat \<times> rat) option)"
where
  "test_aggregation_performance env ff data =
     out_bind (mongo_header ''TEST 3: AGGREGATION PERFORMANCE'' ''aggregation''
                 (\<lambda>v. ascii ''MongoDB claims: '' @ int_repr v @ ascii ''ms on 100M docs''))
     (\<lambda>_.
       if \<not> me_importable env then ([ascii ''ERROR: architect_system not available''], Inr None)
       else
         (let elapsed = me_aggregate_ms env
          in case py_len data of
               Inl e \<Rightarrow> ([], Inl e)
             | Inr n \<Rightarrow>
                 (case py_div 100000000 (of_nat n) of
                    Inl e \<Rightarrow> ([], Inl e)
                  | Inr scale_factor \<Rightarrow>
                      (let estimated_time = elapsed * scale_factor
                       in case claim_value mongodb_claims ''aggregation'' of
                            Inl e \<Rightarrow> ([], Inl e)
                          | Inr claimed \<Rightarrow>
                              (case py_div (of_int claimed) estimated_time of
                                 Inl e \<Rightarrow> ([], Inl e)
                               | Inr improvement \<Rightarrow>
                                   ([ascii ''Aggregation on '' @ fmt_commas (int n) @ ascii '' docs: ''
                                       @ ff (ascii ''.2f'') elapsed @ ascii ''ms'',
                                     ascii ''Estimated for 100M docs: '' @ ff (ascii ''.2f'') estimated_time
                                       @ ascii ''ms'',
                                     ascii ''MongoDB claim: '' @ int_repr claimed @ ascii ''ms'',
                                     ascii ''DESTRUCTION FACTOR: '' @ ff (ascii ''.0f'') improvement
                                       @ ascii ''x faster''],
                                    Inr (Some (estimated_time, improvement))))))))"

definition test_compression ::
  "mongo_env \<Rightarrow> float_fmt \<Rightarrow> json \<Rightarrow> pystr list \<times> (py_error + (rat \<times> rat) option)"
where
  "test_compression env ff data =
     out_bind (mongo_header ''TEST 4: COMPRESSION PERFORMANCE'' ''compression''
                 (\<lambda>v. ascii ''MongoDB claims: '' @ int_repr v @ ascii ''% reduction''))
     (\<lambda>_.
       if \<not> me_importable env then ([ascii ''ERROR: architect_system not available''], Inr None)
       else
         (case py_str_encode (json_encode plain_opts 0 data) of
            Inl e \<Rightarrow> ([], Inl e)
          | Inr bs \<Rightarrow>
              (let original_size = length bs; compressed_size = me_compressed_size env
               in case py_div (of_int (int original_size - int compressed_size)) (of_nat original_size) of
                    Inl e \<Rightarrow> ([], Inl e)
                  | Inr q \<Rightarrow>
                      (let reduction = q * 100
                       in case claim_value mongodb_claims ''compression'' of
                            Inl e \<Rightarrow> ([], Inl e)
                          | Inr claimed \<Rightarrow>
                              (case py_div reduction (of_int claimed) of
                                 Inl e \<Rightarrow> ([], Inl e)
                               | Inr improvement \<Rightarrow>
                                   ([ascii ''Original size: '' @ fmt_commas (int original_size) @ ascii '' bytes'',
                                     ascii ''Compressed size: '' @ fmt_commas (int compressed_size) @ ascii '' bytes'',
                                     ascii ''Reduction: '' @ ff (ascii ''.1f'') reduction @ ascii ''%'',
                                     ascii ''MongoDB: '' @ int_repr claimed @ ascii ''%'',
                                     ascii ''DESTRUCTION FACTOR: '' @ ff (ascii ''.1f'') improvement
                                       @ ascii ''x better''],
                                    Inr (Some (reduction, improvement))))))))"

definition mongo_banner :: pystr where
  "mongo_banner = str_times [0xF8FF, 0xFC, 0xE8, 0xF3, 0xD4, 0x220F, 0xE8] 30"

text \<open>A test's returned dict (\<open>None\<close> when \<open>architect_system\<close> is missing) as JSON.\<close>

definition result_json :: "(rat \<Rightarrow> pystr) \<Rightarrow> string \<Rightarrow> (rat \<times> rat) option \<Rightarrow> json" where
  "result_json fr key r =
     (case r of
        None \<Rightarrow> JNull
      | Some (x, improvement) \<Rightarrow> JObj [(ascii key, JFloat (fr x)), (ascii ''improvement'', JFloat (fr improvement))])"

definition mongo_proof_json ::
  "(rat \<Rightarrow> pystr) \<Rightarrow> mongo_env \<Rightarrow> (rat \<times> rat) option \<Rightarrow> (rat \<times> rat) option \<Rightarrow> (rat \<times> rat) option
   \<Rightarrow> (rat \<times> rat) option \<Rightarrow> json"
where
  "mongo_proof_json fr env r1 r2 r3 r4 =
     JObj [(ascii ''test_file'', JStr (ascii ''test_mongodb_complete.py'')),
           (ascii ''test_hash'', JStr (me_test_hash env)),
           (ascii ''timestamp'', JStr (me_now2 env)),
           (ascii ''data_size_gb'', JInt 10),
           (ascii ''results'', JObj [(ascii ''search'', result_json fr ''search_ms'' r1),
                                     (ascii ''insert'', result_json fr ''insert_rate'' r2),
                                     (ascii ''aggregation'', result_json fr ''aggregation_ms'' r3),
                                     (ascii ''compression'', result_json fr ''compression_ratio'' r4)])]"

text \<open>The summary loop of lines 223--225: one line per test that returned a dict.\<close>

definition summary_lines :: "float_fmt \<Rightarrow> (string \<times> (rat \<times> rat) option) list \<Rightarrow> pystr list" where
  "summary_lines ff results =
     concat (map (\<lambda>(test, r). case r of
                                None \<Rightarrow> []
                              | Some (x, improvement) \<Rightarrow>
                                  [ascii test @ ascii '': '' @ ff (ascii ''.0f'') improvement @ ascii ''x better''])
                 results)"

definition mongo_main ::
  "text_fs \<Rightarrow> float_of_text \<Rightarrow> float_fmt \<Rightarrow> (rat \<Rightarrow> pystr) \<Rightarrow> (byte list \<Rightarrow> pystr) \<Rightarrow> mongo_env
   \<Rightarrow> pystr list \<times> json list \<times> (py_error + (pystr \<times> pystr) option)"
where
  "mongo_main fs flt ff fr sha env =
     (let hdr = [[10] @ mongo_banner, ascii ''THE ARCHITECT vs MONGODB'', ascii ''Date: '' @ me_now env,
                 ascii ''Patent: #63/841086'', ascii ''Test hash: '' @ take 16 (me_test_hash env) @ ascii ''...'',
                 mongo_banner]
      in case load_test_data fs flt 10 of
           (o1, Inl e) \<Rightarrow> (hdr @ o1, [], Inl e)
         | (o1, Inr None) \<Rightarrow> (hdr @ o1, [], Inr None)
         | (o1, Inr (Some data)) \<Rightarrow>
             if \<not> json_truthy data then (hdr @ o1, [], Inr None)
             else
               (case test_search_performance env ff of
                  (o2, Inl e) \<Rightarrow> (hdr @ o1 @ o2, [], Inl e)
                | (o2, Inr r1) \<Rightarrow>
                    (case test_insert_performance env ff data of
                       (o3, bs, Inl e) \<Rightarrow> (hdr @ o1 @ o2 @ o3, bs, Inl e)
                     | (o3, bs, Inr r2) \<Rightarrow>
                         (case test_aggregation_performance env ff data of
                            (o4, Inl e) \<Rightarrow> (hdr @ o1 @ o2 @ o3 @ o4, bs, Inl e)
                          | (o4, Inr r3) \<Rightarrow>
                              (case test_compression env ff data of
                                 (o5, Inl e) \<Rightarrow> (hdr @ o1 @ o2 @ o3 @ o4 @ o5, bs, Inl e)
                               | (o5, Inr r4) \<Rightarrow>
                                   (let out = hdr @ o1 @ o2 @ o3 @ o4 @ o5;
                                        proof = mongo_proof_json fr env r1 r2 r3 r4
                                    in case py_str_encode (json_dumps proof) of
                                         Inl e \<Rightarrow> (out, bs, Inl e)
                                       | Inr bytes \<Rightarrow>
                                           (let proof_hash = sha bytes;
                                                out' = out @ [[10] @ rule60, ascii ''FINAL DESTRUCTION SUMMARY'', rule60]
                                                  @ summary_lines ff [(''search'', r1), (''insert'', r2),
                                                                      (''aggregation'', r3), (''compression'', r4)]
                                                  @ [[10] @ ascii ''PROOF HASH: '' @ proof_hash,
                                                     [10] @ ascii ''@MongoDB - These are your published benchmarks.'',
                                                     ascii ''Run this test yourself. Post your hash.'',
                                                     ascii ''Your silence is your admission of defeat.'',
                                                     [10] @ ascii ''The Architect'']
                                            in if \<not> me_results_dir env then (out', bs, Inl FileNotFoundError)
                                               else (out', bs, Inr (Some (proof_hash, json_encode indent2_opts 0 proof))))))))))"

section \<open>Lemmas\<close>

lemma claim_value_mongo [simp]:
  "claim_value mongodb_claims ''search'' = Inr 120"
  "claim_value mongodb_claims ''insert'' = Inr 50000"
  "claim_value mongodb_claims ''aggregation'' = Inr 2300"
  "claim_value mongodb_claims ''compression'' = Inr 70"
  by (simp_all add: claim_value_def py_getitem_def mongodb_claims_def claim_entry_def ascii_def)

lemma insert_loop_arr:
  "insert_loop (JArr docs) k idx = (map (\<lambda>i. JArr (py_slice docs i (i + k))) idx, Inr ())"
  by (induction idx) (simp_all add: json_slice_def)

lemma insert_loop_chunks:
  "insert_loop (JArr docs) 100000 (range_from 0 (int (length docs)) 100000)
   = (map JArr (chunks_of 100000 docs), Inr ())"
proof -
  have "map (\<lambda>j. py_slice docs j (j + 100000)) (range_from 0 (int (length docs)) 100000)
        = chunks_of (nat 100000) (drop (nat 0) docs)"
    by (rule map_slices_range_from) simp_all
  then have "map JArr (map (\<lambda>j. py_slice docs j (j + 100000)) (range_from 0 (int (length docs)) 100000))
             = map JArr (chunks_of 100000 docs)"
    by simp
  then show ?thesis
    by (simp add: insert_loop_arr comp_def)
qed

lemma join_sep_ascii: "is_ascii sep \<Longrightarrow> list_all is_ascii xs \<Longrightarrow> is_ascii (join_sep sep xs)"
  by (induction sep xs rule: join_sep.induct) simp_all

lemma newline_indent_ascii: "is_ascii (newline_indent w l)"
  by (simp add: newline_indent_def list_all_iff)

lemma json_container_ascii:
  "is_ascii (jo_item_sep opts) \<Longrightarrow> list_all is_ascii items \<Longrightarrow> opn < 0x80 \<Longrightarrow> cls < 0x80 \<Longrightarrow>
   is_ascii (json_container opts l opn cls items)"
  by (auto simp: json_container_def join_sep_ascii newline_indent_ascii split: option.split)

lemma json_container_nonempty: "json_container opts l opn cls items \<noteq> []"
  by (simp add: json_container_def split: option.split)

lemma json_encode_ascii:
  "is_ascii (jo_item_sep opts) \<Longrightarrow> is_ascii (jo_key_sep opts) \<Longrightarrow> json_wf v \<Longrightarrow>
   is_ascii (json_encode opts l v)"
proof (induction opts l v rule: json_encode.induct)
  case (1 opts l vs)
  have "list_all is_ascii (map (json_encode opts (Suc l)) vs)"
    using "1.IH" "1.prems" by (induction vs) auto
  then show ?case
    using "1.prems"(1) by (simp add: json_container_ascii)
next
  case (2 opts l kvs)
  let ?kvs = "if jo_sort_keys opts then sort_key fst kvs else kvs"
  let ?f = "\<lambda>(k, v). encode_str k @ jo_key_sep opts @ json_encode opts (Suc l) v"
  have item: "is_ascii (?f kv)" if kv: "kv \<in> set ?kvs" for kv
  proof -
    obtain k v where kv': "kv = (k, v)"
      by (cases kv)
    have "(k, v) \<in> set kvs"
      using kv kv' by (simp split: if_split_asm)
    then have "json_wf v"
      using "2.prems"(3) by (auto simp: list_all_iff)
    then have "is_ascii (json_encode opts (Suc l) v)"
      using "2.IH" [OF kv [unfolded kv'] refl] "2.prems"(1,2) by blast
    then show ?thesis
      using "2.prems"(2) encode_str_ascii [of k] kv' by simp
  qed
  have "list_all is_ascii (map ?f ?kvs)"
    unfolding list.pred_map comp_def by (rule list.pred_mono_strong [of "\<lambda>_. True"]) (simp_all add: item list.pred_True)
  then show ?case
    using "2.prems"(1) by (simp add: json_container_ascii)
qed (simp_all del: json_dumps.simps add: json_dumps_ascii)

lemma json_encode_nonempty: "json_wf v \<Longrightarrow> json_encode opts l v \<noteq> []"
  by (cases v) (auto simp: json_container_nonempty float_lit_ok_def encode_str_def int_repr_shape ascii_def)

lemma int_repr_10: "int_repr 10 = ascii ''10''"
  by (simp add: int_repr_def nat_digits.simps ascii_def)

lemma load_test_data_encoded_text:
  assumes "opts_ok opts" and "json_ok flt (JArr docs)"
    and "fs (wiki_file_name 10) = Some (json_encode opts 0 (JArr docs))"
  shows "load_test_data fs flt 10 =
           ([ascii ''Loading '' @ wiki_file_name 10 @ ascii ''...'',
             ascii ''Loaded '' @ fmt_commas (int (length docs)) @ ascii '' documents (10GB)''],
            Inr (Some (json_decoded opts (JArr docs))))"
proof -
  have "json_loads flt (json_encode opts 0 (JArr docs)) = Inr (json_decoded opts (JArr docs))"
    using assms(1,2) by (rule json_loads_encode_text)
  moreover have "py_len (json_decoded opts (JArr docs)) = Inr (length docs)"
    by (simp add: json_decoded_def py_len_def)
  ultimately show ?thesis
    using assms(3) by (simp add: load_test_data_def Let_def int_repr_10 ascii_def)
qed

lemma tests_not_importable:
  assumes "\<not> me_importable env"
  shows "snd (test_search_performance env ff) = Inr None"
    and "test_insert_performance env ff data = (fst (test_insert_performance env ff data), [], Inr None)"
    and "snd (test_aggregation_performance env ff data) = Inr None"
    and "snd (test_compression env ff data) = Inr None"
  using assms
  by (simp_all add: test_search_performance_def test_insert_performance_def test_aggregation_performance_def
      test_compression_def mongo_header_def out_bind_def)

lemma mongo_proof_wf:
  "list_all is_scalar (me_test_hash env) \<Longrightarrow> list_all is_scalar (me_now2 env) \<Longrightarrow>
   json_wf (mongo_proof_json fr env None None None None)"
  by (simp add: mongo_proof_json_def result_json_def ascii_scalar)

section \<open>Properties\<close>

text \<open>
  C29: When the data file holds a list of documents written by \<open>json.dump\<close> or
  \<open>json.dumps\<close> (any options CPython accepts, values as in C26), \<open>load_test_data(10)\<close>
  prints its two lines, with the number of documents grouped by commas, and returns the
  documents themselves (sorted dicts when the writer sorted them).
\<close>

theorem load_test_data_encoded:
  assumes "opts_ok opts" and "json_ok flt (JArr docs)"
    and "fs (wiki_file_name 10) = Some (json_encode opts 0 (JArr docs))"
  shows "load_test_data fs flt 10 =
           ([ascii ''Loading '' @ wiki_file_name 10 @ ascii ''...'',
             ascii ''Loaded '' @ fmt_commas (int (length docs)) @ ascii '' documents (10GB)''],
            Inr (Some (json_decoded opts (JArr docs))))"
  using assms by (rule load_test_data_encoded_text)

theorem load_test_data_encoded_witness:
  "opts_ok plain_opts \<and> json_ok (\<lambda>t. t) (JArr [JInt 1])
   \<and> (\<lambda>f. if f = wiki_file_name 10 then Some (json_encode plain_opts 0 (JArr [JInt 1])) else None) (wiki_file_name 10) = Some (json_encode plain_opts 0 (JArr [JInt 1]))
   \<and> load_test_data (\<lambda>f. if f = wiki_file_name 10 then Some (json_encode plain_opts 0 (JArr [JInt 1])) else None) (\<lambda>t. t) 10 =
       ([ascii ''Loading '' @ wiki_file_name 10 @ ascii ''...'',
         ascii ''Loaded '' @ fmt_commas (int (length [JInt 1])) @ ascii '' documents (10GB)''],
        Inr (Some (json_decoded plain_opts (JArr [JInt 1]))))"
proof -
  have o: "opts_ok plain_opts"
    by (simp add: opts_ok_def sep_ok_def plain_opts_def is_ws_def)
  have j: "json_ok (\<lambda>t. t) (JArr [JInt 1])"
    by (simp add: nat_digits.simps)
  have f: "(\<lambda>f. if f = wiki_file_name 10 then Some (json_encode plain_opts 0 (JArr [JInt 1])) else None) (wiki_file_name 10) = Some (json_encode plain_opts 0 (JArr [JInt 1]))"
    by simp
  show ?thesis
    using o j f load_test_data_encoded [where fs = "(\<lambda>f. if f = wiki_file_name 10 then Some (json_encode plain_opts 0 (JArr [JInt 1])) else None)", OF o j f] by blast
qed

text \<open>
  C30: With \<open>architect_system\<close> available and a list of documents, the loop of
  \<open>test_insert_performance\<close> hands \<open>bulk_insert\<close> the consecutive slices of 100000
  documents, in order, so that every document is inserted exactly once (\<open>chunks_of\<close>);
  the test then raises \<open>ZeroDivisionError\<close> exactly when the measured time is 0, and
  otherwise returns the rate \<open>total_docs / elapsed\<close> and its ratio to the claimed 50000.
\<close>

theorem insert_batches:
  assumes "me_importable env"
  shows "fst (snd (test_insert_performance env ff (JArr docs))) = map JArr (chunks_of 100000 docs)
       \<and> snd (snd (test_insert_performance env ff (JArr docs)))
         = (if me_insert_secs env = 0 then Inl ZeroDivisionError
            else Inr (Some (of_nat (length docs) / me_insert_secs env,
                            of_nat (length docs) / me_insert_secs env / 50000)))"
  using assms
  by (simp add: test_insert_performance_def mongo_header_def py_len_def py_range_def insert_loop_chunks
      py_div_def Let_def)

theorem insert_batches_witness:
  "me_importable \<lparr>me_now = ascii ''now'', me_now2 = ascii ''later'', me_test_hash = ascii ''abc'', me_importable = True,
      me_search_results = \<lambda>_. 0, me_search_ms = \<lambda>_. 1, me_insert_secs = 2,
      me_aggregate_ms = 1, me_compressed_size = 1, me_results_dir = True\<rparr>
   \<and> fst (snd (test_insert_performance \<lparr>me_now = ascii ''now'', me_now2 = ascii ''later'', me_test_hash = ascii ''abc'', me_importable = True,
      me_search_results = \<lambda>_. 0, me_search_ms = \<lambda>_. 1, me_insert_secs = 2,
      me_aggregate_ms = 1, me_compressed_size = 1, me_results_dir = True\<rparr> (\<lambda>_ _. []) (JArr [JInt 1, JInt 2]))) = [JArr [JInt 1, JInt 2]]
   \<and> snd (snd (test_insert_performance \<lparr>me_now = ascii ''now'', me_now2 = ascii ''later'', me_test_hash = ascii ''abc'', me_importable = True,
      me_search_results = \<lambda>_. 0, me_search_ms = \<lambda>_. 1, me_insert_secs = 2,
      me_aggregate_ms = 1, me_compressed_size = 1, me_results_dir = True\<rparr> (\<lambda>_ _. []) (JArr [JInt 1, JInt 2]))) = Inr (Some (1, 1 / 50000))"
  using insert_batches [of "\<lparr>me_now = ascii ''now'', me_now2 = ascii ''later'', me_test_hash = ascii ''abc'', me_importable = True,
      me_search_results = \<lambda>_. 0, me_search_ms = \<lambda>_. 1, me_insert_secs = 2,
      me_aggregate_ms = 1, me_compressed_size = 1, me_results_dir = True\<rparr>" "\<lambda>_ _. []" "[JInt 1, JInt 2]"]
  by (simp add: chunks_of_nonempty_list)

text \<open>
  C31: With \<open>architect_system\<close> available, \<open>test_compression\<close> never raises on a
  well-formed value: \<open>json.dumps\<close> escapes every non-ASCII character, so
  \<open>.encode()\<close> succeeds and the original size in bytes is the number of characters of
  the JSON text, which is never 0; the reduction is \<open>(original - compressed) / original * 100\<close>
  and the factor its ratio to the claimed 70.
\<close>

theorem compression_size:
  assumes "me_importable env" and "json_wf data"
  shows "snd (test_compression env ff data)
         = (let n = length (json_encode plain_opts 0 data);
                reduction = of_int (int n - int (me_compressed_size env)) / of_nat n * 100
            in Inr (Some (reduction, reduction / 70)))"
proof -
  have a: "is_ascii (json_encode plain_opts 0 data)"
    by (rule json_encode_ascii) (simp_all add: plain_opts_def assms(2))
  have "json_encode plain_opts 0 data \<noteq> []"
    using assms(2) by (rule json_encode_nonempty)
  then have "length (json_encode plain_opts 0 data) \<noteq> 0"
    by simp
  with assms(1) show ?thesis
    by (simp add: test_compression_def mongo_header_def out_bind_def py_str_encode_ascii [OF a]
        py_div_def Let_def)
qed

theorem compression_size_witness:
  "me_importable \<lparr>me_now = ascii ''now'', me_now2 = ascii ''later'', me_test_hash = ascii ''abc'', me_importable = True,
      me_search_results = \<lambda>_. 0, me_search_ms = \<lambda>_. 1, me_insert_secs = 2,
      me_aggregate_ms = 1, me_compressed_size = 1, me_results_dir = True\<rparr> \<and> json_wf (JArr [JInt 1])
   \<and> snd (test_compression \<lparr>me_now = ascii ''now'', me_now2 = ascii ''later'', me_test_hash = ascii ''abc'', me_importable = True,
      me_search_results = \<lambda>_. 0, me_search_ms = \<lambda>_. 1, me_insert_secs = 2,
      me_aggregate_ms = 1, me_compressed_size = 1, me_results_dir = True\<rparr> (\<lambda>_ _. []) (JArr [JInt 1])) = Inr (Some (200 / 3, 20 / 21))"
proof -
  have "json_encode plain_opts 0 (JArr [JInt 1]) = [0x5B, 0x31, 0x5D]"
    by (simp add: json_container_def plain_opts_def int_repr_def nat_digits.simps)
  then show ?thesis
    using compression_size [of "\<lparr>me_now = ascii ''now'', me_now2 = ascii ''later'', me_test_hash = ascii ''abc'', me_importable = True,
      me_search_results = \<lambda>_. 0, me_search_ms = \<lambda>_. 1, me_insert_secs = 2,
      me_aggregate_ms = 1, me_compressed_size = 1, me_results_dir = True\<rparr>" "JArr [JInt 1]" "\<lambda>_ _. []"]
    by (simp add: Let_def)
qed

text \<open>
  C32: Without \<open>architect_system\<close>, once non-empty data is loaded, \<open>main()\<close> calls
  \<open>bulk_insert\<close> never, records \<open>None\<close> for every test in the proof, and ends in
  \<open>FileNotFoundError\<close> when the directory \<open>results\<close> does not exist (the script never
  creates it); otherwise it returns the SHA-256 of the sorted JSON of the proof and saves
  its indented JSON.
\<close>

theorem main_without_architect:
  assumes "\<not> me_importable env" and "load_test_data fs flt 10 = (o1, Inr (Some data))" and "json_truthy data"
    and "list_all is_scalar (me_test_hash env)" and "list_all is_scalar (me_now2 env)"
  shows "snd (mongo_main fs flt ff fr sha env)
         = ([], if me_results_dir env
                then Inr (Some (sha (map byte_of_nat (json_dumps (mongo_proof_json fr env None None None None))),
                                json_encode indent2_opts 0 (mongo_proof_json fr env None None None None)))
                else Inl FileNotFoundError)"
proof -
  obtain o2 where s: "test_search_performance env ff = (o2, Inr None)"
    using tests_not_importable(1) [OF assms(1), of ff] by (metis prod.collapse)
  obtain o3 where i: "test_insert_performance env ff data = (o3, [], Inr None)"
    using tests_not_importable(2) [OF assms(1), of ff data] by blast
  obtain o4 where a: "test_aggregation_performance env ff data = (o4, Inr None)"
    using tests_not_importable(3) [OF assms(1), of ff data] by (metis prod.collapse)
  obtain o5 where c: "test_compression env ff data = (o5, Inr None)"
    using tests_not_importable(4) [OF assms(1), of ff data] by (metis prod.collapse)
  have e: "py_str_encode (json_dumps (mongo_proof_json fr env None None None None))
           = Inr (map byte_of_nat (json_dumps (mongo_proof_json fr env None None None None)))"
    by (rule py_str_encode_ascii, rule json_dumps_ascii, rule mongo_proof_wf [OF assms(4,5)])
  show ?thesis
    using assms(2,3) s i a c e by (simp add: mongo_main_def Let_def)
qed

theorem main_without_architect_witness:
  "\<not> me_importable \<lparr>me_now = ascii ''now'', me_now2 = ascii ''later'', me_test_hash = ascii ''abc'', me_importable = False,
      me_search_results = \<lambda>_. 0, me_search_ms = \<lambda>_. 1, me_insert_secs = 2,
      me_aggregate_ms = 1, me_compressed_size = 1, me_results_dir = False\<rparr>
   \<and> load_test_data (\<lambda>f. if f = wiki_file_name 10 then Some (json_encode plain_opts 0 (JArr [JInt 1])) else None) (\<lambda>t. t) 10
       = ([ascii ''Loading '' @ wiki_file_name 10 @ ascii ''...'',
           ascii ''Loaded '' @ fmt_commas (int (length [JInt 1])) @ ascii '' documents (10GB)''],
          Inr (Some (JArr [JInt 1])))
   \<and> json_truthy (JArr [JInt 1])
   \<and> snd (mongo_main (\<lambda>f. if f = wiki_file_name 10 then Some (json_encode plain_opts 0 (JArr [JInt 1])) else None) (\<lambda>t. t) (\<lambda>_ _. []) (\<lambda>_. []) (\<lambda>_. []) \<lparr>me_now = ascii ''now'', me_now2 = ascii ''later'', me_test_hash = ascii ''abc'', me_importable = False,
      me_search_results = \<lambda>_. 0, me_search_ms = \<lambda>_. 1, me_insert_secs = 2,
      me_aggregate_ms = 1, me_compressed_size = 1, me_results_dir = False\<rparr>) = ([], Inl FileNotFoundError)"
proof -
  have o: "opts_ok plain_opts"
    by (simp add: opts_ok_def sep_ok_def plain_opts_def is_ws_def)
  have j: "json_ok (\<lambda>t. t) (JArr [JInt 1])"
    by (simp add: nat_digits.simps)
  have l: "load_test_data (\<lambda>f. if f = wiki_file_name 10 then Some (json_encode plain_opts 0 (JArr [JInt 1])) else None) (\<lambda>t. t) 10
       = ([ascii ''Loading '' @ wiki_file_name 10 @ ascii ''...'',
           ascii ''Loaded '' @ fmt_commas (int (length [JInt 1])) @ ascii '' documents (10GB)''],
          Inr (Some (JArr [JInt 1])))"
    using load_test_data_encoded_text [OF o j, of "(\<lambda>f. if f = wiki_file_name 10 then Some (json_encode plain_opts 0 (JArr [JInt 1])) else None)"] by (simp add: json_decoded_def plain_opts_def)
  have sc: "list_all is_scalar (ascii ''abc'')" "list_all is_scalar (ascii ''later'')"
    by (simp_all add: ascii_scalar)
  show ?thesis
    using main_without_architect [of "\<lparr>me_now = ascii ''now'', me_now2 = ascii ''later'', me_test_hash = ascii ''abc'', me_importable = False,
      me_search_results = \<lambda>_. 0, me_search_ms = \<lambda>_. 1, me_insert_secs = 2,
      me_aggregate_ms = 1, me_compressed_size = 1, me_results_dir = False\<rparr>", OF _ l _ ] l sc by simp
qed

end
