(* ===== verification/Spec2Isabelle.thy ===== *)
theory Spec2Isabelle
  imports Report Benchmarks JsonLoad MongoDB
begin

text \<open>
  \<^bold>\<open>A verification library for the block-deduplication pipeline of nextgenmemory.\<close>

  \<^bold>\<open>The program.\<close>  Of the repository's scripts, one computes something:
  \<open>src/legal_verification.py\<close>, class \<open>LegalVerification\<close>.  Its
  \<open>process_wikipedia_complete\<close> (lines 53--204) checks that the Wikipedia dump exists,
  hashes a session record (lines 63--72), maps the dump into memory and walks it in 1 GiB
  chunks (\<open>1 * 1024 * 1024 * 1024\<close>, line 99, whose comment says 10GB); each chunk's bytes are decoded with \<open>decode('utf-8', errors='ignore')\<close>
  (line 126), cut into \<open>block_size\<close>-character blocks (lines 128--133), handed to the
  external compressor \<open>EnhancedRingCompression.optimize_for_text_files\<close> (lines 139--142)
  and counted (lines 146--153, with the per-chunk ratio
  \<open>1 - len(compressed)/len(blocks)\<close>); at the end the totals, the overall ratio (guarded
  against zero blocks) and the timing figures are returned (lines 177--204).  \<open>run\<close>
  (lines 330--404) then hashes a JSON proof record (\<open>generate_cryptographic_proof\<close>) and
  prints a letter whose cost-reduction figure divides by the performance factor
  (\<open>generate_legal_documentation\<close>).  \<open>verify_environment.py\<close> and
  \<open>download_test_data.py\<close> are two helper scripts; the \<open>test_*.py\<close> scripts print
  claims and call the unavailable module \<open>architect_system\<close>.

  \<^bold>\<open>The theories.\<close>
  \<^item> \<open>Prelude\<close>: the types (\<open>byte = 8 word\<close>, code points, \<open>pystr\<close>), the exceptions
    \<open>py_error\<close>, Python's \<open>/\<close> with its \<open>ZeroDivisionError\<close> (\<open>py_div\<close>), and
    \<open>chunks_of\<close>, the specification of "consecutive pieces of a fixed length".
  \<^item> \<open>PyBuiltins\<close>: \<open>range(start, stop, step)\<close> (\<open>range_from\<close>, \<open>py_range\<close>) and
    slicing (\<open>py_slice\<close>); \<open>map_slices_range_from\<close> shows that the idiom
    \<open>for i in range(0, n, k): xs[i:i+k]\<close> yields \<open>chunks_of k xs\<close>.
  \<^item> \<open>Utf8\<close>: CPython's UTF-8 codec.  \<open>utf8_step\<close> is one iteration of the decoder
    loop of \<open>Objects/stringlib/codecs.h\<close>, \<open>utf8_decode_ignore\<close> the whole decode with
    the \<open>ignore\<close> handler (line 126); \<open>utf8_encode_cp\<close>/\<open>py_str_encode\<close> are
    \<open>str.encode()\<close> (\<open>session_json.encode()\<close>, line 72; also
    \<open>test_mongodb_complete.py\<close> line 173).  Shown: round trip (C10), only scalar values are produced (C11), at most one character per byte
    (\<open>utf8_decode_length_le\<close>, used by C2).
  \<^item> \<open>Blocks\<close>: \<open>split_blocks\<close>, the block loop of lines 128--133, equal to
    \<open>chunks_of\<close> for a positive block size (C12--C14).
  \<^item> \<open>Dedup\<close>: the compressor, which is not in the repository and is modelled from the
    specification (section 4.1): the seen-set loop \<open>dedup_step\<close>, the call
    \<open>optimize_for_text_files\<close> with its statistics, and the abstract specification
    \<open>first_occurrences\<close>, which the loop is proved to compute
    (\<open>dedup_loop_refines\<close>), with the properties the specification lists (no repeats,
    same set of blocks, first-occurrence order, idempotence).
  \<^item> \<open>Pipeline\<close>: the state of the loop as the record \<open>run_state\<close> (\<open>offset\<close>,
    \<open>chunk_num\<close>, \<open>total_blocks\<close>, \<open>total_unique\<close> and the printed per-chunk
    lines), one iteration \<open>process_chunk\<close>, the loop \<open>chunk_loop\<close> as a
    \<open>partial_function (option)\<close> (so that a loop that never ends would be \<open>None\<close>),
    the results \<open>final_results\<close>, and the entry point
    \<open>process_wikipedia_complete\<close>, whose file system is a map from paths to contents.
    The loop is proved equal to \<open>run_pieces\<close>, a fold of the abstract step
    \<open>piece_step\<close> over \<open>chunks_of chunk_size\<close> of the file (C5), and every printed
    per-chunk line is well-formed (C9); when every chunk decodes to something, the loop
    reads the whole file in \<open>ceil(size / chunk_size)\<close> iterations (C20).
  \<^item> \<open>Json\<close>: \<open>json.dumps(obj, sort_keys=True)\<close> with CPython's defaults
    (\<open>ensure_ascii\<close> escapes, surrogate pairs, \<open>', '\<close>/\<open>': '\<close> separators,
    \<open>int.__repr__\<close>); floats are carried by their \<open>repr\<close> text.  \<open>json_encode\<close> is the encoder with all of its
    options (\<open>sort_keys\<close>, \<open>indent\<close>, separators) as \<open>_make_iterencode\<close> runs it;
    \<open>json_dumps\<close> is its instance with \<open>sort_keys=True\<close> (C28).
  \<^item> \<open>JsonParse\<close>: a reference decoder for that output format (with fuel bounded by the
    text's length), and the round trip \<open>json_parse (json_dumps v) = Some (json_norm v)\<close>
    (C18), from which the encoder is injective on well-formed values
    (\<open>json_dumps_inj\<close>) and its output is ASCII, so \<open>.encode()\<close> is injective on it
    (\<open>encode_json_inj\<close>).
  \<^item> \<open>JsonLoad\<close>: \<open>json.loads\<close> as CPython's C scanner runs it (whitespace, the
    strict number grammar with its backtracking, the 4300-digit limit on \<open>int\<close>, the
    constants \<open>NaN\<close> and \<open>Infinity\<close>, dicts keeping a repeated key's first position and
    last value), a mutually recursive scanner on fuel.  Shown: every text that
    \<open>json_encode\<close> writes, with any of the options CPython accepts, loads back to the value
    (C26), and the fuel \<open>json_loads\<close> gives is always enough (C27).
  \<^item> \<open>Report\<close>: the results dict with its clock-dependent fields
    (\<open>legal_results_of\<close>, the environment \<open>run_env\<close> holding the elapsed time, the
    timestamp and the machine figures), the session record and hash, the proof record,
    \<open>generate_cryptographic_proof\<close>, \<open>generate_legal_documentation\<close> and \<open>run\<close>
    (\<open>legal_run\<close>).  SHA-256 and \<open>float.__repr__\<close> are parameters of the definitions.
    Shown: \<open>run\<close> crashes at line 273 exactly when the measured time is not positive and
    otherwise returns the hash and the report (C15); the proof hash's input changes with
    the timestamp (C16), the session hash's with the random seed (C17).
  \<^item> \<open>Env\<close>: \<open>verify()\<close> of \<open>verify_environment.py\<close> with Python's name lookup
    (globals, then builtins) and \<open>download_wikipedia\<close> of \<open>download_test_data.py\<close>:
    \<open>verify()\<close> always raises \<open>NameError\<close> (C19); \<open>download_wikipedia\<close> builds a URL,
    prints one line and leaves the file system as it was.
  \<^item> \<open>Benchmarks\<close>: the benchmark scripts \<open>test_all_databases.py\<close>,
    \<open>test_redis_complete.py\<close>, \<open>test_postgresql_complete.py\<close> and
    \<open>test_elasticsearch_complete.py\<close> as the lines they print and the exceptions they
    raise, over the same name lookup as \<open>Env\<close>; \<open>format(n, ',')\<close> is \<open>fmt_commas\<close>,
    Python's float formatting a parameter.  Shown: the digit grouping of
    \<open>format(n, ',')\<close> (C21); \<open>destroy_all()\<close> prints a thousand times each \<open>int\<close> figure
    but a thousandfold repetition of the two \<open>str\<close> ones (C22); the Redis test raises
    \<open>NameError\<close> at \<open>time.perf_counter()\<close> as soon as \<open>architect_system\<close> imports (C23);
    the Elasticsearch \<open>main()\<close> raises \<open>NameError\<close> at \<open>load_test_data\<close> (C24); the
    full-text test divides by zero exactly when every measured time is 0 (C25).
  \<^item> \<open>MongoDB\<close>: \<open>test_mongodb_complete.py\<close>: \<open>load_test_data\<close> reading the data
    file with \<open>json_loads\<close>, the four tests with the results of the \<open>architect_system\<close>
    functions and the measured times as inputs (\<open>mongo_env\<close>), the batches handed to
    \<open>bulk_insert\<close> as a trace, and \<open>main\<close> (\<open>mongo_main\<close>) with its proof record, hash and
    saved file.  Shown: a data file written by \<open>json.dump\<close> loads back as the documents
    (C29, through \<open>json_loads_encode_text\<close>); the insert loop hands \<open>bulk_insert\<close> the consecutive
    100000-document slices (C30, from \<open>map_slices_range_from\<close> of \<open>PyBuiltins\<close>); the
    compression test measures the characters of the ASCII JSON text and never divides by
    zero (C31); without \<open>architect_system\<close>, \<open>main\<close> ends in \<open>FileNotFoundError\<close>
    unless the directory \<open>results\<close> exists (C32).
  \<^item> this theory: the properties of the whole processing (C1--C4, C6--C8).

  \<^bold>\<open>What is shown of the program.\<close>  For every file system, the processing returns
  (C3); for a non-empty dump it raises \<open>ZeroDivisionError\<close> exactly when some 1 GiB chunk
  decodes to no character, and raises nothing else (C1); otherwise the number of blocks
  is the number of characters of the chunks decoded one by one and the number of unique
  blocks the sum of the numbers of distinct characters per chunk (C2), so that the
  "1 byte blocks" of the comments (lines 50, 100, 106) are one-character blocks and a
  non-ASCII dump has fewer blocks than bytes, with the overall
  ratio in \<open>[0, 100)\<close> (C6); an ASCII dump yields one block per byte (C8).  Two
  concrete files show what the chunking costs: a valid UTF-8 file of \<open>2^30 + 1\<close> bytes
  whose last character straddles the chunk boundary crashes the run (C4), and one with a
  further ASCII character completes but counts one character fewer than the file holds
  (C7).

  \<^bold>\<open>Bounds and termination.\<close>  The program's loops need no fuel.  The chunk loop is a
  partial function; its termination for every positive chunk size is proved by induction on
  \<open>file_size - offset\<close> (\<open>chunk_loop_refines\<close>, \<open>chunk_loop_terminates\<close>); the code's
  chunk size is the constant \<open>2^30\<close>.  The decoder's loop terminates because each step
  consumes at least one byte (\<open>utf8_step_suffix\<close>).  The JSON decoder, a reference
  function and not code of the repository, uses fuel: \<open>json_parse\<close> gives it the length of
  its input, which is enough for every encoder output (\<open>jsize_le_length\<close>,
  \<open>parse_value_dumps\<close>).  The scanner of \<open>JsonLoad\<close>, which models CPython's recursive
  scanner, gets twice the length of its input plus one: each call consumes input, and
  \<open>scan_fuel\<close> shows that this is enough for every input (C27).

  \<^bold>\<open>Not modelled.\<close>  The clock, the random seed, the processor name and the memory
  size are inputs (\<open>run_env\<close>), not computed; SHA-256 and Python's float arithmetic and
  \<open>repr\<close> are parameters (ratios are exact rationals); printing, the progress and ETA
  lines, \<open>input()\<close>, and the writing of the report file (\<open>json.dump(..., indent=2)\<close>) are
  left out, as they compute nothing the results depend on.  In the benchmark scripts,
  the functions imported from \<open>architect_system\<close> are only timed or their results
  printed, so the model takes the measured times and the results as inputs and leaves the
  calls out, except \<open>bulk_insert\<close>, whose arguments it records.  The text that
  \<open>open(path, 'r')\<close> reads is an input: decoding the file's bytes and the newline
  translation of text mode are not modelled.
\<close>

section \<open>Properties of the whole program\<close>

text \<open>
  C1: For a non-empty dump, \<open>process_wikipedia_complete\<close> with the program's
  configuration ends in an exception exactly when some 1 GiB chunk of the file decodes
  (with \<open>errors='ignore'\<close>) to the empty string, and that exception is the
  \<open>ZeroDivisionError\<close> of the per-chunk ratio \<open>len(compressed)/len(blocks)\<close>
  (line 149), which, unlike the final ratio, is not guarded.
\<close>

theorem process_error_iff:
  assumes "fs wikipedia_file = Some mm" and "mm \<noteq> []"
  shows "(process_wikipedia_complete fs legal_config_init = Some (Inl e))
         = (e = ZeroDivisionError \<and> (\<exists>p \<in> set (chunks_of chunk_size mm). utf8_decode_ignore p = []))"
proof -
  let ?ps = "chunks_of chunk_size mm"
  have bs: "0 < cfg_block_size legal_config_init"
    by (simp add: legal_config_block_size)
  have P: "process_wikipedia_complete fs legal_config_init =
             Some (case run_pieces legal_config_init ?ps run_init of
                     Inl e \<Rightarrow> Inl e | Inr st \<Rightarrow> Inr (Some (final_results (length mm) st)))"
    using assms bs by (rule process_wikipedia_complete_pieces)
  show ?thesis
  proof (cases "run_pieces legal_config_init ?ps run_init")
    case (Inl e')
    with P run_pieces_Inl [OF bs, of ?ps run_init] show ?thesis
      by auto
  next
    case (Inr st)
    then have "\<forall>p \<in> set ?ps. utf8_decode_ignore p \<noteq> []"
      using run_pieces_Inr [OF Inr] blocks_of_Nil_iff [OF bs] by auto
    with P Inr show ?thesis
      by auto
  qed
qed

theorem process_error_iff_witness:
  "process_wikipedia_complete (\<lambda>_. Some [0x80]) legal_config_init = Some (Inl ZeroDivisionError)"
proof -
  have "chunks_of chunk_size [0x80 :: byte] = [[0x80]]"
    by (simp add: chunks_of_nonempty_list chunk_size_def)
  moreover have "utf8_decode_ignore [0x80] = []"
    by (simp add: utf8_decode_ignore.simps utf8_step_def)
  ultimately show ?thesis
    using process_error_iff [of "\<lambda>_. Some [0x80]" "[0x80]" ZeroDivisionError] by simp
qed

text \<open>
  C2: When the processing succeeds, the results report the file's size in bytes; as many
  blocks as the chunks have characters when each chunk is decoded on its own, which is at
  most the number of bytes and fewer as soon as the dump holds a non-ASCII character
  (the comments of lines 50, 100 and 106 call the blocks "1 byte", but the code cuts the
  decoded \<open>str\<close> into one-character blocks); and, as unique blocks, the sum over the
  chunks of the number of distinct characters of the chunk (the compressor deduplicates
  within a chunk, not across chunks).
\<close>

theorem process_totals:
  assumes "fs wikipedia_file = Some mm"
    and "process_wikipedia_complete fs legal_config_init = Some (Inr (Some r))"
  shows "res_file_size r = length mm
       \<and> res_blocks_processed r = length (concat (map utf8_decode_ignore (chunks_of chunk_size mm)))
       \<and> res_blocks_processed r \<le> res_file_size r
       \<and> res_unique_blocks r = sum_list (map (\<lambda>p. card (set (utf8_decode_ignore p))) (chunks_of chunk_size mm))"
proof -
  have ne: "mm \<noteq> []"
    using assms by (auto simp: process_wikipedia_complete_def)
  have bs: "0 < cfg_block_size legal_config_init"
    by (simp add: legal_config_block_size)
  from process_wikipedia_complete_pieces [of fs mm legal_config_init, OF assms(1) ne bs] assms(2)
  obtain st where st: "run_pieces legal_config_init (chunks_of chunk_size mm) run_init = Inr st"
    and r: "r = final_results (length mm) st"
    by (auto split: sum.splits)
  have "length (concat (map utf8_decode_ignore (chunks_of chunk_size mm))) \<le> length mm"
    using utf8_decode_concat_length [of "chunks_of chunk_size mm"]
    by (simp add: concat_chunks_of chunk_size_def)
  with run_pieces_init_Inr [OF st] r show ?thesis
    by (simp add: final_results_def)
qed

theorem process_totals_witness:
  "process_wikipedia_complete (\<lambda>_. Some [0xC3, 0xA9, 0xC3, 0xA9]) legal_config_init
     = Some (Inr (Some (final_results 4 \<lparr>offset = 4, chunk_num = 1, total_blocks = 2,
         total_unique = 1, reports = [\<lparr>rep_chunk = 1, rep_blocks = 2, rep_unique = 1,
           rep_percent = 50\<rparr>]\<rparr>)))
   \<and> res_file_size (final_results 4 \<lparr>offset = 4, chunk_num = 1, total_blocks = 2,
         total_unique = 1, reports = [\<lparr>rep_chunk = 1, rep_blocks = 2, rep_unique = 1,
           rep_percent = 50\<rparr>]\<rparr>) = 4
   \<and> res_blocks_processed (final_results 4 \<lparr>offset = 4, chunk_num = 1, total_blocks = 2,
         total_unique = 1, reports = [\<lparr>rep_chunk = 1, rep_blocks = 2, rep_unique = 1,
           rep_percent = 50\<rparr>]\<rparr>) = 2
   \<and> length (concat (map utf8_decode_ignore (chunks_of chunk_size [0xC3, 0xA9, 0xC3, 0xA9 :: byte]))) = 2
   \<and> sum_list (map (\<lambda>p. card (set (utf8_decode_ignore p))) (chunks_of chunk_size [0xC3, 0xA9, 0xC3, 0xA9 :: byte])) = 1"
proof -
  let ?st = "\<lparr>offset = 4, chunk_num = 1, total_blocks = 2,
         total_unique = 1, reports = [\<lparr>rep_chunk = 1, rep_blocks = 2, rep_unique = 1,
           rep_percent = 50\<rparr>]\<rparr>"
  have run: "process_wikipedia_complete (\<lambda>_. Some [0xC3, 0xA9, 0xC3, 0xA9]) legal_config_init
              = Some (Inr (Some (final_results 4 ?st)))"
    by (rule process_EE)
  have "res_file_size (final_results 4 ?st) = length [0xC3, 0xA9, 0xC3, 0xA9 :: byte]
        \<and> res_blocks_processed (final_results 4 ?st)
          = length (concat (map utf8_decode_ignore (chunks_of chunk_size [0xC3, 0xA9, 0xC3, 0xA9 :: byte])))
        \<and> res_unique_blocks (final_results 4 ?st)
          = sum_list (map (\<lambda>p. card (set (utf8_decode_ignore p))) (chunks_of chunk_size [0xC3, 0xA9, 0xC3, 0xA9 :: byte]))"
    using process_totals [of "\<lambda>_. Some [0xC3, 0xA9, 0xC3, 0xA9]" "[0xC3, 0xA9, 0xC3, 0xA9]"
        "final_results 4 ?st"] run
    by simp
  then show ?thesis
    using run by (simp add: final_results_def)
qed

text \<open>
  C3: \<open>process_wikipedia_complete\<close> always returns (a result, \<open>None\<close> for a missing
  dump, or an exception): its chunk loop advances \<open>offset\<close> by a positive amount until
  it reaches the file size, for every configuration.
\<close>

theorem process_terminates: "\<exists>r. process_wikipedia_complete fs cfg = Some r"
proof (cases "fs wikipedia_file")
  case None
  then show ?thesis by (simp add: process_wikipedia_complete_def)
next
  case (Some mm)
  obtain r where "chunk_loop cfg chunk_size mm run_init = Some r"
    using chunk_loop_terminates [of chunk_size cfg mm run_init] by (auto simp: chunk_size_def)
  with Some show ?thesis
    by (auto simp: process_wikipedia_complete_def split: sum.splits)
qed


text \<open>
  C4: A valid UTF-8 file can crash the run: the encoding of \<open>2^30 - 1\<close> letters
  \<open>A\<close> followed by \<open>\<acute>e\<close> (U+00E9) puts the first byte of \<open>\<acute>e\<close> at the end of
  the first chunk and the second byte alone in the second chunk, which decodes to nothing,
  so line 149 divides by zero.
\<close>

theorem valid_file_crashes:
  "py_str_encode (replicate (chunk_size - 1) 0x41 @ [0xE9])
     = Inr (replicate (chunk_size - 1) 0x41 @ [0xC3, 0xA9])
   \<and> process_wikipedia_complete (\<lambda>_. Some (replicate (chunk_size - 1) 0x41 @ [0xC3, 0xA9]))
       legal_config_init = Some (Inl ZeroDivisionError)"
proof
  show "py_str_encode (replicate (chunk_size - 1) 0x41 @ [0xE9])
        = Inr (replicate (chunk_size - 1) 0x41 @ [0xC3, 0xA9])"
    by (simp add: py_str_encode_def utf8_encode_cp_def byte_of_nat_def is_surrogate_def
        list_ex_iff comp_def)
next
  define n where "n = chunk_size - 1"
  have cs: "chunk_size = Suc n"
    using chunk_size_Suc by (simp add: n_def)
  let ?mm = "replicate n 0x41 @ [0xC3, 0xA9 :: byte]"
  have ch: "chunks_of chunk_size ?mm = [replicate n 0x41 @ [0xC3], [0xA9]]"
    by (simp add: cs chunks_replicate_prefix chunks_of_nonempty_list)
  have "utf8_decode_ignore [0xA9] = []"
    by (simp add: utf8_decode_ignore.simps utf8_step_def)
  then have "run_pieces legal_config_init (chunks_of chunk_size ?mm) run_init = Inl ZeroDivisionError"
    using run_pieces_Inl [of legal_config_init] ch
    by (simp add: legal_config_block_size del: run_pieces.simps)
  then show "process_wikipedia_complete (\<lambda>_. Some (replicate (chunk_size - 1) 0x41 @ [0xC3, 0xA9]))
               legal_config_init = Some (Inl ZeroDivisionError)"
    using process_wikipedia_complete_pieces [of "\<lambda>_. Some ?mm" ?mm legal_config_init]
    by (simp add: legal_config_block_size n_def del: run_pieces.simps)
qed

text \<open>
  C6: When the processing succeeds, at least one block was processed, there are no more
  unique blocks than blocks, and the reported compression ratio lies in \<open>[0, 100)\<close>;
  in particular the \<open>else 0\<close> branch of line 180 is never taken.
\<close>

theorem process_ratio_bounds:
  assumes "process_wikipedia_complete fs legal_config_init = Some (Inr (Some r))"
  shows "0 < res_blocks_processed r \<and> res_unique_blocks r \<le> res_blocks_processed r
       \<and> 0 \<le> res_compression_ratio r \<and> res_compression_ratio r < 100"
proof -
  obtain mm st where "fs wikipedia_file = Some mm" "mm \<noteq> []"
    "run_pieces legal_config_init (chunks_of chunk_size mm) run_init = Inr st"
    and r: "r = final_results (length mm) st"
    and u: "0 < total_unique st" "total_unique st \<le> total_blocks st"
    by (rule process_success_run [OF assms])
  with final_ratio_bounds [OF u, of "length mm"] show ?thesis
    by (simp add: final_results_def)
qed

theorem process_ratio_bounds_witness:
  "0 < res_blocks_processed (final_results 3 \<lparr>offset = 3, chunk_num = 1, total_blocks = 3,
         total_unique = 2, reports = [\<lparr>rep_chunk = 1, rep_blocks = 3, rep_unique = 2,
           rep_percent = 100 / 3\<rparr>]\<rparr>)
   \<and> res_compression_ratio (final_results 3 \<lparr>offset = 3, chunk_num = 1, total_blocks = 3,
         total_unique = 2, reports = [\<lparr>rep_chunk = 1, rep_blocks = 3, rep_unique = 2,
           rep_percent = 100 / 3\<rparr>]\<rparr>) < 100"
  using process_ratio_bounds [OF process_ABA] by simp

text \<open>
  C7: Chunking loses characters silently: for the encoding of \<open>2^30 - 1\<close> letters
  \<open>A\<close>, then \<open>\<acute>e\<close>, then \<open>B\<close>, the run succeeds but reports \<open>2^30\<close> blocks,
  while the file holds \<open>2^30 + 1\<close> characters: the \<open>\<acute>e\<close> cut by the chunk
  boundary is dropped by both chunks' decoders.
\<close>

theorem boundary_drops_character:
  "py_str_encode (replicate (chunk_size - 1) 0x41 @ [0xE9, 0x42])
     = Inr (replicate (chunk_size - 1) 0x41 @ [0xC3, 0xA9, 0x42])
   \<and> length (utf8_decode_ignore (replicate (chunk_size - 1) 0x41 @ [0xC3, 0xA9, 0x42])) = chunk_size + 1
   \<and> (\<exists>r. process_wikipedia_complete (\<lambda>_. Some (replicate (chunk_size - 1) 0x41 @ [0xC3, 0xA9, 0x42]))
          legal_config_init = Some (Inr (Some r)) \<and> res_blocks_processed r = chunk_size)"
proof (intro conjI)
  show "py_str_encode (replicate (chunk_size - 1) 0x41 @ [0xE9, 0x42])
        = Inr (replicate (chunk_size - 1) 0x41 @ [0xC3, 0xA9, 0x42])"
    by (simp add: py_str_encode_def utf8_encode_cp_def byte_of_nat_def is_surrogate_def
        list_ex_iff comp_def)
  define n where "n = chunk_size - 1"
  have cs: "chunk_size = Suc n" and pos: "0 < n"
    using chunk_size_Suc by (simp_all add: n_def)
  have e9: "utf8_decode_ignore [0xC3, 0xA9, 0x42] = [0xE9, 0x42]"
    by (simp add: utf8_decode_ignore.simps utf8_step_def is_cont_def cp2_def)
  show "length (utf8_decode_ignore (replicate (chunk_size - 1) 0x41 @ [0xC3, 0xA9, 0x42])) = chunk_size + 1"
    by (simp add: utf8_decode_replicate_A e9 n_def [symmetric] cs)
  let ?mm = "replicate n 0x41 @ [0xC3, 0xA9, 0x42 :: byte]"
  have ch: "chunks_of chunk_size ?mm = [replicate n 0x41 @ [0xC3], [0xA9, 0x42]]"
    using pos by (simp add: cs chunks_replicate_prefix chunks_of_nonempty_list)
  have d1: "utf8_decode_ignore (replicate n 0x41 @ [0xC3]) = replicate n 0x41"
    by (simp add: utf8_decode_replicate_A utf8_decode_ignore.simps utf8_step_def)
  have d2: "utf8_decode_ignore [0xA9, 0x42] = [0x42]"
    by (simp add: utf8_decode_ignore.simps utf8_step_def)
  have bs: "0 < cfg_block_size legal_config_init"
    by (simp add: legal_config_block_size)
  have "\<forall>p \<in> set (chunks_of chunk_size ?mm). utf8_decode_ignore p \<noteq> []"
    using pos unfolding ch by (simp add: d1 d2)
  then obtain st where st: "run_pieces legal_config_init (chunks_of chunk_size ?mm) run_init = Inr st"
    using run_pieces_no_error [OF bs] by blast
  have "total_blocks st = chunk_size"
    using run_pieces_init_Inr [OF st] pos unfolding ch by (simp add: d1 d2 cs)
  with st process_wikipedia_complete_pieces [of "\<lambda>_. Some ?mm" ?mm legal_config_init] bs
  show "\<exists>r. process_wikipedia_complete (\<lambda>_. Some (replicate (chunk_size - 1) 0x41 @ [0xC3, 0xA9, 0x42]))
             legal_config_init = Some (Inr (Some r)) \<and> res_blocks_processed r = chunk_size"
    by (simp add: final_results_def n_def del: run_pieces.simps)
qed

text \<open>
  C8: For a non-empty ASCII dump the processing succeeds and reports exactly one block
  per byte of the file.
\<close>

theorem process_ascii:
  assumes "fs wikipedia_file = Some mm" and "mm \<noteq> []" and "list_all (\<lambda>b. unat b < 0x80) mm"
  shows "\<exists>r. process_wikipedia_complete fs legal_config_init = Some (Inr (Some r))
             \<and> res_blocks_processed r = length mm"
proof -
  let ?ps = "chunks_of chunk_size mm"
  have bs: "0 < cfg_block_size legal_config_init"
    by (simp add: legal_config_block_size)
  have dec: "utf8_decode_ignore p = map unat p" if "p \<in> set ?ps" for p
    using set_chunks_of_subset [OF that] assms(3) by (simp add: utf8_decode_ascii list_all_iff subset_iff)
  have "\<forall>p \<in> set ?ps. utf8_decode_ignore p \<noteq> []"
    using dec chunks_of_piece_bounds by fastforce
  then obtain st where st: "run_pieces legal_config_init ?ps run_init = Inr st"
    using run_pieces_no_error [OF bs] by blast
  have "sum_list (map (\<lambda>p. length (utf8_decode_ignore p)) ?ps) = sum_list (map length ?ps)"
    using dec by (intro arg_cong [where f = sum_list] map_cong) auto
  then have "total_blocks st = length (concat ?ps)"
    using run_pieces_init_Inr [OF st] by (simp add: length_concat comp_def)
  then have "total_blocks st = length mm"
    using concat_chunks_of [of chunk_size mm] by (simp add: chunk_size_def)
  with st process_wikipedia_complete_pieces [of fs mm legal_config_init, OF assms(1,2) bs] show ?thesis
    by (simp add: final_results_def)
qed

theorem process_ascii_witness:
  "\<exists>r. process_wikipedia_complete (\<lambda>_. Some [0x41, 0x42, 0x41]) legal_config_init = Some (Inr (Some r))
       \<and> res_blocks_processed r = 3"
  using process_ascii [of "\<lambda>_. Some [0x41, 0x42, 0x41]" "[0x41, 0x42, 0x41]"]
  by (simp add: numeral_3_eq_3)

end
